(* ===== verification/Modbus_Prelude.thy ===== *)
theory Modbus_Prelude
  imports Main "HOL-Library.Word"
begin

text \<open>
  Machine integers, C-style faults and the bounded buffers every other theory uses.

  A C function that dereferences a pointer becomes a function into \<open>fault + 'a\<close>: \<open>Inr\<close>
  is a normal return and \<open>Inl\<close> names the undefined behaviour (or the abort) the C code
  would have run into. Buffers are lists of bytes, a pointer into a buffer is its offset
  from the start, and every load and store is checked against the length of the list.
  The macros \<open>MAKE_WORD\<close>, \<open>LOW_BYTE\<close> and \<open>HIGH_BYTE\<close> of \<open>rtu.h\<close> are here too.
\<close>

unbundle bit_operations_syntax

type_synonym u8 = "8 word"
type_synonym u16 = "16 word"

text \<open>Facts that compute a buffer access whose bounds are known.\<close>

named_theorems access_simps

section \<open>Faults\<close>

text \<open>The arrays of the program, named in the fault that an access out of range gives.\<close>

datatype region = Rxbuf | Txbuf | RtuMem | Adu | Dst | Data

datatype fault =
    BadRead region int
  | BadWrite region int
  | NullDeref region
  | NullCall
  | CheckFailed string
  | OutOfFuel

type_synonym 'a res = "fault + 'a"

fun bind_res :: "'a res \<Rightarrow> ('a \<Rightarrow> 'b res) \<Rightarrow> 'b res" where
  "bind_res (Inl e) f = Inl e"
| "bind_res (Inr x) f = f x"

definition is_ok :: "'a res \<Rightarrow> bool" where
  "is_ok r = (case r of Inl _ \<Rightarrow> False | Inr _ \<Rightarrow> True)"

lemma is_ok_simps [simp]: "is_ok (Inr x)" "\<not> is_ok (Inl e)"
  by (simp_all add: is_ok_def)

lemma bind_res_cong [fundef_cong]:
  "m = m' \<Longrightarrow> (\<And>x. m' = Inr x \<Longrightarrow> f x = g x) \<Longrightarrow> bind_res m f = bind_res m' g"
  by (cases m') auto

lemma bind_res_Inr_iff:
  "bind_res m f = Inr y \<longleftrightarrow> (\<exists>x. m = Inr x \<and> f x = Inr y)"
  by (cases m) auto

lemma bind_res_Inl_iff:
  "bind_res m f = Inl e \<longleftrightarrow> m = Inl e \<or> (\<exists>x. m = Inr x \<and> f x = Inl e)"
  by (cases m) auto

lemma bind_res_assoc: "bind_res (bind_res m f) g = bind_res m (\<lambda>x. bind_res (f x) g)"
  by (cases m) auto

lemma bind_res_Inr_right [simp]: "bind_res m Inr = m"
  by (cases m) auto

lemma bind_resE:
  assumes "bind_res m f = Inr y"
  obtains x where "m = Inr x" and "f x = Inr y"
  using assms by (auto simp: bind_res_Inr_iff)

lemma is_ok_bind: "is_ok (bind_res m f) \<longleftrightarrow> (\<exists>x. m = Inr x \<and> is_ok (f x))"
  by (cases m) auto

section \<open>Buffers\<close>

definition load :: "region \<Rightarrow> u8 list \<Rightarrow> nat \<Rightarrow> u8 res" where
  "load r xs i = (if i < length xs then Inr (xs ! i) else Inl (BadRead r (int i)))"

definition store :: "region \<Rightarrow> u8 list \<Rightarrow> nat \<Rightarrow> u8 \<Rightarrow> u8 list res" where
  "store r xs i v = (if i < length xs then Inr (xs[i := v]) else Inl (BadWrite r (int i)))"

text \<open>A write cursor is a buffer and an offset: \<open>*p++ = v\<close> is \<open>put\<close>.\<close>

type_synonym cursor = "u8 list \<times> nat"

definition put :: "region \<Rightarrow> cursor \<Rightarrow> u8 \<Rightarrow> cursor res" where
  "put r c v = bind_res (store r (fst c) (snd c) v) (\<lambda>xs. Inr (xs, Suc (snd c)))"

fun put_all :: "region \<Rightarrow> cursor \<Rightarrow> u8 list \<Rightarrow> cursor res" where
  "put_all r c [] = Inr c"
| "put_all r c (v # vs) = bind_res (put r c v) (\<lambda>c. put_all r c vs)"

fun load_all :: "region \<Rightarrow> u8 list \<Rightarrow> nat \<Rightarrow> nat \<Rightarrow> u8 list res" where
  "load_all r xs i 0 = Inr []"
| "load_all r xs i (Suc n) =
     bind_res (load r xs i) (\<lambda>v. bind_res (load_all r xs (Suc i) n) (\<lambda>vs. Inr (v # vs)))"

text \<open>\<open>memcpy(dst, src, n)\<close> between two different buffers; the result is \<open>dst + n\<close>.\<close>

definition memcpy :: "region \<Rightarrow> cursor \<Rightarrow> region \<Rightarrow> u8 list \<Rightarrow> nat \<Rightarrow> nat \<Rightarrow> cursor res" where
  "memcpy rd c rs src i n = bind_res (load_all rs src i n) (put_all rd c)"

definition overwrite :: "u8 list \<Rightarrow> nat \<Rightarrow> u8 list \<Rightarrow> u8 list" where
  "overwrite xs i vs = take i xs @ vs @ drop (i + length vs) xs"

lemma load_ok [access_simps]: "i < length xs \<Longrightarrow> load r xs i = Inr (xs ! i)"
  by (simp add: load_def)

lemma load_Inr_iff: "load r xs i = Inr v \<longleftrightarrow> i < length xs \<and> v = xs ! i"
  by (auto simp: load_def)

lemma store_ok [access_simps]: "i < length xs \<Longrightarrow> store r xs i v = Inr (xs[i := v])"
  by (simp add: store_def)

lemma put_ok [access_simps]: "i < length xs \<Longrightarrow> put r (xs, i) v = Inr (xs[i := v], Suc i)"
  by (simp add: put_def store_def)

lemma put_Inr_iff:
  "put r (xs, i) v = Inr c \<longleftrightarrow> i < length xs \<and> c = (xs[i := v], Suc i)"
  by (auto simp: put_def store_def)

lemma length_overwrite [simp]: "i + length vs \<le> length xs \<Longrightarrow> length (overwrite xs i vs) = length xs"
  by (simp add: overwrite_def)

lemma overwrite_Nil [simp]: "overwrite xs i [] = xs"
  by (simp add: overwrite_def)

lemma overwrite_Cons:
  "i < length xs \<Longrightarrow> overwrite (xs[i := v]) (Suc i) vs = overwrite xs i (v # vs)"
  by (simp add: overwrite_def take_Suc_conv_app_nth)

lemma take_overwrite [simp]:
  "i + length vs \<le> length xs \<Longrightarrow> take i (overwrite xs i vs) = take i xs"
  by (simp add: overwrite_def)

lemma take_overwrite_end [simp]:
  "i + length vs \<le> length xs \<Longrightarrow> take (i + length vs) (overwrite xs i vs) = take i xs @ vs"
  by (simp add: overwrite_def)

lemma overwrite_overwrite:
  "i + length us + length vs \<le> length xs \<Longrightarrow>
   overwrite (overwrite xs i us) (i + length us) vs = overwrite xs i (us @ vs)"
  by (simp add: overwrite_def ac_simps)

lemma nth_overwrite:
  assumes "i + length vs \<le> length xs" and "k < length xs"
  shows "overwrite xs i vs ! k = (if i \<le> k \<and> k < i + length vs then vs ! (k - i) else xs ! k)"
  using assms by (auto simp: overwrite_def nth_append min_def)

text \<open>Writing a run of bytes is one \<open>overwrite\<close> when it fits, a fault when it does not.\<close>

lemma put_all_eq:
  "put_all r (xs, i) vs =
     (if vs = [] \<or> i + length vs \<le> length xs then Inr (overwrite xs i vs, i + length vs)
      else Inl (BadWrite r (int (max i (length xs)))))"
proof (induction vs arbitrary: xs i)
  case Nil
  then show ?case by simp
next
  case (Cons v vs)
  show ?case
  proof (cases "i < length xs")
    case True
    then show ?thesis
      using Cons.IH [of "xs[i := v]" "Suc i"]
      by (auto simp: put_ok overwrite_Cons max_def)
  next
    case False
    then show ?thesis by (simp add: put_def store_def)
  qed
qed

lemma put_all_ok [access_simps]:
  "i + length vs \<le> length xs \<Longrightarrow> put_all r (xs, i) vs = Inr (overwrite xs i vs, i + length vs)"
  by (simp add: put_all_eq)

lemma put_all_append:
  "put_all r c (us @ vs) = bind_res (put_all r c us) (\<lambda>c. put_all r c vs)"
  by (induction us arbitrary: c) (simp_all add: bind_res_assoc)

lemma load_all_ok [access_simps]:
  "i + n \<le> length xs \<Longrightarrow> load_all r xs i n = Inr (take n (drop i xs))"
proof (induction n arbitrary: i)
  case 0
  then show ?case by simp
next
  case (Suc n)
  then have "i < length xs" by simp
  then have "drop i xs = xs ! i # drop (Suc i) xs"
    by (simp add: Cons_nth_drop_Suc)
  with Suc show ?case by (simp add: load_ok)
qed

lemma memcpy_ok [access_simps]:
  "i + n \<le> length src \<Longrightarrow> j + n \<le> length dst \<Longrightarrow>
   memcpy rd (dst, j) rs src i n = Inr (overwrite dst j (take n (drop i src)), j + n)"
  by (simp add: memcpy_def load_all_ok put_all_ok)

section \<open>Bytes of a word (\<open>rtu.h\<close>)\<close>

definition MAKE_WORD :: "u8 \<Rightarrow> u8 \<Rightarrow> u16" where
  "MAKE_WORD low high = (push_bit 8 (ucast high)) OR (ucast low AND 0xFF)"

definition LOW_BYTE :: "u16 \<Rightarrow> u8" where
  "LOW_BYTE w = ucast (w AND 0xFF)"

definition HIGH_BYTE :: "u16 \<Rightarrow> u8" where
  "HIGH_BYTE w = ucast (drop_bit 8 w)"

lemma u8_less [simp]: "unat (b :: u8) < 256"
  by (rule order.strict_trans2 [OF unsigned_less]) simp

lemma u16_less [simp]: "unat (w :: u16) < 65536"
  by (rule order.strict_trans2 [OF unsigned_less]) simp

lemma u8_less_u16 [simp]: "unat (b :: u8) < 65536"
  by (rule order.strict_trans [OF u8_less]) simp

lemma u8_times_256_less [simp]: "unat (b :: u8) * 256 < 65536" "256 * unat b < 65536"
  using u8_less [of b] by linarith+

lemma u8_pair_less [simp]: "unat (l :: u8) + 256 * unat (h :: u8) < 65536"
  using u8_less [of l] u8_less [of h] by linarith

lemma unat_ucast_u8 [simp]: "unat (ucast (b :: u8) :: u16) = unat b"
  by (simp add: unsigned_ucast_eq take_bit_eq_mod)

lemma mask8_u16: "(0xFF :: u16) = mask 8"
  by (simp add: mask_eq_exp_minus_1)

lemma bit_MAKE_WORD:
  "bit (MAKE_WORD l h) n \<longleftrightarrow> (n < 8 \<and> bit l n) \<or> (8 \<le> n \<and> n < 16 \<and> bit h (n - 8))"
proof -
  have "bit l n \<Longrightarrow> n < 8" by (drule bit_imp_le_length) simp
  moreover have "bit h (n - 8) \<Longrightarrow> n - 8 < 8" by (drule bit_imp_le_length) simp
  ultimately show ?thesis
    by (auto simp: MAKE_WORD_def mask8_u16 bit_simps)
qed

lemma bit_LOW_BYTE: "bit (LOW_BYTE w) n \<longleftrightarrow> n < 8 \<and> bit w n"
  by (auto simp: LOW_BYTE_def mask8_u16 bit_simps)

lemma bit_HIGH_BYTE: "bit (HIGH_BYTE w) n \<longleftrightarrow> n < 8 \<and> bit w (n + 8)"
  by (auto simp: HIGH_BYTE_def bit_simps ac_simps dest: bit_imp_le_length)

lemma LOW_BYTE_MAKE_WORD [simp]: "LOW_BYTE (MAKE_WORD l h) = l"
  by (rule bit_word_eqI) (auto simp: bit_LOW_BYTE bit_MAKE_WORD)

lemma HIGH_BYTE_MAKE_WORD [simp]: "HIGH_BYTE (MAKE_WORD l h) = h"
  by (rule bit_word_eqI) (auto simp: bit_HIGH_BYTE bit_MAKE_WORD)

lemma MAKE_WORD_bytes [simp]: "MAKE_WORD (LOW_BYTE w) (HIGH_BYTE w) = w"
  by (rule bit_word_eqI) (auto simp: bit_LOW_BYTE bit_HIGH_BYTE bit_MAKE_WORD)

lemma MAKE_WORD_inject [simp]: "MAKE_WORD l h = MAKE_WORD l' h' \<longleftrightarrow> l = l' \<and> h = h'"
  by (metis LOW_BYTE_MAKE_WORD HIGH_BYTE_MAKE_WORD)

lemma unat_MAKE_WORD: "unat (MAKE_WORD l h) = unat l + 256 * unat h"
proof -
  have disj: "(push_bit 8 (ucast h) :: u16) AND (ucast l AND 0xFF) = 0"
    by (rule bit_word_eqI) (auto simp: mask8_u16 bit_simps)
  have low: "(ucast l AND 0xFF :: u16) = ucast l"
    by (rule bit_word_eqI) (auto simp: mask8_u16 bit_simps dest: bit_imp_le_length)
  have hi: "unat (push_bit 8 (ucast h) :: u16) = 256 * unat h"
    by (simp add: push_bit_eq_mult unat_word_ariths)
  have "MAKE_WORD l h = push_bit 8 (ucast h) + (ucast l AND 0xFF)"
    unfolding MAKE_WORD_def by (rule disjunctive_add_eq_or [OF disj, symmetric])
  then have "unat (MAKE_WORD l h) = (256 * unat h + unat l) mod 65536"
    by (simp add: low unat_word_ariths(1) hi)
  also have "\<dots> = unat l + 256 * unat h"
    using u8_pair_less [of l h] by (subst mod_less) linarith+
  finally show ?thesis .
qed

end
