(* ===== verification/Rtu_Codes.thy ===== *)
theory Rtu_Codes
  imports Modbus_Prelude
begin

text \<open>
  The constants of \<open>rtu.h\<close> that requests and replies are made of (function codes,
  exception codes) and the big-endian 16-bit fields \<open>modbus_rtu_data16_t\<close>, of which
  memory addresses and counts are other names.
\<close>

section \<open>Function codes and exception codes\<close>

abbreviation FCODE_INVALID :: u8 where "FCODE_INVALID \<equiv> 0"
abbreviation FCODE_RD_INPUT :: u8 where "FCODE_RD_INPUT \<equiv> 2"
abbreviation FCODE_RD_COILS :: u8 where "FCODE_RD_COILS \<equiv> 1"
abbreviation FCODE_RD_HOLDING_REGISTERS :: u8 where "FCODE_RD_HOLDING_REGISTERS \<equiv> 3"
abbreviation FCODE_WR_COIL :: u8 where "FCODE_WR_COIL \<equiv> 5"
abbreviation FCODE_WR_REGISTER :: u8 where "FCODE_WR_REGISTER \<equiv> 6"
abbreviation FCODE_WR_REGISTERS :: u8 where "FCODE_WR_REGISTERS \<equiv> 16"
abbreviation FCODE_WR_COILS :: u8 where "FCODE_WR_COILS \<equiv> 15"
abbreviation FCODE_RD_IN_REGISTERS :: u8 where "FCODE_RD_IN_REGISTERS \<equiv> 4"
abbreviation FCODE_RD_WR_REGISTERS :: u8 where "FCODE_RD_WR_REGISTERS \<equiv> 23"
abbreviation FCODE_MWR_REGISTER :: u8 where "FCODE_MWR_REGISTER \<equiv> 22"
abbreviation FCODE_RD_FIFO :: u8 where "FCODE_RD_FIFO \<equiv> 24"
abbreviation FCODE_RD_FILE :: u8 where "FCODE_RD_FILE \<equiv> 20"
abbreviation FCODE_WR_FILE :: u8 where "FCODE_WR_FILE \<equiv> 21"
abbreviation FCODE_RD_EXCEPTION_STATUS :: u8 where "FCODE_RD_EXCEPTION_STATUS \<equiv> 7"
abbreviation FCODE_DIAGNOSTIC :: u8 where "FCODE_DIAGNOSTIC \<equiv> 8"
abbreviation FCODE_GET_COM_EVENT_CNTR :: u8 where "FCODE_GET_COM_EVENT_CNTR \<equiv> 11"
abbreviation FCODE_GET_COM_EVENT_LOG :: u8 where "FCODE_GET_COM_EVENT_LOG \<equiv> 12"
abbreviation FCODE_REPORT_SERVER_ID :: u8 where "FCODE_REPORT_SERVER_ID \<equiv> 17"
abbreviation FCODE_RD_DEVICE_ID :: u8 where "FCODE_RD_DEVICE_ID \<equiv> 43"

abbreviation FCODE_RD_BYTES :: u8 where "FCODE_RD_BYTES \<equiv> 65"
abbreviation FCODE_WR_BYTES :: u8 where "FCODE_WR_BYTES \<equiv> 66"

abbreviation ECODE_ILLEGAL_FUNCTION :: u8 where "ECODE_ILLEGAL_FUNCTION \<equiv> 0x1"
abbreviation ECODE_ILLEGAL_DATA_ADDRESS :: u8 where "ECODE_ILLEGAL_DATA_ADDRESS \<equiv> 0x2"
abbreviation ECODE_ILLEGAL_DATA_VALUE :: u8 where "ECODE_ILLEGAL_DATA_VALUE \<equiv> 0x3"
abbreviation ECODE_FORMAT_ERROR :: u8 where "ECODE_FORMAT_ERROR \<equiv> 0x80"

section \<open>Big-endian fields\<close>

record modbus_rtu_data16 =
  d16_high :: u8
  d16_low :: u8

type_synonym modbus_rtu_mem_addr = modbus_rtu_data16
type_synonym modbus_rtu_count = modbus_rtu_data16

definition word_to_modbus_rtu_data16 :: "u16 \<Rightarrow> modbus_rtu_data16" where
  "word_to_modbus_rtu_data16 word = \<lparr>d16_high = HIGH_BYTE word, d16_low = LOW_BYTE word\<rparr>"

definition DATA16_TO_WORD :: "modbus_rtu_data16 \<Rightarrow> u16" where
  "DATA16_TO_WORD d = MAKE_WORD (d16_low d) (d16_high d)"

lemma DATA16_TO_WORD_of_word [simp]: "DATA16_TO_WORD (word_to_modbus_rtu_data16 w) = w"
  by (simp add: DATA16_TO_WORD_def word_to_modbus_rtu_data16_def)

lemma word_of_DATA16_TO_WORD [simp]: "word_to_modbus_rtu_data16 (DATA16_TO_WORD d) = d"
  by (simp add: DATA16_TO_WORD_def word_to_modbus_rtu_data16_def)

text \<open>The two bytes of a field in the order they are sent.\<close>

definition be16 :: "u16 \<Rightarrow> u8 list" where
  "be16 w = [HIGH_BYTE w, LOW_BYTE w]"

lemma length_be16 [simp]: "length (be16 w) = 2"
  by (simp add: be16_def)

end
