(* ===== verification/Rtu_Memory.thy ===== *)
theory Rtu_Memory
  imports Rtu_Codes
begin

text \<open>
  The memory-backed PDU handler, \<open>rtu_memory.c\<close>, function by function.

  A handler reads the request in \<open>rxbuf\<close> (the offsets \<open>from\<close>, \<open>to\<close> and
  \<open>at\<close> are the pointers \<open>begin\<close>, \<open>end\<close> and \<open>curr\<close>), writes its reply through
  a cursor into \<open>txbuf\<close> and returns the memory and the advanced cursor. The flexible array
  \<open>bytes\<close> is a list, and an index outside it is a fault of the model: \<open>BadRead RtuMem i\<close>
  or \<open>BadWrite RtuMem i\<close> with the index as a signed number.
\<close>

section \<open>State (\<open>rtu_memory.h\<close>)\<close>

record rtu_memory =
  addr_begin :: u16
  addr_end :: u16
  mem_bytes :: "u8 list"

definition mem_load :: "rtu_memory \<Rightarrow> int \<Rightarrow> u8 res" where
  "mem_load m i =
     (if 0 \<le> i \<and> i < int (length (mem_bytes m)) then Inr (mem_bytes m ! nat i)
      else Inl (BadRead RtuMem i))"

definition mem_store :: "rtu_memory \<Rightarrow> int \<Rightarrow> u8 \<Rightarrow> rtu_memory res" where
  "mem_store m i v =
     (if 0 \<le> i \<and> i < int (length (mem_bytes m))
      then Inr (m\<lparr>mem_bytes := (mem_bytes m)[nat i := v]\<rparr>)
      else Inl (BadWrite RtuMem i))"

section \<open>Reading and writing fields\<close>

definition rd16 :: "u8 list \<Rightarrow> nat \<Rightarrow> u16 res" where
  "rd16 buf src =
     bind_res (load Rxbuf buf src) (\<lambda>high.
     bind_res (load Rxbuf buf (Suc src)) (\<lambda>low.
     Inr (push_bit 8 (ucast high) OR ucast low)))"

definition wr16 :: "cursor \<Rightarrow> u16 \<Rightarrow> cursor res" where
  "wr16 dst data =
     bind_res (put Txbuf dst (ucast (drop_bit 8 data))) (\<lambda>dst.
     put Txbuf dst (ucast (data AND 0xFF)))"

definition except :: "u8 \<Rightarrow> u8 \<Rightarrow> cursor \<Rightarrow> cursor res" where
  "except fcode ecode reply =
     bind_res (put Txbuf reply (fcode + 0x80)) (\<lambda>reply. put Txbuf reply ecode)"

text \<open>\<open>return except(...)\<close> in a handler: the memory stays as it is.\<close>

definition return_except :: "rtu_memory \<Rightarrow> u8 \<Rightarrow> u8 \<Rightarrow> cursor \<Rightarrow> (rtu_memory \<times> cursor) res" where
  "return_except m fcode ecode reply = bind_res (except fcode ecode reply) (\<lambda>reply. Inr (m, reply))"

text \<open>\<open>return memcpy(reply, begin, request_size) + request_size\<close>.\<close>

definition return_echo :: "rtu_memory \<Rightarrow> u8 list \<Rightarrow> nat \<Rightarrow> nat \<Rightarrow> cursor \<Rightarrow> (rtu_memory \<times> cursor) res" where
  "return_echo m rx from n reply =
     bind_res (memcpy Txbuf reply Rxbuf rx from n) (\<lambda>reply. Inr (m, reply))"

section \<open>The loops\<close>

text \<open>
  The loops run a \<open>uint16_t\<close> up to another with \<open>!=\<close>, so they stop for any pair of
  words: what is left is \<open>e - a\<close> as a word.
\<close>

lemma word_loop_decreases: "a \<noteq> e \<Longrightarrow> unat (e - (a + 1)) < unat (e - a :: u16)"
  by (metis diff_diff_add eq_iff_diff_eq_0 measure_unat)

function read_n16_loop :: "rtu_memory \<Rightarrow> u16 \<Rightarrow> u16 \<Rightarrow> cursor \<Rightarrow> cursor res" where
  "read_n16_loop m a e reply =
     (if a = e then Inr reply
      else bind_res (mem_load m (uint a)) (\<lambda>data.
           bind_res (wr16 reply (ucast data)) (\<lambda>reply.
           read_n16_loop m (a + 1) e reply)))"
  by pat_completeness auto
termination
  by (relation "measure (\<lambda>(m, a, e, reply). unat (e - a))") (auto simp: word_loop_decreases)

function write_n16_loop :: "rtu_memory \<Rightarrow> u8 list \<Rightarrow> u16 \<Rightarrow> u16 \<Rightarrow> nat \<Rightarrow> cursor
    \<Rightarrow> (rtu_memory \<times> cursor option) res" where
  "write_n16_loop m rx a e at reply =
     (if a = e then Inr (m, None)
      else bind_res (rd16 rx at) (\<lambda>data.
           if 0xFF00 AND data \<noteq> 0
           then bind_res (except FCODE_WR_REGISTERS ECODE_ILLEGAL_DATA_VALUE reply) (\<lambda>reply.
                Inr (m, Some reply))
           else bind_res (mem_store m (uint a) (ucast data)) (\<lambda>m.
                write_n16_loop m rx (a + 1) e (at + 2) reply)))"
  by pat_completeness auto
termination
  by (relation "measure (\<lambda>(m, rx, a, e, at, reply). unat (e - a))")
    (auto simp: word_loop_decreases)

function read_n8_loop :: "rtu_memory \<Rightarrow> u16 \<Rightarrow> u16 \<Rightarrow> cursor \<Rightarrow> cursor res" where
  "read_n8_loop m a e reply =
     (if a = e then Inr reply
      else bind_res (mem_load m (uint a)) (\<lambda>data.
           bind_res (put Txbuf reply data) (\<lambda>reply.
           read_n8_loop m (a + 1) e reply)))"
  by pat_completeness auto
termination
  by (relation "measure (\<lambda>(m, a, e, reply). unat (e - a))") (auto simp: word_loop_decreases)

function write_n8_loop :: "rtu_memory \<Rightarrow> u8 list \<Rightarrow> u16 \<Rightarrow> u16 \<Rightarrow> nat \<Rightarrow> rtu_memory res" where
  "write_n8_loop m rx a e at =
     (if a = e then Inr m
      else bind_res (load Rxbuf rx at) (\<lambda>data.
           bind_res (mem_store m (uint a) data) (\<lambda>m.
           write_n8_loop m rx (a + 1) e (Suc at))))"
  by pat_completeness auto
termination
  by (relation "measure (\<lambda>(m, rx, a, e, at). unat (e - a))") (auto simp: word_loop_decreases)

declare read_n16_loop.simps [simp del] write_n16_loop.simps [simp del]
declare read_n8_loop.simps [simp del] write_n8_loop.simps [simp del]

section \<open>The handlers\<close>

definition read_n16 :: "rtu_memory \<Rightarrow> u8 list \<Rightarrow> nat \<Rightarrow> nat \<Rightarrow> nat \<Rightarrow> cursor \<Rightarrow> (rtu_memory \<times> cursor) res" where
  "read_n16 m rx from to at reply =
     (if 5 > int to - int from then return_except m FCODE_WR_BYTES ECODE_FORMAT_ERROR reply
      else bind_res (rd16 rx at) (\<lambda>addr.
      if \<not> (addr_end m > addr \<and> addr_begin m \<le> addr)
      then return_except m FCODE_RD_HOLDING_REGISTERS ECODE_ILLEGAL_DATA_ADDRESS reply
      else bind_res (rd16 rx (at + 2)) (\<lambda>num.
      if \<not> (0 < num \<and> 0x7E > num)
      then return_except m FCODE_RD_HOLDING_REGISTERS ECODE_ILLEGAL_DATA_VALUE reply
      else if \<not> (uint (addr_end m) \<ge> uint addr + uint num)
      then return_except m FCODE_RD_HOLDING_REGISTERS ECODE_ILLEGAL_DATA_ADDRESS reply
      else bind_res (put Txbuf reply FCODE_RD_HOLDING_REGISTERS) (\<lambda>reply.
           bind_res (put Txbuf reply (ucast (push_bit 1 num))) (\<lambda>reply.
           let a = addr - addr_begin m in
           bind_res (read_n16_loop m a (a + num) reply) (\<lambda>reply. Inr (m, reply)))))))"

definition write_16 :: "rtu_memory \<Rightarrow> u8 list \<Rightarrow> nat \<Rightarrow> nat \<Rightarrow> nat \<Rightarrow> cursor \<Rightarrow> (rtu_memory \<times> cursor) res" where
  "write_16 m rx from to at reply =
     (if 5 > int to - int from then return_except m FCODE_WR_BYTES ECODE_FORMAT_ERROR reply
      else bind_res (rd16 rx at) (\<lambda>addr.
      if \<not> addr_end m > addr
      then return_except m FCODE_WR_REGISTER ECODE_ILLEGAL_DATA_ADDRESS reply
      else bind_res (rd16 rx (at + 2)) (\<lambda>data.
      if 0xFF00 AND data \<noteq> 0
      then return_except m FCODE_WR_REGISTER ECODE_ILLEGAL_DATA_VALUE reply
      else bind_res (mem_store m (uint addr - uint (addr_begin m)) (ucast data)) (\<lambda>m.
           return_echo m rx from 5 reply))))"

definition write_n16 :: "rtu_memory \<Rightarrow> u8 list \<Rightarrow> nat \<Rightarrow> nat \<Rightarrow> nat \<Rightarrow> cursor \<Rightarrow> (rtu_memory \<times> cursor) res" where
  "write_n16 m rx from to at reply =
     (if 5 > int to - int from then return_except m FCODE_WR_BYTES ECODE_FORMAT_ERROR reply
      else bind_res (rd16 rx at) (\<lambda>addr.
      if \<not> addr_end m > addr
      then return_except m FCODE_WR_REGISTERS ECODE_ILLEGAL_DATA_ADDRESS reply
      else bind_res (rd16 rx (at + 2)) (\<lambda>num.
      if \<not> (0 < num \<and> 0x7C > num)
      then return_except m FCODE_WR_REGISTERS ECODE_ILLEGAL_DATA_VALUE reply
      else bind_res (load Rxbuf rx (at + 4)) (\<lambda>byte_count.
      if uint byte_count \<noteq> 2 * uint num
      then return_except m FCODE_WR_REGISTERS ECODE_ILLEGAL_DATA_VALUE reply
      else if uint byte_count \<noteq> int to - int (at + 5)
      then return_except m FCODE_WR_REGISTERS ECODE_FORMAT_ERROR reply
      else let a = addr - addr_begin m in
           bind_res (write_n16_loop m rx a (a + num) (at + 5) reply) (\<lambda>(m, r).
           case r of Some reply \<Rightarrow> Inr (m, reply) | None \<Rightarrow> return_echo m rx from 5 reply)))))"

definition read_n8 :: "rtu_memory \<Rightarrow> u8 list \<Rightarrow> nat \<Rightarrow> nat \<Rightarrow> nat \<Rightarrow> cursor \<Rightarrow> (rtu_memory \<times> cursor) res" where
  "read_n8 m rx from to at reply =
     (if 4 > int to - int from then return_except m FCODE_WR_BYTES ECODE_FORMAT_ERROR reply
      else bind_res (rd16 rx at) (\<lambda>addr.
      if \<not> (addr_end m > addr \<and> addr_begin m \<le> addr)
      then return_except m FCODE_RD_BYTES ECODE_ILLEGAL_DATA_ADDRESS reply
      else bind_res (load Rxbuf rx (at + 2)) (\<lambda>num.
      if \<not> (0 < num \<and> 250 > num)
      then return_except m FCODE_RD_BYTES ECODE_ILLEGAL_DATA_VALUE reply
      else if \<not> (uint (addr_end m) \<ge> uint addr + uint num)
      then return_except m FCODE_RD_BYTES ECODE_ILLEGAL_DATA_ADDRESS reply
      else bind_res (memcpy Txbuf reply Rxbuf rx from 4) (\<lambda>reply.
           let a = addr - addr_begin m in
           bind_res (read_n8_loop m a (a + ucast num) reply) (\<lambda>reply. Inr (m, reply))))))"

definition write_n8 :: "rtu_memory \<Rightarrow> u8 list \<Rightarrow> nat \<Rightarrow> nat \<Rightarrow> nat \<Rightarrow> cursor \<Rightarrow> (rtu_memory \<times> cursor) res" where
  "write_n8 m rx from to at reply =
     (if 4 > int to - int from then return_except m FCODE_WR_BYTES ECODE_FORMAT_ERROR reply
      else bind_res (rd16 rx at) (\<lambda>addr.
      if \<not> addr_end m > addr
      then return_except m FCODE_WR_BYTES ECODE_ILLEGAL_DATA_ADDRESS reply
      else bind_res (load Rxbuf rx (at + 2)) (\<lambda>num.
      if \<not> (0 < num \<and> 250 > num)
      then return_except m FCODE_WR_BYTES ECODE_ILLEGAL_DATA_VALUE reply
      else if uint num \<noteq> int to - int (at + 3)
      then return_except m FCODE_WR_BYTES ECODE_ILLEGAL_DATA_VALUE reply
      else let a = addr - addr_begin m in
           bind_res (write_n8_loop m rx a (a + ucast num) (at + 3)) (\<lambda>m.
           return_echo m rx from 4 reply))))"

definition rtu_memory_pdu_cb :: "rtu_memory \<Rightarrow> u8 list \<Rightarrow> u8 \<Rightarrow> nat \<Rightarrow> nat \<Rightarrow> nat \<Rightarrow> cursor
    \<Rightarrow> (rtu_memory \<times> cursor) res" where
  "rtu_memory_pdu_cb m rx fcode from to at dst =
     (if FCODE_RD_HOLDING_REGISTERS = fcode then read_n16 m rx from to at dst
      else if FCODE_WR_REGISTER = fcode then write_16 m rx from to at dst
      else if FCODE_WR_REGISTERS = fcode then write_n16 m rx from to at dst
      else if FCODE_RD_BYTES = fcode then read_n8 m rx from to at dst
      else if FCODE_WR_BYTES = fcode then write_n8 m rx from to at dst
      else return_except m fcode ECODE_ILLEGAL_FUNCTION dst)"

end
