(* ===== verification/Memory_Spec.thy ===== *)
theory Memory_Spec
  imports Rtu_Memory
begin

text \<open>
  What the PDU handler of \<open>rtu_memory.c\<close> promises, as a server of requests on a map from
  Modbus addresses to bytes (\<open>serve\<close>), with the wire format of its requests and replies.
\<close>

section \<open>Requests and replies\<close>

datatype request =
    Rd_registers u16 u16
  | Wr_register u16 u16
  | Wr_registers u16 "u16 list"
  | Rd_bytes u16 u8
  | Wr_bytes u16 "u8 list"
  | Unsupported u8 "u8 list"

datatype reply =
    Registers "u8 list"
  | Bytes_read u16 "u8 list"
  | Register_written u16 u16
  | Registers_written u16 nat
  | Bytes_written u16 nat
  | Exception u8 u8

definition supported_fcode :: "u8 \<Rightarrow> bool" where
  "supported_fcode f =
     (f \<in> {FCODE_RD_HOLDING_REGISTERS, FCODE_WR_REGISTER, FCODE_WR_REGISTERS,
           FCODE_RD_BYTES, FCODE_WR_BYTES})"

fun request_fcode :: "request \<Rightarrow> u8" where
  "request_fcode (Rd_registers a n) = FCODE_RD_HOLDING_REGISTERS"
| "request_fcode (Wr_register a w) = FCODE_WR_REGISTER"
| "request_fcode (Wr_registers a ws) = FCODE_WR_REGISTERS"
| "request_fcode (Rd_bytes a n) = FCODE_RD_BYTES"
| "request_fcode (Wr_bytes a bs) = FCODE_WR_BYTES"
| "request_fcode (Unsupported f body) = f"

fun request_body :: "request \<Rightarrow> u8 list" where
  "request_body (Rd_registers a n) = be16 a @ be16 n"
| "request_body (Wr_register a w) = be16 a @ be16 w"
| "request_body (Wr_registers a ws) =
     be16 a @ be16 (word_of_nat (length ws)) @ [word_of_nat (2 * length ws)]
     @ concat (map be16 ws)"
| "request_body (Rd_bytes a n) = be16 a @ [n]"
| "request_body (Wr_bytes a bs) = be16 a @ [word_of_nat (length bs)] @ bs"
| "request_body (Unsupported f body) = body"

definition request_pdu :: "request \<Rightarrow> u8 list" where
  "request_pdu q = request_fcode q # request_body q"

text \<open>The requests whose count fields hold the lengths they are computed from.\<close>

fun request_wf :: "request \<Rightarrow> bool" where
  "request_wf (Wr_registers a ws) = (length ws < 128)"
| "request_wf (Wr_bytes a bs) = (length bs < 256)"
| "request_wf (Unsupported f body) = (\<not> supported_fcode f)"
| "request_wf _ = True"

fun reply_pdu :: "reply \<Rightarrow> u8 list" where
  "reply_pdu (Registers vs) =
     FCODE_RD_HOLDING_REGISTERS # word_of_nat (2 * length vs) # concat (map (\<lambda>v. [0, v]) vs)"
| "reply_pdu (Bytes_read a vs) = FCODE_RD_BYTES # be16 a @ word_of_nat (length vs) # vs"
| "reply_pdu (Register_written a w) = FCODE_WR_REGISTER # be16 a @ be16 w"
| "reply_pdu (Registers_written a n) = FCODE_WR_REGISTERS # be16 a @ be16 (word_of_nat n)"
| "reply_pdu (Bytes_written a n) = FCODE_WR_BYTES # be16 a @ [word_of_nat n]"
| "reply_pdu (Exception f e) = [f + 0x80, e]"

section \<open>The server\<close>

type_synonym byte_map = "nat \<Rightarrow> u8 option"

definition mapped :: "byte_map \<Rightarrow> u16 \<Rightarrow> nat \<Rightarrow> bool" where
  "mapped \<sigma> a n = list_all (\<lambda>i. \<sigma> i \<noteq> None) [unat a ..< unat a + n]"

definition read_run :: "byte_map \<Rightarrow> u16 \<Rightarrow> nat \<Rightarrow> u8 list" where
  "read_run \<sigma> a n = map (\<lambda>i. the (\<sigma> i)) [unat a ..< unat a + n]"

fun write_run :: "byte_map \<Rightarrow> nat \<Rightarrow> u8 list \<Rightarrow> byte_map" where
  "write_run \<sigma> a [] = \<sigma>"
| "write_run \<sigma> a (v # vs) = write_run (\<sigma>(a \<mapsto> v)) (Suc a) vs"

fun serve :: "byte_map \<Rightarrow> request \<Rightarrow> byte_map \<times> reply" where
  "serve \<sigma> (Rd_registers a n) =
     (if \<sigma> (unat a) = None then (\<sigma>, Exception FCODE_RD_HOLDING_REGISTERS ECODE_ILLEGAL_DATA_ADDRESS)
      else if n = 0 \<or> 125 < n then (\<sigma>, Exception FCODE_RD_HOLDING_REGISTERS ECODE_ILLEGAL_DATA_VALUE)
      else if \<not> mapped \<sigma> a (unat n)
      then (\<sigma>, Exception FCODE_RD_HOLDING_REGISTERS ECODE_ILLEGAL_DATA_ADDRESS)
      else (\<sigma>, Registers (read_run \<sigma> a (unat n))))"
| "serve \<sigma> (Wr_register a w) =
     (if \<sigma> (unat a) = None then (\<sigma>, Exception FCODE_WR_REGISTER ECODE_ILLEGAL_DATA_ADDRESS)
      else if HIGH_BYTE w \<noteq> 0 then (\<sigma>, Exception FCODE_WR_REGISTER ECODE_ILLEGAL_DATA_VALUE)
      else (\<sigma>(unat a \<mapsto> LOW_BYTE w), Register_written a w))"
| "serve \<sigma> (Wr_registers a ws) =
     (if \<sigma> (unat a) = None then (\<sigma>, Exception FCODE_WR_REGISTERS ECODE_ILLEGAL_DATA_ADDRESS)
      else if ws = [] \<or> 123 < length ws
      then (\<sigma>, Exception FCODE_WR_REGISTERS ECODE_ILLEGAL_DATA_VALUE)
      else if \<not> mapped \<sigma> a (length ws)
      then (\<sigma>, Exception FCODE_WR_REGISTERS ECODE_ILLEGAL_DATA_ADDRESS)
      else if list_ex (\<lambda>w. HIGH_BYTE w \<noteq> 0) ws
      then (\<sigma>, Exception FCODE_WR_REGISTERS ECODE_ILLEGAL_DATA_VALUE)
      else (write_run \<sigma> (unat a) (map LOW_BYTE ws), Registers_written a (length ws)))"
| "serve \<sigma> (Rd_bytes a n) =
     (if \<sigma> (unat a) = None then (\<sigma>, Exception FCODE_RD_BYTES ECODE_ILLEGAL_DATA_ADDRESS)
      else if n = 0 \<or> 249 < n then (\<sigma>, Exception FCODE_RD_BYTES ECODE_ILLEGAL_DATA_VALUE)
      else if \<not> mapped \<sigma> a (unat n) then (\<sigma>, Exception FCODE_RD_BYTES ECODE_ILLEGAL_DATA_ADDRESS)
      else (\<sigma>, Bytes_read a (read_run \<sigma> a (unat n))))"
| "serve \<sigma> (Wr_bytes a bs) =
     (if \<sigma> (unat a) = None then (\<sigma>, Exception FCODE_WR_BYTES ECODE_ILLEGAL_DATA_ADDRESS)
      else if bs = [] \<or> 249 < length bs
      then (\<sigma>, Exception FCODE_WR_BYTES ECODE_ILLEGAL_DATA_VALUE)
      else if \<not> mapped \<sigma> a (length bs)
      then (\<sigma>, Exception FCODE_WR_BYTES ECODE_ILLEGAL_DATA_ADDRESS)
      else (write_run \<sigma> (unat a) bs, Bytes_written a (length bs)))"
| "serve \<sigma> (Unsupported f body) = (\<sigma>, Exception f ECODE_ILLEGAL_FUNCTION)"

text \<open>And over a sequence of requests.\<close>

fun serve_all :: "byte_map \<Rightarrow> request list \<Rightarrow> byte_map \<times> reply list" where
  "serve_all \<sigma> [] = (\<sigma>, [])"
| "serve_all \<sigma> (q # qs) =
     (let (\<sigma>, rep) = serve \<sigma> q; (\<sigma>, reps) = serve_all \<sigma> qs in (\<sigma>, rep # reps))"

section \<open>The abstraction\<close>

definition mem_abs :: "rtu_memory \<Rightarrow> byte_map" where
  "mem_abs m a =
     (if unat (addr_begin m) \<le> a \<and> a < unat (addr_end m)
      then Some (mem_bytes m ! (a - unat (addr_begin m))) else None)"

text \<open>The array has one byte per address of the window, as the adapters allocate it.\<close>

definition mem_wf :: "rtu_memory \<Rightarrow> bool" where
  "mem_wf m =
     (addr_begin m \<le> addr_end m \<and>
      length (mem_bytes m) = unat (addr_end m) - unat (addr_begin m))"

text \<open>
  The requests the handler serves as promised. A write is compared with \<open>addr_end\<close> only at
  its first address and with \<open>addr_begin\<close> not at all, and a run of registers is stored
  while its values are being checked; what happens to the other writes is shown below.
\<close>

fun write_in_window :: "rtu_memory \<Rightarrow> request \<Rightarrow> bool" where
  "write_in_window m (Wr_register a w) = (addr_begin m \<le> a)"
| "write_in_window m (Wr_registers a ws) =
     (addr_begin m \<le> a \<and>
      (a < addr_end m \<and> ws \<noteq> [] \<and> length ws \<le> 123 \<longrightarrow>
       unat a + length ws \<le> unat (addr_end m) \<and> list_all (\<lambda>w. HIGH_BYTE w = 0) ws))"
| "write_in_window m (Wr_bytes a bs) =
     (addr_begin m \<le> a \<and>
      (a < addr_end m \<and> bs \<noteq> [] \<and> length bs \<le> 249 \<longrightarrow>
       unat a + length bs \<le> unat (addr_end m)))"
| "write_in_window m _ = True"

end
