(* ===== verification/Memory_Correct.thy ===== *)
theory Memory_Correct
  imports Memory_Spec
begin

text \<open>
  The handlers of \<open>rtu_memory.c\<close> implement the server of \<open>Memory_Spec\<close>: for every request
  on the wire the reply and the memory are those of \<open>serve\<close>. Then what they do with the
  requests the server would refuse and the code does not.
\<close>

section \<open>The primitives\<close>

lemma rd16_ok [access_simps]:
  "Suc i < length rx \<Longrightarrow> rd16 rx i = Inr (MAKE_WORD (rx ! Suc i) (rx ! i))"
proof -
  have "push_bit 8 (ucast h) OR ucast l = MAKE_WORD l h" for h l :: u8
    by (rule bit_word_eqI) (auto simp: bit_MAKE_WORD bit_simps dest: bit_imp_le_length)
  then show "Suc i < length rx \<Longrightarrow> ?thesis"
    by (simp add: rd16_def load_def)
qed

lemma wr16_eq: "wr16 c w = put_all Txbuf c (be16 w)"
  by (simp add: wr16_def be16_def HIGH_BYTE_def LOW_BYTE_def)

lemma wr16_byte: "wr16 c (ucast (v :: u8)) = put_all Txbuf c [0, v]"
proof -
  have "HIGH_BYTE (ucast v) = 0" "LOW_BYTE (ucast v) = v"
    by (rule bit_word_eqI; auto simp: bit_HIGH_BYTE bit_LOW_BYTE bit_simps dest: bit_imp_le_length)+
  then show ?thesis by (simp add: wr16_eq be16_def)
qed

lemma return_except_eq:
  "return_except m f e c = bind_res (put_all Txbuf c [f + 0x80, e]) (\<lambda>c. Inr (m, c))"
  by (simp add: return_except_def except_def)

lemma high_byte_test: "0xFF00 AND w \<noteq> 0 \<longleftrightarrow> HIGH_BYTE w \<noteq> 0"
proof -
  have eq: "(0xFF00 :: u16) = push_bit 8 (mask 8)" by (simp add: mask_numeral)
  have "0xFF00 AND MAKE_WORD l h = push_bit 8 (ucast h)" for l h
    unfolding eq
    by (rule bit_word_eqI)
      (auto simp: bit_MAKE_WORD bit_simps simp del: push_bit_numeral dest: bit_imp_le_length)
  then have "0xFF00 AND w = push_bit 8 (ucast (HIGH_BYTE w))"
    by (metis MAKE_WORD_bytes)
  also have "\<dots> = MAKE_WORD 0 (HIGH_BYTE w)"
    by (rule bit_word_eqI) (auto simp: bit_MAKE_WORD bit_simps dest: bit_imp_le_length)
  finally have "0xFF00 AND w = MAKE_WORD 0 (HIGH_BYTE w)" .
  moreover have "0 = MAKE_WORD 0 0" by (simp add: MAKE_WORD_def)
  ultimately show ?thesis by (metis MAKE_WORD_inject)
qed

lemma u16_add_neq: "0 < n \<Longrightarrow> n < 65536 \<Longrightarrow> a \<noteq> a + (word_of_nat n :: u16)"
  by (simp add: word_of_nat_eq_0_iff) (meson nat_dvd_not_less)

lemma unat_u16_Suc: "Suc (unat (a :: u16)) < 65536 \<Longrightarrow> unat (a + 1) = Suc (unat a)"
  by (simp add: unat_word_ariths)

lemma u16_add_Suc: "a + word_of_nat (Suc n) = (a + 1) + (word_of_nat n :: u16)"
  by simp

section \<open>The loops\<close>

lemma mem_load_ok: "i < length (mem_bytes m) \<Longrightarrow> mem_load m (int i) = Inr (mem_bytes m ! i)"
  by (simp add: mem_load_def)

lemma mem_store_ok:
  "i < length (mem_bytes m) \<Longrightarrow>
   mem_store m (int i) v = Inr (m\<lparr>mem_bytes := (mem_bytes m)[i := v]\<rparr>)"
  by (simp add: mem_store_def)

lemma read_n16_loop_eq:
  "unat a + n < 65536 \<Longrightarrow> unat a + n \<le> length (mem_bytes m) \<Longrightarrow>
   read_n16_loop m a (a + word_of_nat n) c =
   put_all Txbuf c (concat (map (\<lambda>v. [0, v]) (take n (drop (unat a) (mem_bytes m)))))"
proof (induction n arbitrary: a c)
  case 0
  then show ?case by (simp add: read_n16_loop.simps [of m a])
next
  case (Suc n)
  then have next_a: "unat (a + 1) = Suc (unat a)" by (simp add: unat_u16_Suc)
  have "take (Suc n) (drop (unat a) (mem_bytes m))
      = mem_bytes m ! unat a # take n (drop (Suc (unat a)) (mem_bytes m))"
    using Suc.prems by (simp flip: Cons_nth_drop_Suc)
  moreover have "a \<noteq> a + word_of_nat (Suc n)"
    using Suc.prems by (intro u16_add_neq) simp_all
  moreover have "mem_load m (uint a) = Inr (mem_bytes m ! unat a)"
    using Suc.prems mem_load_ok [of "unat a" m] by simp
  moreover have "read_n16_loop m (a + 1) (a + word_of_nat (Suc n)) = (\<lambda>c. put_all Txbuf c
      (concat (map (\<lambda>v. [0, v]) (take n (drop (Suc (unat a)) (mem_bytes m))))))"
    using Suc.IH [of "a + 1"] Suc.prems by (intro ext) (simp add: u16_add_Suc next_a del: of_nat_Suc)
  ultimately show ?case
    by (simp add: read_n16_loop.simps [of m a] wr16_byte bind_res_assoc del: of_nat_Suc)
qed

lemma read_n8_loop_eq:
  "unat a + n < 65536 \<Longrightarrow> unat a + n \<le> length (mem_bytes m) \<Longrightarrow>
   read_n8_loop m a (a + word_of_nat n) c = put_all Txbuf c (take n (drop (unat a) (mem_bytes m)))"
proof (induction n arbitrary: a c)
  case 0
  then show ?case by (simp add: read_n8_loop.simps [of m a])
next
  case (Suc n)
  then have next_a: "unat (a + 1) = Suc (unat a)" by (simp add: unat_u16_Suc)
  have "take (Suc n) (drop (unat a) (mem_bytes m))
      = mem_bytes m ! unat a # take n (drop (Suc (unat a)) (mem_bytes m))"
    using Suc.prems by (simp flip: Cons_nth_drop_Suc)
  moreover have "a \<noteq> a + word_of_nat (Suc n)"
    using Suc.prems by (intro u16_add_neq) simp_all
  moreover have "mem_load m (uint a) = Inr (mem_bytes m ! unat a)"
    using Suc.prems mem_load_ok [of "unat a" m] by simp
  moreover have "read_n8_loop m (a + 1) (a + word_of_nat (Suc n)) =
      (\<lambda>c. put_all Txbuf c (take n (drop (Suc (unat a)) (mem_bytes m))))"
    using Suc.IH [of "a + 1"] Suc.prems by (intro ext) (simp add: u16_add_Suc next_a del: of_nat_Suc)
  ultimately show ?case
    by (simp add: read_n8_loop.simps [of m a] del: of_nat_Suc)
qed

text \<open>A run of stores, as one overwrite of the array.\<close>

definition write_bytes :: "rtu_memory \<Rightarrow> nat \<Rightarrow> u8 list \<Rightarrow> rtu_memory" where
  "write_bytes m i vs = m\<lparr>mem_bytes := overwrite (mem_bytes m) i vs\<rparr>"

lemma write_bytes_Cons:
  "i < length (mem_bytes m) \<Longrightarrow>
   write_bytes (m\<lparr>mem_bytes := (mem_bytes m)[i := v]\<rparr>) (Suc i) vs = write_bytes m i (v # vs)"
  by (simp add: write_bytes_def overwrite_Cons)

lemma write_n8_loop_eq:
  "unat a + length bs < 65536 \<Longrightarrow> unat a + length bs \<le> length (mem_bytes m) \<Longrightarrow>
   write_n8_loop m (pre @ bs @ post) a (a + word_of_nat (length bs)) (length pre)
   = Inr (write_bytes m (unat a) bs)"
proof (induction bs arbitrary: m pre a)
  case Nil
  then show ?case by (simp add: write_n8_loop.simps write_bytes_def)
next
  case (Cons b bs)
  then have next_a: "unat (a + 1) = Suc (unat a)" by (simp add: unat_u16_Suc)
  let ?m = "m\<lparr>mem_bytes := (mem_bytes m)[unat a := b]\<rparr>"
  have "a \<noteq> a + word_of_nat (length (b # bs))"
    using Cons.prems by (intro u16_add_neq) simp_all
  moreover have "mem_store m (uint a) b = Inr ?m"
    using Cons.prems mem_store_ok [of "unat a" m b] by simp
  moreover have "write_n8_loop ?m (pre @ (b # bs) @ post) (a + 1) (a + word_of_nat (length (b # bs)))
      (Suc (length pre)) = Inr (write_bytes m (unat a) (b # bs))"
    using Cons.IH [of "a + 1" ?m "pre @ [b]"] Cons.prems
    by (simp add: next_a write_bytes_Cons add.assoc)
  ultimately show ?case
    by (simp add: write_n8_loop.simps [of m _ a] load_ok del: of_nat_Suc)
qed

lemma write_n16_loop_eq:
  "unat a + length ws < 65536 \<Longrightarrow> unat a + length ws \<le> length (mem_bytes m) \<Longrightarrow>
   list_all (\<lambda>w. HIGH_BYTE w = 0) ws \<Longrightarrow>
   write_n16_loop m (pre @ concat (map be16 ws) @ post) a (a + word_of_nat (length ws)) (length pre) c
   = Inr (write_bytes m (unat a) (map LOW_BYTE ws), None)"
proof (induction ws arbitrary: m pre a)
  case Nil
  then show ?case by (simp add: write_n16_loop.simps write_bytes_def)
next
  case (Cons w ws)
  then have next_a: "unat (a + 1) = Suc (unat a)" by (simp add: unat_u16_Suc)
  let ?m = "m\<lparr>mem_bytes := (mem_bytes m)[unat a := LOW_BYTE w]\<rparr>"
  have "a \<noteq> a + word_of_nat (length (w # ws))"
    using Cons.prems by (intro u16_add_neq) simp_all
  moreover have "rd16 (pre @ concat (map be16 (w # ws)) @ post) (length pre) = Inr w"
    by (simp add: rd16_ok be16_def nth_append)
  moreover have "mem_store m (uint a) (LOW_BYTE w) = Inr ?m"
    using Cons.prems mem_store_ok [of "unat a" m "LOW_BYTE w"] by simp
  moreover have "ucast w = LOW_BYTE w"
    by (rule bit_word_eqI) (simp add: bit_LOW_BYTE bit_simps)
  moreover have "write_n16_loop ?m (pre @ concat (map be16 (w # ws)) @ post) (a + 1)
      (a + word_of_nat (length (w # ws))) (length pre + 2) c
      = Inr (write_bytes m (unat a) (map LOW_BYTE (w # ws)), None)"
    using Cons.IH [of "a + 1" ?m "pre @ be16 w"] Cons.prems
    by (simp add: next_a write_bytes_Cons add.assoc)
  ultimately show ?case
    using Cons.prems by (simp add: write_n16_loop.simps [of m _ a] high_byte_test del: of_nat_Suc)
qed

section \<open>Replies\<close>

text \<open>A handler ends by writing one reply.\<close>

definition answer :: "rtu_memory \<Rightarrow> cursor \<Rightarrow> reply \<Rightarrow> (rtu_memory \<times> cursor) res" where
  "answer m c rep = bind_res (put_all Txbuf c (reply_pdu rep)) (\<lambda>c. Inr (m, c))"

lemma return_except_answer [simp]: "return_except m f e c = answer m c (Exception f e)"
  by (simp add: return_except_eq answer_def)

lemma return_echo_eq:
  "from + n \<le> length rx \<Longrightarrow>
   return_echo m rx from n c = bind_res (put_all Txbuf c (take n (drop from rx))) (\<lambda>c. Inr (m, c))"
  by (simp add: return_echo_def memcpy_def load_all_ok)

lemma answer_ok:
  "r + length (reply_pdu rep) \<le> length tx \<Longrightarrow>
   answer m (tx, r) rep = Inr (m, overwrite tx r (reply_pdu rep), r + length (reply_pdu rep))"
  by (simp add: answer_def put_all_ok)

section \<open>The window and its abstraction\<close>

lemma mem_abs_None [simp]: "mem_abs m (unat a) = None \<longleftrightarrow> \<not> (addr_end m > a \<and> addr_begin m \<le> a)"
  by (auto simp: mem_abs_def word_le_nat_alt word_less_nat_alt)

lemma mapped_mem_abs:
  "addr_begin m \<le> a \<Longrightarrow> a < addr_end m \<Longrightarrow>
   mapped (mem_abs m) a n \<longleftrightarrow> unat a + n \<le> unat (addr_end m)"
  unfolding mapped_def list_all_iff
  by (cases n) (auto simp: mem_abs_def word_le_nat_alt word_less_nat_alt)

lemma read_run_mem_abs:
  assumes "mem_wf m" and "addr_begin m \<le> a" and "unat a + n \<le> unat (addr_end m)"
  shows "read_run (mem_abs m) a n = take n (drop (unat a - unat (addr_begin m)) (mem_bytes m))"
  using assms
  by (intro nth_equalityI) (auto simp: read_run_def mem_abs_def mem_wf_def word_le_nat_alt)

lemma mem_abs_write_bytes:
  assumes "mem_wf m" and "addr_begin m \<le> a" and "unat a + length vs \<le> unat (addr_end m)"
  shows "mem_abs (write_bytes m (unat a - unat (addr_begin m)) vs) = write_run (mem_abs m) (unat a) vs"
proof -
  have run: "write_run \<sigma> i vs = (\<lambda>k. if i \<le> k \<and> k < i + length vs then Some (vs ! (k - i)) else \<sigma> k)"
    for \<sigma> i
    by (induction vs arbitrary: \<sigma> i) (auto simp: fun_eq_iff nth_Cons')
  show ?thesis
    using assms
    by (auto simp: run mem_abs_def mem_wf_def write_bytes_def fun_eq_iff word_le_nat_alt nth_overwrite
        algebra_simps)
qed

lemma write_bytes_header [simp]:
  "addr_begin (write_bytes m i vs) = addr_begin m" "addr_end (write_bytes m i vs) = addr_end m"
  by (simp_all add: write_bytes_def)

lemma mem_wf_write_bytes:
  "mem_wf m \<Longrightarrow> i + length vs \<le> length (mem_bytes m) \<Longrightarrow> mem_wf (write_bytes m i vs)"
  by (simp add: mem_wf_def write_bytes_def)

lemma mem_wf_run:
  assumes "mem_wf m" and "addr_begin m \<le> a" and "unat a + n \<le> unat (addr_end m)"
  shows "unat (a - addr_begin m) = unat a - unat (addr_begin m)"
    and "unat (a - addr_begin m) + n < 65536"
    and "unat (a - addr_begin m) + n \<le> length (mem_bytes m)"
proof -
  show eq: "unat (a - addr_begin m) = unat a - unat (addr_begin m)"
    using assms(2) by (simp add: unat_sub_if' word_le_nat_alt)
  show "unat (a - addr_begin m) + n \<le> length (mem_bytes m)"
    using assms by (simp add: eq mem_wf_def word_le_nat_alt)
  show "unat (a - addr_begin m) + n < 65536"
    using assms order.strict_trans1 [OF _ u16_less [of "addr_end m"]]
    by (simp add: eq word_le_nat_alt less_imp_diff_less)
qed

section \<open>The handlers on a request\<close>

text \<open>Where the request stands in the buffer, for a request of \<open>n\<close> bytes after \<open>pre\<close>.\<close>

lemma nth_mid: "(pre @ x # xs) ! length pre = x" "k = length pre + j \<Longrightarrow> (pre @ ys) ! k = ys ! j"
  by simp_all

lemma rd16_mid:
  "at = length pre + j \<Longrightarrow> Suc j < length ys \<Longrightarrow>
   rd16 (pre @ ys) at = Inr (MAKE_WORD (ys ! Suc j) (ys ! j))"
  by (simp add: rd16_ok nth_append)

lemma load_mid:
  "at = length pre + j \<Longrightarrow> j < length ys \<Longrightarrow> load r (pre @ ys) at = Inr (ys ! j)"
  by (simp add: load_ok)

lemma u16_num_check: "0 < (n :: u16) \<and> 0x7E > n \<longleftrightarrow> \<not> (n = 0 \<or> 125 < n)"
  "0 < (n :: u16) \<and> 0x7C > n \<longleftrightarrow> \<not> (n = 0 \<or> 123 < n)"
  by (auto simp: word_less_nat_alt unat_gt_0)

lemma u8_num_check: "0 < (n :: u8) \<and> 250 > n \<longleftrightarrow> \<not> (n = 0 \<or> 249 < n)"
  by (auto simp: word_less_nat_alt unat_gt_0)

lemma shift_1: "ucast (push_bit 1 (n :: u16)) = (word_of_nat (2 * unat n) :: u8)"
proof -
  have "(ucast (push_bit 1 n) :: u8) = push_bit 1 (ucast n)"
    by (rule bit_word_eqI) (auto simp: bit_simps simp del: push_bit_numeral push_bit_Suc push_bit_eq_mult)
  then show ?thesis by (simp add: push_bit_eq_mult unsigned_of_nat [symmetric] flip: word_unat_eq_iff)
qed

lemma uint_run_le: "uint (e :: u16) \<ge> uint (a :: u16) + uint (n :: 'n::len word) \<longleftrightarrow> unat a + unat n \<le> unat e"
  by (simp only: of_nat_unat [symmetric, where 'a = int] of_nat_add [symmetric] of_nat_le_iff)

lemma length_read_run [simp]: "length (read_run \<sigma> a n) = n"
  by (simp add: read_run_def)

lemma read_n16_serve:
  assumes wf: "mem_wf m" and size: "from + 5 \<le> to"
    and a: "rd16 rx at = Inr a" and num: "rd16 rx (at + 2) = Inr n"
  shows "read_n16 m rx from to at c = answer m c (snd (serve (mem_abs m) (Rd_registers a n)))"
proof -
  note n = num [simplified]
  show ?thesis
proof (cases "addr_end m > a \<and> addr_begin m \<le> a \<and> n \<noteq> 0 \<and> \<not> 125 < n \<and> unat a + unat n \<le> unat (addr_end m)")
  case True
  then have run: "read_n16_loop m (a - addr_begin m) (a - addr_begin m + n) c =
      put_all Txbuf c (concat (map (\<lambda>v. [0, v]) (read_run (mem_abs m) a (unat n))))" for c
    using read_n16_loop_eq [of "a - addr_begin m" "unat n" m c] mem_wf_run [OF wf, of a "unat n"]
      read_run_mem_abs [OF wf, of a "unat n"] by simp
  have "read_n16 m rx from to at c =
      bind_res (put_all Txbuf c (3 # ucast (push_bit 1 n) #
        concat (map (\<lambda>v. [0, v]) (read_run (mem_abs m) a (unat n))))) (\<lambda>c. Inr (m, c))"
    using True size by (simp add: read_n16_def a n u16_num_check uint_run_le Let_def run bind_res_assoc)
  also have "\<dots> = answer m c (snd (serve (mem_abs m) (Rd_registers a n)))"
    using True by (simp add: answer_def shift_1 [simplified] mapped_mem_abs bind_res_assoc)
  finally show ?thesis .
next
  case False
  then show ?thesis
    using size by (auto simp: read_n16_def a n u16_num_check uint_run_le mapped_mem_abs)
qed
qed


lemma read_n8_serve:
  assumes wf: "mem_wf m" and size: "from + 4 \<le> to" "from + 4 \<le> length rx"
    and a: "rd16 rx at = Inr a" and num: "load Rxbuf rx (at + 2) = Inr n"
    and echo: "take 4 (drop from rx) = FCODE_RD_BYTES # be16 a @ [n]"
  shows "read_n8 m rx from to at c = answer m c (snd (serve (mem_abs m) (Rd_bytes a n)))"
proof -
  note n = num [simplified]
  show ?thesis
  proof (cases "addr_end m > a \<and> addr_begin m \<le> a \<and> n \<noteq> 0 \<and> \<not> 249 < n \<and> unat a + unat n \<le> unat (addr_end m)")
    case True
    then have run: "read_n8_loop m (a - addr_begin m) (a - addr_begin m + ucast n) c =
        put_all Txbuf c (read_run (mem_abs m) a (unat n))" for c
      using read_n8_loop_eq [of "a - addr_begin m" "unat n" m c] mem_wf_run [OF wf, of a "unat n"]
        read_run_mem_abs [OF wf, of a "unat n"] by simp
    have "read_n8 m rx from to at c = bind_res (put_all Txbuf c
        ((FCODE_RD_BYTES # be16 a @ [n]) @ read_run (mem_abs m) a (unat n))) (\<lambda>c. Inr (m, c))"
      using True size
      by (simp add: read_n8_def a n u8_num_check uint_run_le Let_def run bind_res_assoc
          memcpy_def load_all_ok echo put_all_append
          del: put_all.simps(2) append_Cons append.simps append_assoc)
    also have "\<dots> = answer m c (snd (serve (mem_abs m) (Rd_bytes a n)))"
      using True by (simp add: answer_def mapped_mem_abs bind_res_assoc)
    finally show ?thesis .
  next
    case False
    then show ?thesis
      using size by (auto simp: read_n8_def a n u8_num_check uint_run_le mapped_mem_abs)
  qed
qed

text \<open>The writers, on the requests of \<open>write_in_window\<close>.\<close>

definition serves :: "rtu_memory \<Rightarrow> request \<Rightarrow> cursor \<Rightarrow> (rtu_memory \<times> cursor) res \<Rightarrow> bool" where
  "serves m q c out =
     (\<exists>m'. out = answer m' c (snd (serve (mem_abs m) q)) \<and> mem_abs m' = fst (serve (mem_abs m) q) \<and>
           mem_wf m' \<and> addr_begin m' = addr_begin m \<and> addr_end m' = addr_end m)"

lemma serves_refused:
  "mem_wf m \<Longrightarrow> serve (mem_abs m) q = (mem_abs m, Exception f e) \<Longrightarrow>
   serves m q c (answer m c (Exception f e))"
  by (auto simp: serves_def)

lemma write_bytes_serves:
  assumes "mem_wf m" and "addr_begin m \<le> a" and "unat a + length vs \<le> unat (addr_end m)"
    and "serve (mem_abs m) q = (write_run (mem_abs m) (unat a) vs, rep)"
  shows "serves m q c (answer (write_bytes m (unat a - unat (addr_begin m)) vs) c rep)"
  using assms mem_wf_run [OF assms(1-3)]
  by (auto simp: serves_def mem_abs_write_bytes mem_wf_write_bytes)

lemma uint_diff_le: "(b :: u16) \<le> a \<Longrightarrow> uint a - uint b = int (unat a - unat b)"
  by (simp add: word_le_nat_alt of_nat_diff)

lemma write_16_serves:
  assumes wf: "mem_wf m" and size: "from + 5 \<le> to" "from + 5 \<le> length rx"
    and a: "rd16 rx at = Inr a" and data: "rd16 rx (at + 2) = Inr w"
    and echo: "take 5 (drop from rx) = FCODE_WR_REGISTER # be16 a @ be16 w"
    and window: "addr_begin m \<le> a"
  shows "serves m (Wr_register a w) c (write_16 m rx from to at c)"
proof -
  note w = data [simplified]
  consider "\<not> addr_end m > a" | "addr_end m > a" "HIGH_BYTE w \<noteq> 0" | "addr_end m > a" "HIGH_BYTE w = 0"
    by blast
  then show ?thesis
  proof cases
    case 3
    then have fits: "unat a + length [LOW_BYTE w] \<le> unat (addr_end m)"
      by (simp add: word_less_nat_alt)
    have "ucast w = LOW_BYTE w"
      by (rule bit_word_eqI) (simp add: bit_LOW_BYTE bit_simps)
    moreover have "mem_store m (uint a - uint (addr_begin m)) (LOW_BYTE w) =
        Inr (write_bytes m (unat a - unat (addr_begin m)) [LOW_BYTE w])"
      using mem_wf_run [OF wf window fits] window overwrite_Cons [of _ "mem_bytes m" _ "[]"]
      by (simp add: uint_diff_le mem_store_ok write_bytes_def)
    ultimately have "write_16 m rx from to at c =
        answer (write_bytes m (unat a - unat (addr_begin m)) [LOW_BYTE w]) c (Register_written a w)"
      using 3 size by (simp add: write_16_def a w high_byte_test return_echo_eq echo answer_def)
    then show ?thesis
      using 3 window by (simp only:) (rule write_bytes_serves [OF wf window fits], simp)
  qed (use size window in \<open>auto simp: write_16_def a w high_byte_test intro!: serves_refused wf\<close>)
qed


lemma u16_of_len: "n < 65536 \<Longrightarrow> unat (word_of_nat n :: u16) = n"
  by (simp add: unsigned_of_nat take_bit_nat_eq_self_iff)

lemma u8_of_len: "n < 256 \<Longrightarrow> unat (word_of_nat n :: u8) = n"
  by (simp add: unsigned_of_nat take_bit_nat_eq_self_iff)

lemma uint_of_len:
  "n < 65536 \<Longrightarrow> uint (word_of_nat n :: u16) = int n" "n < 256 \<Longrightarrow> uint (word_of_nat n :: u8) = int n"
  by (metis of_nat_unat u16_of_len) (metis of_nat_unat u8_of_len)

lemma len_in_range:
  "0 < n \<Longrightarrow> n \<le> 123 \<Longrightarrow> 0 < (word_of_nat n :: u16) \<and> (word_of_nat n :: u16) < 0x7C"
  "0 < n \<Longrightarrow> n \<le> 249 \<Longrightarrow> 0 < (word_of_nat n :: u8) \<and> (word_of_nat n :: u8) < 250"
  by (simp_all add: word_less_nat_alt u16_of_len u8_of_len)

lemma ucast_of_len: "n < 256 \<Longrightarrow> ucast (word_of_nat n :: u8) = (word_of_nat n :: u16)"
  by (rule word_unat_eq_iff [THEN iffD2]) (simp add: u8_of_len u16_of_len)

text \<open>Once the guards of a writer have passed, its loop runs and the request is echoed.\<close>

lemma write_n8_in_range:
  assumes "0 < k" and "k \<le> 249" and "to = at + 3 + k" and "from + 4 \<le> to" and "a < addr_end m"
    and "rd16 rx at = Inr a" and "load Rxbuf rx (at + 2) = Inr (word_of_nat k)"
  shows "write_n8 m rx from to at c =
    bind_res (write_n8_loop m rx (a - addr_begin m) (a - addr_begin m + word_of_nat k) (at + 3))
      (\<lambda>m. return_echo m rx from 4 c)"
  using assms len_in_range(2) [OF assms(1,2)]
  by (simp add: write_n8_def Let_def uint_of_len ucast_of_len)

lemma write_n16_in_range:
  assumes k: "0 < k" "k \<le> 123" and "to = at + 5 + 2 * k" and "from + 5 \<le> to" and "a < addr_end m"
    and "rd16 rx at = Inr a" and "rd16 rx (at + 2) = Inr (word_of_nat k)"
    and "load Rxbuf rx (at + 4) = Inr (word_of_nat (2 * k))"
  shows "write_n16 m rx from to at c =
    bind_res (write_n16_loop m rx (a - addr_begin m) (a - addr_begin m + word_of_nat k) (at + 5) c)
      (\<lambda>(m, r). case r of Some reply \<Rightarrow> Inr (m, reply) | None \<Rightarrow> return_echo m rx from 5 c)"
proof -
  have "uint (word_of_nat (2 * k) :: u8) = 2 * int k" "uint (word_of_nat k :: u16) = int k"
    using k by (simp_all add: uint_of_len del: of_nat_mult)
  then show ?thesis
    using assms len_in_range(1) [OF assms(1,2)]
    by (simp add: write_n16_def Let_def del: of_nat_mult)
qed

lemma write_n8_serves:
  assumes wf: "mem_wf m" and len: "length bs < 256"
    and rx: "rx = pre @ bs @ post" and at: "length pre = at + 3" and to: "to = at + 3 + length bs"
    and size: "from + 4 \<le> to" "from + 4 \<le> length rx"
    and a: "rd16 rx at = Inr a" and num: "load Rxbuf rx (at + 2) = Inr (word_of_nat (length bs))"
    and echo: "take 4 (drop from rx) = FCODE_WR_BYTES # be16 a @ [word_of_nat (length bs)]"
    and window: "write_in_window m (Wr_bytes a bs)"
  shows "serves m (Wr_bytes a bs) c (write_n8 m rx from to at c)"
proof -
  note n = num [simplified]
  have low: "addr_begin m \<le> a" using window by simp
  consider "\<not> addr_end m > a" | "addr_end m > a" "length bs = 0 \<or> 249 < length bs"
    | "addr_end m > a" "bs \<noteq> []" "length bs \<le> 249"
    by fastforce
  then show ?thesis
  proof cases
    case 3
    with window have fits: "unat a + length bs \<le> unat (addr_end m)" by simp
    note off = mem_wf_run [OF wf low fits]
    have "write_n8_loop m rx (a - addr_begin m) (a - addr_begin m + word_of_nat (length bs)) (at + 3)
        = Inr (write_bytes m (unat a - unat (addr_begin m)) bs)"
      using write_n8_loop_eq [of "a - addr_begin m" bs m pre post] off by (simp add: rx at)
    then have "write_n8 m rx from to at c =
        answer (write_bytes m (unat a - unat (addr_begin m)) bs) c (Bytes_written a (length bs))"
      using 3 size by (simp add: write_n8_in_range [OF _ _ to _ _ a num] return_echo_eq echo answer_def)
    then show ?thesis
      using 3 low by (simp only:) (rule write_bytes_serves [OF wf low fits], simp add: mapped_mem_abs fits)
  next
    case 2
    then show ?thesis
      using size len low
      by (auto simp: write_n8_def a n to uint_of_len word_less_nat_alt u8_of_len
          simp del: unsigned_of_nat intro!: serves_refused wf)
  next
    case 1
    then show ?thesis
      using size low by (auto simp: write_n8_def a intro!: serves_refused wf)
  qed
qed

lemma write_n16_serves:
  assumes wf: "mem_wf m" and len: "length ws < 128"
    and rx: "rx = pre @ concat (map be16 ws) @ post"
    and at: "length pre = at + 5" and to: "to = at + 5 + 2 * length ws"
    and size: "from + 5 \<le> to" "from + 5 \<le> length rx"
    and a: "rd16 rx at = Inr a" and num: "rd16 rx (at + 2) = Inr (word_of_nat (length ws))"
    and bc: "load Rxbuf rx (at + 4) = Inr (word_of_nat (2 * length ws))"
    and echo: "take 5 (drop from rx) = FCODE_WR_REGISTERS # be16 a @ be16 (word_of_nat (length ws))"
    and window: "write_in_window m (Wr_registers a ws)"
  shows "serves m (Wr_registers a ws) c (write_n16 m rx from to at c)"
proof -
  note n = num [simplified]
  have low: "addr_begin m \<le> a" using window by simp
  have sizes: "uint (word_of_nat (2 * length ws) :: u8) = 2 * int (length ws)"
      "uint (word_of_nat (length ws) :: u16) = int (length ws)"
    using len by (simp_all add: uint_of_len del: of_nat_mult)
  consider "\<not> addr_end m > a" | "addr_end m > a" "length ws = 0 \<or> 123 < length ws"
    | "addr_end m > a" "ws \<noteq> []" "length ws \<le> 123"
    by fastforce
  then show ?thesis
  proof cases
    case 3
    with window have fits: "unat a + length ws \<le> unat (addr_end m)"
      and bytes: "list_all (\<lambda>w. HIGH_BYTE w = 0) ws" by simp_all
    note off = mem_wf_run [OF wf low fits]
    have "write_n16_loop m rx (a - addr_begin m) (a - addr_begin m + word_of_nat (length ws)) (at + 5) c
        = Inr (write_bytes m (unat a - unat (addr_begin m)) (map LOW_BYTE ws), None)" for c
      using write_n16_loop_eq [of "a - addr_begin m" ws m pre post] off bytes
      by (simp add: rx at)
    then have "write_n16 m rx from to at c =
        answer (write_bytes m (unat a - unat (addr_begin m)) (map LOW_BYTE ws)) c
          (Registers_written a (length ws))"
      using 3 size
      by (simp add: write_n16_in_range [OF _ _ to _ _ a num bc] return_echo_eq echo answer_def)
    moreover have "serve (mem_abs m) (Wr_registers a ws) =
        (write_run (mem_abs m) (unat a) (map LOW_BYTE ws), Registers_written a (length ws))"
      using 3 low fits bytes by (auto simp: mapped_mem_abs list_ex_iff list_all_iff)
    ultimately show ?thesis
      using fits by (simp only:) (rule write_bytes_serves [OF wf low], simp_all)
  next
    case 2
    then show ?thesis
      using size len low
      by (auto simp: write_n16_def a n bc word_less_nat_alt u16_of_len
          simp del: unsigned_of_nat intro!: serves_refused wf)
  next
    case 1
    then show ?thesis
      using size low by (auto simp: write_n16_def a intro!: serves_refused wf)
  qed
qed

text \<open>The handler on every request of the wire format.\<close>

lemma be16_mid: "MAKE_WORD (be16 w ! 1) (be16 w ! 0) = w"
  by (simp add: be16_def)

lemma length_be16s [simp]: "length (concat (map be16 ws)) = 2 * length ws"
  by (induction ws) simp_all

lemma rtu_memory_pdu_cb_serves:
  assumes wf: "mem_wf m" and q: "request_wf q" and window: "write_in_window m q"
  shows "serves m q c (rtu_memory_pdu_cb m (pre @ request_pdu q @ post) (request_fcode q) (length pre)
      (length pre + length (request_pdu q)) (Suc (length pre)) c)"
proof (cases q)
  case (Rd_registers a n)
  have "read_n16 m (pre @ request_pdu q @ post) (length pre)
      (length pre + length (request_pdu q)) (Suc (length pre)) c
      = answer m c (snd (serve (mem_abs m) q))"
    unfolding Rd_registers
    by (rule read_n16_serve [OF wf])
      (simp_all add: request_pdu_def rd16_mid [where j = 1] rd16_mid [where j = 3] be16_def)
  then show ?thesis
    using wf by (auto simp: rtu_memory_pdu_cb_def Rd_registers serves_def)
next
  case (Rd_bytes a n)
  have "read_n8 m (pre @ request_pdu q @ post) (length pre)
      (length pre + length (request_pdu q)) (Suc (length pre)) c
      = answer m c (snd (serve (mem_abs m) q))"
    unfolding Rd_bytes
    by (rule read_n8_serve [OF wf])
      (simp_all add: request_pdu_def rd16_mid [where j = 1] load_mid [where j = 3] be16_def)
  then show ?thesis
    using wf by (auto simp: rtu_memory_pdu_cb_def Rd_bytes serves_def)
next
  case (Wr_register a w)
  show ?thesis
    unfolding Wr_register using window Wr_register
    by (simp add: rtu_memory_pdu_cb_def)
      (rule write_16_serves [OF wf];
       simp add: request_pdu_def rd16_mid [where j = 1] rd16_mid [where j = 3] be16_def)
next
  case (Wr_bytes a bs)
  let ?rx = "pre @ request_pdu q @ post"
  have rx: "?rx = (pre @ FCODE_WR_BYTES # be16 a @ [word_of_nat (length bs)]) @ bs @ post"
    by (simp add: request_pdu_def Wr_bytes)
  show ?thesis
    unfolding Wr_bytes using window q Wr_bytes
    by (simp add: rtu_memory_pdu_cb_def)
      (rule write_n8_serves [OF wf _ rx [unfolded Wr_bytes]];
       simp add: request_pdu_def rd16_mid [where j = 1] load_mid [where j = 3] be16_def)
next
  case (Wr_registers a ws)
  let ?rx = "pre @ request_pdu q @ post"
  have rx: "?rx = (pre @ FCODE_WR_REGISTERS # be16 a @ be16 (word_of_nat (length ws))
      @ [word_of_nat (2 * length ws)]) @ concat (map be16 ws) @ post"
    by (simp add: request_pdu_def Wr_registers)
  show ?thesis
    unfolding Wr_registers using window q Wr_registers
    by (simp add: rtu_memory_pdu_cb_def)
      (rule write_n16_serves [OF wf _ rx [unfolded Wr_registers]];
       simp add: request_pdu_def rd16_mid [where j = 1] rd16_mid [where j = 3]
         load_mid [where j = 5] be16_def)
next
  case (Unsupported f body)
  then show ?thesis
    using q wf
    by (auto simp: rtu_memory_pdu_cb_def supported_fcode_def intro!: serves_refused)
qed

section \<open>Sizes\<close>

lemma length_request_pdu:
  "length (request_pdu (Wr_registers a ws)) = 6 + 2 * length ws"
  "length (request_pdu (Wr_bytes a bs)) = 4 + length bs"
  by (simp_all add: request_pdu_def)

lemma length_padded [simp]: "length (concat (map (\<lambda>v. [0, v]) vs)) = 2 * length vs"
  by (induction vs) simp_all

lemma reply_size: "length (reply_pdu (snd (serve \<sigma> q))) \<le> 253"
  by (cases q) (auto simp: word_less_nat_alt)

end
