(* ===== verification/Memory_Frame.thy ===== *)
theory Memory_Frame
  imports Memory_Correct
begin

text \<open>
  What the handlers of \<open>rtu_memory.c\<close> leave alone, for any bytes a request may hold: a
  handler that returns has kept the header and the length of the memory and the length of the
  reply buffer, and has advanced its cursor by 2 to 253 bytes.
\<close>

definition advances :: "nat \<Rightarrow> cursor \<Rightarrow> cursor \<Rightarrow> bool" where
  "advances n c c' = (length (fst c') = length (fst c) \<and> snd c' = snd c + n)"

definition same_shape :: "rtu_memory \<Rightarrow> rtu_memory \<Rightarrow> bool" where
  "same_shape m m' =
     (addr_begin m' = addr_begin m \<and> addr_end m' = addr_end m \<and>
      length (mem_bytes m') = length (mem_bytes m))"

lemma same_shape_refl [simp]: "same_shape m m"
  by (simp add: same_shape_def)

lemma same_shape_trans: "same_shape m m' \<Longrightarrow> same_shape m' m'' \<Longrightarrow> same_shape m m''"
  by (simp add: same_shape_def)

lemma mem_wf_same_shape: "same_shape m m' \<Longrightarrow> mem_wf m \<Longrightarrow> mem_wf m'"
  by (simp add: same_shape_def mem_wf_def)

lemma advances_trans: "advances i c c' \<Longrightarrow> advances j c' c'' \<Longrightarrow> advances (i + j) c c''"
  by (simp add: advances_def)

lemma put_advances: "put r c v = Inr c' \<Longrightarrow> advances 1 c c'"
  by (cases c) (auto simp: put_Inr_iff advances_def)

lemma put_all_advances: "put_all r c vs = Inr c' \<Longrightarrow> advances (length vs) c c'"
  by (cases c) (auto simp: put_all_eq advances_def split: if_splits)

lemma mem_store_same_shape: "mem_store m i v = Inr m' \<Longrightarrow> same_shape m m'"
  by (auto simp: mem_store_def same_shape_def split: if_splits)

lemma load_all_length: "load_all r xs i n = Inr vs \<Longrightarrow> length vs = n"
  by (induction n arbitrary: i vs) (auto simp: bind_res_Inr_iff)

lemma return_except_frame:
  assumes "return_except m f e c = Inr (m', c')"
  shows "same_shape m m' \<and> advances 2 c c'"
proof -
  have "put_all Txbuf c [f + 0x80, e] = Inr c'" and "m' = m"
    using assms by (auto simp: answer_def bind_res_Inr_iff simp del: put_all.simps)
  from put_all_advances [OF this(1)] this(2) show ?thesis by (simp add: numeral_2_eq_2)
qed

lemma return_echo_frame:
  "return_echo m rx from n c = Inr (m', c') \<Longrightarrow> m' = m \<and> advances n c c'"
  by (auto simp: return_echo_def memcpy_def bind_res_Inr_iff
      dest!: load_all_length dest: put_all_advances)

lemma u16_add_Suc_left: "(a :: u16) + 1 + word_of_nat n = a + word_of_nat (Suc n)"
  by simp

lemma read_n16_loop_frame:
  "n < 65536 \<Longrightarrow> read_n16_loop m a (a + word_of_nat n) c = Inr c' \<Longrightarrow> advances (2 * n) c c'"
proof (induction n arbitrary: a c)
  case 0
  then show ?case by (simp add: read_n16_loop.simps [of m a] advances_def)
next
  case (Suc n)
  then have "a \<noteq> a + word_of_nat (Suc n)" by (intro u16_add_neq) simp_all
  with Suc.prems obtain v d where d: "wr16 c (ucast (v :: u8)) = Inr d"
    and loop: "read_n16_loop m (a + 1) (a + word_of_nat (Suc n)) d = Inr c'"
    by (auto simp: read_n16_loop.simps [of m a] bind_res_Inr_iff simp del: of_nat_Suc)
  have "advances 2 c d" using put_all_advances [OF d [unfolded wr16_byte]] by (simp add: numeral_2_eq_2)
  moreover have "advances (2 * n) d c'"
    using Suc.IH [of "a + 1" d] loop Suc.prems(1) by (simp only: u16_add_Suc_left)
  ultimately show ?case using advances_trans by fastforce
qed

lemma read_n8_loop_frame:
  "n < 65536 \<Longrightarrow> read_n8_loop m a (a + word_of_nat n) c = Inr c' \<Longrightarrow> advances n c c'"
proof (induction n arbitrary: a c)
  case 0
  then show ?case by (simp add: read_n8_loop.simps [of m a] advances_def)
next
  case (Suc n)
  then have "a \<noteq> a + word_of_nat (Suc n)" by (intro u16_add_neq) simp_all
  with Suc.prems obtain v d where d: "put Txbuf c v = Inr d"
    and loop: "read_n8_loop m (a + 1) (a + word_of_nat (Suc n)) d = Inr c'"
    by (auto simp: read_n8_loop.simps [of m a] bind_res_Inr_iff simp del: of_nat_Suc)
  have "advances n d c'"
    using Suc.IH [of "a + 1" d] loop Suc.prems(1) by (simp only: u16_add_Suc_left)
  with put_advances [OF d] show ?case using advances_trans by fastforce
qed

lemma write_n8_loop_frame: "write_n8_loop m rx a e at = Inr m' \<Longrightarrow> same_shape m m'"
proof (induction m rx a e at rule: write_n8_loop.induct)
  case (1 m rx a e at)
  then show ?case
    by (cases "a = e")
      (auto simp: write_n8_loop.simps [of m rx] bind_res_Inr_iff
        intro: same_shape_trans dest: mem_store_same_shape)
qed

lemma write_n16_loop_frame:
  "write_n16_loop m rx a e at c = Inr (m', r) \<Longrightarrow>
   same_shape m m' \<and> (case r of None \<Rightarrow> True | Some c' \<Rightarrow> advances 2 c c')"
proof (induction m rx a e at c rule: write_n16_loop.induct)
  case (1 m rx a e at c)
  show ?case
  proof (cases "a = e")
    case True
    with "1.prems" show ?thesis by (auto simp: write_n16_loop.simps [of m rx])
  next
    case False
    with "1.prems" obtain data where data: "rd16 rx at = Inr data"
      by (auto simp: write_n16_loop.simps [of m rx a] bind_res_Inr_iff)
    show ?thesis
    proof (cases "0xFF00 AND data = 0")
      case False
      with "1.prems" \<open>a \<noteq> e\<close> data obtain c' where "except FCODE_WR_REGISTERS ECODE_ILLEGAL_DATA_VALUE c = Inr c'"
          and "m' = m" "r = Some c'"
        by (auto simp: write_n16_loop.simps [of m rx a] bind_res_Inr_iff)
      then show ?thesis
        using return_except_frame [of m FCODE_WR_REGISTERS ECODE_ILLEGAL_DATA_VALUE c m c']
        by (simp add: return_except_def del: return_except_answer)
    next
      case True
      with "1.prems" \<open>a \<noteq> e\<close> data obtain m1 where "mem_store m (uint a) (ucast data) = Inr m1"
          and "write_n16_loop m1 rx (a + 1) e (at + 2) c = Inr (m', r)"
        by (auto simp: write_n16_loop.simps [of m rx a] bind_res_Inr_iff)
      with "1.IH" [OF \<open>a \<noteq> e\<close> data _ this] True show ?thesis
        using mem_store_same_shape same_shape_trans by blast
    qed
  qed
qed


section \<open>The handlers\<close>

definition handler_frame :: "rtu_memory \<Rightarrow> cursor \<Rightarrow> (rtu_memory \<times> cursor) res \<Rightarrow> bool" where
  "handler_frame m c out =
     (\<forall>m' c'. out = Inr (m', c') \<longrightarrow>
       same_shape m m' \<and> (\<exists>n. advances n c c' \<and> 2 \<le> n \<and> n \<le> 253))"

lemma handler_frame_except [simp]: "handler_frame m c (answer m c (Exception f e))"
  using return_except_frame unfolding return_except_answer handler_frame_def by fastforce

lemma handler_frame_bind:
  "(\<And>x. r = Inr x \<Longrightarrow> handler_frame m c (f x)) \<Longrightarrow> handler_frame m c (bind_res r f)"
  by (cases r) (simp_all add: handler_frame_def)

lemma handler_frame_echo:
  "same_shape m m' \<Longrightarrow> 2 \<le> n \<Longrightarrow> n \<le> 253 \<Longrightarrow> handler_frame m c (return_echo m' rx from n c)"
  using return_echo_frame unfolding handler_frame_def by blast

lemma word_count: "a + (n :: u16) = a + word_of_nat (unat n)"
  by simp

lemma handler_frame_if:
  "(b \<Longrightarrow> handler_frame m c x) \<Longrightarrow> (\<not> b \<Longrightarrow> handler_frame m c y) \<Longrightarrow> handler_frame m c (if b then x else y)"
  by simp

lemma handler_frame_Inr:
  "same_shape m m' \<Longrightarrow> advances n c c' \<Longrightarrow> 2 \<le> n \<Longrightarrow> n \<le> 253 \<Longrightarrow> handler_frame m c (Inr (m', c'))"
  by (auto simp: handler_frame_def)

lemma handler_frame_return_except [simp]: "handler_frame m c (return_except m f e c)"
  by simp

lemma read_n16_leaf:
  assumes "0 < num \<and> 0x7E > (num :: u16)" and "put Txbuf c f = Inr d1" and "put Txbuf d1 b = Inr d2"
    and "read_n16_loop m a (a + num) d2 = Inr c'"
  shows "handler_frame m c (Inr (m, c'))"
proof (rule handler_frame_Inr)
  have "read_n16_loop m a (a + word_of_nat (unat num)) d2 = Inr c'" using assms(4) by simp
  from read_n16_loop_frame [OF u16_less this] show "advances (1 + 1 + 2 * unat num) c c'"
    using advances_trans put_advances [OF assms(2)] put_advances [OF assms(3)] by blast
qed (use assms(1) in \<open>simp_all add: word_less_nat_alt\<close>)

lemma read_n16_frame: "handler_frame m c (read_n16 m rx from to at c)"
  unfolding read_n16_def Let_def
  by (intro handler_frame_if handler_frame_bind handler_frame_return_except)
    (rule read_n16_leaf, simp_all)

lemma read_n8_leaf:
  assumes "0 < num \<and> 250 > (num :: u8)" and "memcpy Txbuf c Rxbuf rx from 4 = Inr d"
    and "read_n8_loop m a (a + ucast num) d = Inr c'"
  shows "handler_frame m c (Inr (m, c'))"
proof (rule handler_frame_Inr)
  have "advances 4 c d"
    using return_echo_frame [of m rx "from" 4 c m d] assms(2) by (simp add: return_echo_def)
  moreover have "read_n8_loop m a (a + word_of_nat (unat num)) d = Inr c'" using assms(3) by simp
  from read_n8_loop_frame [OF u8_less_u16 this] have "advances (unat num) d c'" .
  ultimately show "advances (4 + unat num) c c'" by (rule advances_trans)
qed (use assms(1) in \<open>simp_all add: word_less_nat_alt\<close>)

lemma read_n8_frame: "handler_frame m c (read_n8 m rx from to at c)"
  unfolding read_n8_def Let_def
  by (intro handler_frame_if handler_frame_bind handler_frame_return_except)
    (rule read_n8_leaf, simp_all)

lemma write_16_frame: "handler_frame m c (write_16 m rx from to at c)"
  unfolding write_16_def
  by (intro handler_frame_if handler_frame_bind handler_frame_return_except handler_frame_echo)
    (simp_all add: mem_store_same_shape)

lemma write_n8_frame: "handler_frame m c (write_n8 m rx from to at c)"
  unfolding write_n8_def Let_def
  by (intro handler_frame_if handler_frame_bind handler_frame_return_except handler_frame_echo)
    (simp_all add: write_n8_loop_frame)

lemma write_n16_frame: "handler_frame m c (write_n16 m rx from to at c)"
proof -
  have leaf: "handler_frame m c (case (m', r) of (m, r) \<Rightarrow>
      (case r of Some reply \<Rightarrow> Inr (m, reply) | None \<Rightarrow> return_echo m rx from 5 c))"
    if "write_n16_loop m rx a e k c = Inr (m', r)" for m' r a e k
    using write_n16_loop_frame [OF that]
    by (auto split: option.splits intro: handler_frame_Inr handler_frame_echo)
  show ?thesis
    unfolding write_n16_def Let_def
    by (intro handler_frame_if handler_frame_bind handler_frame_return_except)
      (auto intro: leaf [unfolded prod.case])
qed

lemma rtu_memory_pdu_cb_frame: "handler_frame m c (rtu_memory_pdu_cb m rx f from to at c)"
  unfolding rtu_memory_pdu_cb_def
  by (intro handler_frame_if handler_frame_return_except read_n16_frame read_n8_frame
      write_16_frame write_n16_frame write_n8_frame)

end
