(* ===== verification/Memory_Properties.thy ===== *)
theory Memory_Properties
  imports Memory_Frame
begin

text \<open>
  The properties of the PDU handler of \<open>rtu_memory.c\<close>: the refinement of the server of
  \<open>Memory_Spec\<close>, the frame of any call, its totality on requests that read, and what it
  does with writes that leave the window, with bad register values and with short requests.
\<close>

section \<open>Runs of writes that leave the window or stop half-way\<close>

lemma mem_store_end: "mem_store m (int (length (mem_bytes m))) v = Inl (BadWrite RtuMem (int (length (mem_bytes m))))"
  by (simp add: mem_store_def)

lemma write_n8_loop_overrun:
  "unat a + k = length (mem_bytes m) \<Longrightarrow> k < length bs \<Longrightarrow> length bs < 65536 \<Longrightarrow>
   length (mem_bytes m) < 65536 \<Longrightarrow>
   write_n8_loop m (pre @ bs @ post) a (a + word_of_nat (length bs)) (length pre)
   = Inl (BadWrite RtuMem (int (length (mem_bytes m))))"
proof (induction k arbitrary: m pre a bs)
  case 0
  then obtain b bs' where bs: "bs = b # bs'" by (cases bs) auto
  have "a \<noteq> a + word_of_nat (length bs)"
    using 0 by (intro u16_add_neq) simp_all
  moreover have "mem_store m (uint a) b = Inl (BadWrite RtuMem (int (length (mem_bytes m))))"
    using 0 mem_store_end [of m b] by (metis add_0_right of_nat_unat)
  ultimately show ?case
    by (simp add: write_n8_loop.simps [of m _ a] load_ok bs del: of_nat_Suc)
next
  case (Suc k)
  then obtain b bs' where bs: "bs = b # bs'" by (cases bs) auto
  have next_a: "unat (a + 1) = Suc (unat a)" using Suc.prems by (simp add: unat_u16_Suc)
  let ?m = "m\<lparr>mem_bytes := (mem_bytes m)[unat a := b]\<rparr>"
  have "a \<noteq> a + word_of_nat (length bs)"
    using Suc.prems by (intro u16_add_neq) (simp_all add: bs)
  moreover have "mem_store m (uint a) b = Inr ?m"
    using Suc.prems mem_store_ok [of "unat a" m b] by simp
  moreover have "write_n8_loop ?m (pre @ bs @ post) (a + 1) (a + word_of_nat (length bs))
      (Suc (length pre)) = Inl (BadWrite RtuMem (int (length (mem_bytes m))))"
    using Suc.IH [of "a + 1" ?m bs' "pre @ [b]"] Suc.prems
    by (simp add: next_a bs add.assoc)
  ultimately show ?case
    by (simp add: write_n8_loop.simps [of m _ a] load_ok bs del: of_nat_Suc)
qed

lemma write_n16_loop_bad_value:
  "unat a + length ws < 65536 \<Longrightarrow> unat a + length ws \<le> length (mem_bytes m) \<Longrightarrow>
   list_all (\<lambda>w. HIGH_BYTE w = 0) ws \<Longrightarrow> HIGH_BYTE w \<noteq> 0 \<Longrightarrow> 0 < n \<Longrightarrow> length ws + n < 65536 \<Longrightarrow>
   write_n16_loop m (pre @ concat (map be16 ws) @ be16 w @ post) a (a + word_of_nat (length ws + n))
     (length pre) c
   = bind_res (except FCODE_WR_REGISTERS ECODE_ILLEGAL_DATA_VALUE c) (\<lambda>c.
     Inr (write_bytes m (unat a) (map LOW_BYTE ws), Some c))"
proof (induction ws arbitrary: m pre a)
  case Nil
  have "a \<noteq> a + word_of_nat n"
    using Nil by (intro u16_add_neq) simp_all
  moreover have "rd16 (pre @ be16 w @ post) (length pre) = Inr w"
    by (simp add: rd16_ok be16_def nth_append)
  ultimately show ?case
    using Nil by (simp add: write_n16_loop.simps [of m _ a] write_bytes_def high_byte_test)
next
  case (Cons v ws)
  then have next_a: "unat (a + 1) = Suc (unat a)" by (simp add: unat_u16_Suc)
  let ?m = "m\<lparr>mem_bytes := (mem_bytes m)[unat a := LOW_BYTE v]\<rparr>"
  have "a \<noteq> a + word_of_nat (length (v # ws) + n)"
    using Cons.prems by (intro u16_add_neq) simp_all
  moreover have "rd16 (pre @ concat (map be16 (v # ws)) @ be16 w @ post) (length pre) = Inr v"
    by (simp add: rd16_ok be16_def nth_append)
  moreover have "mem_store m (uint a) (LOW_BYTE v) = Inr ?m"
    using Cons.prems mem_store_ok [of "unat a" m "LOW_BYTE v"] by simp
  moreover have "ucast v = LOW_BYTE v"
    by (rule bit_word_eqI) (simp add: bit_LOW_BYTE bit_simps)
  moreover have "write_n16_loop ?m (pre @ concat (map be16 (v # ws)) @ be16 w @ post) (a + 1)
      (a + word_of_nat (length (v # ws) + n)) (length pre + 2) c
      = bind_res (except FCODE_WR_REGISTERS ECODE_ILLEGAL_DATA_VALUE c) (\<lambda>c.
        Inr (write_bytes m (unat a) (map LOW_BYTE (v # ws)), Some c))"
    using Cons.IH [of "a + 1" ?m "pre @ be16 v"] Cons.prems
    by (simp add: next_a write_bytes_Cons add.assoc)
  ultimately show ?case
    using Cons.prems by (simp add: write_n16_loop.simps [of m _ a] high_byte_test del: of_nat_Suc of_nat_add)
qed

lemma except_answer:
  "r + 2 \<le> length tx \<Longrightarrow> except f e (tx, r) = Inr (overwrite tx r [f + 0x80, e], r + 2)"
  using put_all_ok [of r "[f + 0x80, e]" tx Txbuf] by (simp add: except_def)

section \<open>Properties\<close>

text \<open>
  C33: whatever bytes a request holds, a handler that returns has left the window and the size of
  the memory and of the reply buffer as they were, and has written a reply of 2 to 253 bytes: after
  the slave address it fits the room that \<open>adu_process\<close> gives it.
\<close>

theorem handler_bounds:
  assumes "rtu_memory_pdu_cb m rx f from to at (tx, r) = Inr (m', tx', r')"
  shows "addr_begin m' = addr_begin m \<and> addr_end m' = addr_end m \<and>
    length (mem_bytes m') = length (mem_bytes m) \<and> length tx' = length tx \<and> r + 2 \<le> r' \<and> r' \<le> r + 253"
  using rtu_memory_pdu_cb_frame [of m "(tx, r)" rx f "from" to at] assms
  by (auto simp: handler_frame_def same_shape_def advances_def)

theorem handler_bounds_witness:
  "length (overwrite (replicate 256 0) 1 [0xAB, ECODE_ILLEGAL_FUNCTION] :: u8 list) = 256"
  using handler_bounds [of "\<lparr>addr_begin = 0, addr_end = 2, mem_bytes = [0, 0]\<rparr>" "[7, 0x2B, 0xFF]" "0x2B" 1 3 2
      "replicate 256 0" 1 "\<lparr>addr_begin = 0, addr_end = 2, mem_bytes = [0, 0]\<rparr>"
      "overwrite (replicate 256 0) 1 [0xAB, ECODE_ILLEGAL_FUNCTION]" 3]
  by (simp add: rtu_memory_pdu_cb_def answer_ok)

text \<open>
  C6: the handler serves as the abstract server does every well-formed request that only reads or
  whose function it does not know, and every write that stays in the window (\<open>write_in_window\<close>: the
  whole run of addresses lies in the memory, and registers hold the values of bytes): the reply it writes is
  the server's and the memory it leaves represents the server's map. Of other writes this is false, as
  \<open>write_register_below_window\<close>, \<open>write_bytes_past_window\<close> and
  \<open>write_registers_partial\<close> below show.
\<close>

theorem memory_handler_serves:
  assumes "mem_wf m" and "request_wf q" and "write_in_window m q" and "r + 253 \<le> length tx"
  shows "\<exists>m'. rtu_memory_pdu_cb m (pre @ request_pdu q @ post) (request_fcode q) (length pre)
        (length pre + length (request_pdu q)) (Suc (length pre)) (tx, r)
      = Inr (m', overwrite tx r (reply_pdu (snd (serve (mem_abs m) q))),
             r + length (reply_pdu (snd (serve (mem_abs m) q)))) \<and>
      mem_abs m' = fst (serve (mem_abs m) q) \<and> mem_wf m' \<and>
      addr_begin m' = addr_begin m \<and> addr_end m' = addr_end m"
proof -
  have "r + length (reply_pdu (snd (serve (mem_abs m) q))) \<le> length tx"
    using reply_size [of "mem_abs m" q] assms(4) by linarith
  then show ?thesis
    using rtu_memory_pdu_cb_serves [OF assms(1-3), of "(tx, r)" pre post]
    by (auto simp: serves_def answer_ok)
qed

theorem memory_handler_serves_witness:
  "\<exists>m'. rtu_memory_pdu_cb \<lparr>addr_begin = 0x1000, addr_end = 0x1004, mem_bytes = [1, 2, 3, 4]\<rparr>
        ([7] @ request_pdu (Wr_bytes 0x1001 [8, 9]) @ [0xAB, 0xCD]) FCODE_WR_BYTES 1 7 2
        (7 # replicate 255 0, 1)
      = Inr (m', overwrite (7 # replicate 255 0) 1 [FCODE_WR_BYTES, 0x10, 0x01, 2], 5) \<and>
      mem_abs m' 0x1002 = Some 9"
proof -
  let ?m = "\<lparr>addr_begin = 0x1000, addr_end = 0x1004, mem_bytes = [1, 2, 3, 4]\<rparr>"
  let ?q = "Wr_bytes 0x1001 [8, 9]"
  have s: "serve (mem_abs ?m) ?q = ((mem_abs ?m)(0x1001 \<mapsto> 8, 0x1002 \<mapsto> 9), Bytes_written 0x1001 2)"
    by (simp add: mapped_mem_abs) (simp add: mem_abs_def)
  have rep: "reply_pdu (Bytes_written 0x1001 2) = [FCODE_WR_BYTES, 0x10, 0x01, 2]"
    by (simp add: be16_def HIGH_BYTE_def LOW_BYTE_def)
  have len: "length (request_pdu ?q) = 6"
    by (simp add: request_pdu_def)
  have five: "5 = Suc (Suc (Suc (Suc (Suc 0))))" by simp
  from memory_handler_serves [of ?m ?q 1 "7 # replicate 255 0" "[7]" "[0xAB, 0xCD]"]
  obtain m' where "rtu_memory_pdu_cb ?m ([7] @ request_pdu ?q @ [0xAB, 0xCD]) (request_fcode ?q)
      (length [7 :: u8]) (length [7 :: u8] + length (request_pdu ?q)) (Suc (length [7 :: u8])) (7 # replicate 255 0, 1)
      = Inr (m', overwrite (7 # replicate 255 0) 1 (reply_pdu (snd (serve (mem_abs ?m) ?q))),
             1 + length (reply_pdu (snd (serve (mem_abs ?m) ?q))))"
      and "mem_abs m' = fst (serve (mem_abs ?m) ?q)"
    by (auto simp: mem_wf_def)
  then show ?thesis
    unfolding s snd_conv fst_conv rep len by (intro exI [of _ m']) (simp add: numeral_2_eq_2 five)
qed

text \<open>
  C35: \<open>write_16\<close> does not compare the address with \<open>addr_begin\<close>: a write of one register
  below the window stores in front of the array, at a negative index.
\<close>

theorem write_register_below_window:
  assumes "a < addr_begin m" and "a < addr_end m" and "HIGH_BYTE w = 0"
  shows "rtu_memory_pdu_cb m (pre @ request_pdu (Wr_register a w) @ post) FCODE_WR_REGISTER (length pre)
      (length pre + 5) (Suc (length pre)) c
    = Inl (BadWrite RtuMem (uint a - uint (addr_begin m)))"
  using assms
  by (simp add: rtu_memory_pdu_cb_def write_16_def request_pdu_def rd16_mid [where j = 1]
      rd16_mid [where j = 3] be16_def high_byte_test mem_store_def word_less_def)

theorem write_register_below_window_witness:
  "rtu_memory_pdu_cb \<lparr>addr_begin = 0x1000, addr_end = 0x1002, mem_bytes = [0, 0]\<rparr>
      ([7] @ request_pdu (Wr_register 0x0FFF 5) @ []) FCODE_WR_REGISTER 1 6 (Suc 1) (replicate 256 0, 1)
    = Inl (BadWrite RtuMem (- 1))"
  using write_register_below_window [where a = "0x0FFF" and m = "\<lparr>addr_begin = 0x1000, addr_end = 0x1002, mem_bytes = [0, 0]\<rparr>"
      and w = 5 and pre = "[7]" and post = "[]" and c = "(replicate 256 0, 1)"]
  by (simp add: HIGH_BYTE_def)

text \<open>
  C36: \<open>write_n8\<close> compares only the first address of a run with \<open>addr_end\<close>: a run that
  starts in the window and is longer than what is left of it writes past the array.
\<close>

theorem write_bytes_past_window:
  assumes wf: "mem_wf m" and a: "addr_begin m \<le> a" "a < addr_end m"
    and len: "length bs \<le> 249" and past: "unat (addr_end m) < unat a + length bs"
  shows "rtu_memory_pdu_cb m (pre @ request_pdu (Wr_bytes a bs) @ post) FCODE_WR_BYTES (length pre)
      (length pre + length (request_pdu (Wr_bytes a bs))) (Suc (length pre)) c
    = Inl (BadWrite RtuMem (int (length (mem_bytes m))))"
proof -
  let ?hd = "pre @ FCODE_WR_BYTES # be16 a @ [word_of_nat (length bs)]"
  have rx: "pre @ request_pdu (Wr_bytes a bs) @ post = ?hd @ bs @ post"
    by (simp add: request_pdu_def)
  have at: "Suc (length pre) + 3 = length ?hd" by simp
  have pos: "0 < length bs" using a past by (cases bs) (auto simp: word_less_nat_alt)
  have "unat (a - addr_begin m) + (unat (addr_end m) - unat a) = length (mem_bytes m)"
    using wf a by (simp add: mem_wf_def unat_sub_if' word_le_nat_alt word_less_nat_alt)
  moreover have "unat (addr_end m) - unat a < length bs" using past pos by linarith
  ultimately have "write_n8_loop m (pre @ request_pdu (Wr_bytes a bs) @ post) (a - addr_begin m)
      (a - addr_begin m + word_of_nat (length bs)) (Suc (length pre) + 3)
      = Inl (BadWrite RtuMem (int (length (mem_bytes m))))"
    unfolding rx at using len past pos wf
    by (intro write_n8_loop_overrun) (auto simp: mem_wf_def intro: less_imp_diff_less)
  moreover have "rd16 (pre @ request_pdu (Wr_bytes a bs) @ post) (Suc (length pre)) = Inr a"
      and "load Rxbuf (pre @ request_pdu (Wr_bytes a bs) @ post) (Suc (length pre) + 2)
        = Inr (word_of_nat (length bs))"
    by (simp_all add: request_pdu_def rd16_mid [where j = 1] load_mid [where j = 3] be16_def)
  ultimately show ?thesis
    using a len pos
    by (simp add: rtu_memory_pdu_cb_def write_n8_in_range [where k = "length bs"] length_request_pdu)
qed

theorem write_bytes_past_window_witness:
  "rtu_memory_pdu_cb \<lparr>addr_begin = 0x1000, addr_end = 0x1002, mem_bytes = [0, 0]\<rparr>
      ([7] @ request_pdu (Wr_bytes 0x1001 [5, 6]) @ []) FCODE_WR_BYTES 1 7 (Suc 1) (replicate 256 0, 1)
    = Inl (BadWrite RtuMem 2)"
  using write_bytes_past_window [where a = "0x1001" and m = "\<lparr>addr_begin = 0x1000, addr_end = 0x1002, mem_bytes = [0, 0]\<rparr>"
      and bs = "[5, 6]" and pre = "[7]" and post = "[]" and c = "(replicate 256 0, 1)"]
  by (simp add: mem_wf_def request_pdu_def)

text \<open>
  C37: a run of registers with a value above 0xFF is refused, but the registers in front of
  that value have been stored by then: the exception does not mean that nothing was written.
\<close>

theorem write_registers_partial:
  assumes wf: "mem_wf m" and a: "addr_begin m \<le> a" "a < addr_end m"
    and len: "length (ws @ w # ws') \<le> 123" and fits: "unat a + length ws \<le> unat (addr_end m)"
    and ok: "list_all (\<lambda>w. HIGH_BYTE w = 0) ws" and bad: "HIGH_BYTE w \<noteq> 0"
    and room: "r + 2 \<le> length tx"
  shows "\<exists>m'. rtu_memory_pdu_cb m (pre @ request_pdu (Wr_registers a (ws @ w # ws')) @ post)
        FCODE_WR_REGISTERS (length pre)
        (length pre + length (request_pdu (Wr_registers a (ws @ w # ws')))) (Suc (length pre)) (tx, r)
      = Inr (m', overwrite tx r [FCODE_WR_REGISTERS + 0x80, ECODE_ILLEGAL_DATA_VALUE], r + 2) \<and>
      mem_abs m' = write_run (mem_abs m) (unat a) (map LOW_BYTE ws)"
proof -
  let ?ws = "ws @ w # ws'"
  let ?hd = "pre @ FCODE_WR_REGISTERS # be16 a @ be16 (word_of_nat (length ?ws)) @ [word_of_nat (2 * length ?ws)]"
  have rx: "pre @ request_pdu (Wr_registers a ?ws) @ post =
      ?hd @ concat (map be16 ws) @ be16 w @ (concat (map be16 ws') @ post)"
    by (simp add: request_pdu_def)
  note off = mem_wf_run [OF wf a(1) fits]
  have "Suc (length pre) + 5 = length ?hd" by simp
  then have loop: "write_n16_loop m (pre @ request_pdu (Wr_registers a ?ws) @ post) (a - addr_begin m)
      (a - addr_begin m + word_of_nat (length ?ws)) (Suc (length pre) + 5) (tx, r)
      = Inr (write_bytes m (unat a - unat (addr_begin m)) (map LOW_BYTE ws),
             Some (overwrite tx r [FCODE_WR_REGISTERS + 0x80, ECODE_ILLEGAL_DATA_VALUE], r + 2))"
    using write_n16_loop_bad_value [of "a - addr_begin m" ws m w "Suc (length ws')" ?hd
        "concat (map be16 ws') @ post" "(tx, r)"] off len ok bad
    unfolding rx except_answer [OF room]
    by (simp only: \<open>Suc (length pre) + 5 = length ?hd\<close> length_append length_Cons) simp
  have g: "rd16 (pre @ request_pdu (Wr_registers a ?ws) @ post) (Suc (length pre)) = Inr a"
      "rd16 (pre @ request_pdu (Wr_registers a ?ws) @ post) (Suc (length pre) + 2)
        = Inr (word_of_nat (length ?ws))"
      "load Rxbuf (pre @ request_pdu (Wr_registers a ?ws) @ post) (Suc (length pre) + 4)
        = Inr (word_of_nat (2 * length ?ws))"
    by (simp_all add: request_pdu_def rd16_mid [where j = 1] rd16_mid [where j = 3]
        load_mid [where j = 5] be16_def)
  have "write_n16 m (pre @ request_pdu (Wr_registers a ?ws) @ post) (length pre)
        (length pre + length (request_pdu (Wr_registers a ?ws))) (Suc (length pre)) (tx, r)
      = Inr (write_bytes m (unat a - unat (addr_begin m)) (map LOW_BYTE ws),
         overwrite tx r [FCODE_WR_REGISTERS + 0x80, ECODE_ILLEGAL_DATA_VALUE], r + 2)"
    by (subst write_n16_in_range [OF _ _ _ _ a(2) g])
      (use len in \<open>simp_all only: loop bind_res.simps length_request_pdu\<close>, simp_all)
  then have "rtu_memory_pdu_cb m (pre @ request_pdu (Wr_registers a ?ws) @ post)
        FCODE_WR_REGISTERS (length pre)
        (length pre + length (request_pdu (Wr_registers a ?ws))) (Suc (length pre)) (tx, r)
      = Inr (write_bytes m (unat a - unat (addr_begin m)) (map LOW_BYTE ws),
         overwrite tx r [FCODE_WR_REGISTERS + 0x80, ECODE_ILLEGAL_DATA_VALUE], r + 2)"
    by (simp add: rtu_memory_pdu_cb_def)
  then show ?thesis
    using mem_abs_write_bytes [OF wf a(1), of "map LOW_BYTE ws"] fits by simp
qed

theorem write_registers_partial_witness:
  "\<exists>m'. rtu_memory_pdu_cb \<lparr>addr_begin = 0x1000, addr_end = 0x1004, mem_bytes = [0, 0, 0, 0]\<rparr>
        ([7] @ request_pdu (Wr_registers 0x1001 ([5] @ 0x100 # [6])) @ []) FCODE_WR_REGISTERS 1 13 (Suc 1)
        (replicate 256 0, 1)
      = Inr (m', overwrite (replicate 256 0) 1 [144, ECODE_ILLEGAL_DATA_VALUE], 3) \<and>
      mem_abs m' 0x1001 = Some 5"
  using write_registers_partial [where a = "0x1001" and r = 1
      and m = "\<lparr>addr_begin = 0x1000, addr_end = 0x1004, mem_bytes = [0, 0, 0, 0]\<rparr>"
      and ws = "[5]" and w = "0x100" and ws' = "[6]" and pre = "[7]" and post = "[]"
      and tx = "replicate 256 0"]
  by (auto simp: mem_wf_def HIGH_BYTE_def LOW_BYTE_def length_request_pdu)

text \<open>
  A request shorter than its function needs is answered with function code 0xC2 and
  exception code 0x80 whatever the function was, and nothing is stored.
\<close>

lemma short_request_reply:
  assumes "supported_fcode f" and "to < from + 4 \<or> (to < from + 5 \<and> f \<notin> {FCODE_RD_BYTES, FCODE_WR_BYTES})"
    and "r + 2 \<le> length tx"
  shows "rtu_memory_pdu_cb m rx f from to at (tx, r) = Inr (m, overwrite tx r [0xC2, 0x80], r + 2)"
  using assms answer_ok [of r "Exception FCODE_WR_BYTES ECODE_FORMAT_ERROR" tx m]
  by (auto simp: rtu_memory_pdu_cb_def supported_fcode_def read_n16_def write_16_def write_n16_def
      read_n8_def write_n8_def)

text \<open>The two readers return on every request that is in the buffer.\<close>

lemma answer_total:
  assumes "length (reply_pdu rep) \<le> 253" and "r + 253 \<le> length tx"
  shows "\<exists>vs. answer m (tx, r) rep = Inr (m, overwrite tx r vs, r + length vs) \<and> 0 < length vs \<and> length vs \<le> 253"
  using assms by (intro exI [of _ "reply_pdu rep"]) (cases rep; simp add: answer_ok)

lemma read_n16_total:
  assumes "mem_wf m" and "from < to" and "to \<le> length rx" and "r + 253 \<le> length tx"
  shows "\<exists>vs. read_n16 m rx from to (Suc from) (tx, r) = Inr (m, overwrite tx r vs, r + length vs) \<and>
    0 < length vs \<and> length vs \<le> 253"
proof (cases "to < from + 5")
  case True
  then show ?thesis
    using answer_total [of "Exception FCODE_WR_BYTES ECODE_FORMAT_ERROR"] assms(4) by (simp add: read_n16_def)
next
  case False
  then have "rd16 rx (Suc from) = Inr (MAKE_WORD (rx ! (from + 2)) (rx ! Suc from))"
      and "rd16 rx (Suc from + 2) = Inr (MAKE_WORD (rx ! (from + 4)) (rx ! (from + 3)))"
    using assms(2,3) by (simp_all add: rd16_ok numeral_eq_Suc)
  from read_n16_serve [OF assms(1) _ this, of "from" to] False show ?thesis
    using answer_total [OF reply_size assms(4)] by (simp del: serve.simps)
qed

lemma read_n8_total:
  assumes "mem_wf m" and "from < to" and "to \<le> length rx" and "rx ! from = FCODE_RD_BYTES" and "r + 253 \<le> length tx"
  shows "\<exists>vs. read_n8 m rx from to (Suc from) (tx, r) = Inr (m, overwrite tx r vs, r + length vs) \<and>
    0 < length vs \<and> length vs \<le> 253"
proof (cases "to < from + 4")
  case True
  then show ?thesis
    using answer_total [of "Exception FCODE_WR_BYTES ECODE_FORMAT_ERROR"] assms(5) by (simp add: read_n8_def)
next
  case False
  let ?a = "MAKE_WORD (rx ! (from + 2)) (rx ! Suc from)"
  have drop: "drop from rx = rx ! from # rx ! Suc from # rx ! (from + 2) # rx ! (from + 3) # drop (from + 4) rx"
    using False assms(3) Cons_nth_drop_Suc [of "from" rx] by (simp add: Cons_nth_drop_Suc numeral_eq_Suc)
  have "rd16 rx (Suc from) = Inr ?a" and "load Rxbuf rx (Suc from + 2) = Inr (rx ! (from + 3))"
    using False assms(3) by (simp_all add: rd16_ok load_ok numeral_eq_Suc)
  moreover have "take 4 (drop from rx) = FCODE_RD_BYTES # be16 ?a @ [rx ! (from + 3)]"
    unfolding drop using assms(4) by (simp add: be16_def numeral_eq_Suc)
  ultimately show ?thesis
    using read_n8_serve [OF assms(1), of "from" to rx "Suc from"] False assms(2-4) answer_total [OF reply_size assms(5)]
    by (simp del: serve.simps)
qed

text \<open>
  C32: whatever bytes a request holds, a handler that reads neither faults nor touches the
  memory, and its reply stays within 253 bytes.
\<close>

theorem readers_total:
  assumes wf: "mem_wf m" and f: "f \<notin> {FCODE_WR_REGISTER, FCODE_WR_REGISTERS, FCODE_WR_BYTES}"
    and req: "from < to" "to \<le> length rx" "rx ! from = f" and room: "r + 253 \<le> length tx"
  shows "\<exists>vs. rtu_memory_pdu_cb m rx f from to (Suc from) (tx, r) = Inr (m, overwrite tx r vs, r + length vs) \<and>
      0 < length vs \<and> length vs \<le> 253"
proof -
  consider "f = FCODE_RD_HOLDING_REGISTERS" | "f = FCODE_RD_BYTES" | "\<not> supported_fcode f"
    using f by (auto simp: supported_fcode_def)
  then show ?thesis
  proof cases
    case 1
    with read_n16_total [OF wf req(1,2) room] show ?thesis by (simp add: rtu_memory_pdu_cb_def)
  next
    case 2
    with read_n8_total [OF wf req(1,2) _ room] req(3) show ?thesis by (simp add: rtu_memory_pdu_cb_def)
  next
    case 3
    with answer_total [of "Exception f ECODE_ILLEGAL_FUNCTION", OF _ room] show ?thesis
      by (auto simp: rtu_memory_pdu_cb_def supported_fcode_def)
  qed
qed

theorem readers_total_witness:
  "\<exists>vs. rtu_memory_pdu_cb \<lparr>addr_begin = 0, addr_end = 2, mem_bytes = [0, 0]\<rparr>
      [7, 0x2B, 0xFF] 0x2B 1 3 (Suc 1) (replicate 256 0, 1)
      = Inr (\<lparr>addr_begin = 0, addr_end = 2, mem_bytes = [0, 0]\<rparr>,
          overwrite (replicate 256 0) 1 vs, 1 + length vs) \<and> 0 < length vs \<and> length vs \<le> 253"
  by (rule readers_total) (simp_all add: mem_wf_def)

end
