(* ===== verification/Linux_Tty.thy ===== *)
theory Linux_Tty
  imports Modbus_Prelude "HOL-Library.Stream" "HOL-Library.Signed_Division"
begin

text \<open>
  The serial line of the Linux build: the reads and writes with timeouts of \<open>linux/tty.c\<close>
  over the system calls they make, and \<open>tty_bps\<close>.

  The operating system is a script: \<open>clock\<close> gives the time at each reading,
  \<open>calls\<close> what each of the next \<open>poll\<close>, \<open>read\<close>, \<open>write\<close>, \<open>usleep\<close>
  and \<open>tcdrain\<close> returns, and \<open>wire\<close> collects the bytes that were written. A loop that runs past the end of its
  script is \<open>OutOfFuel\<close>. A \<open>char *\<close> that may leave its buffer is an \<open>int\<close>
  offset from the start of the buffer. The debug log of \<open>tty_dev_t\<close> is left out.
\<close>

section \<open>System calls\<close>

text \<open>
  \<open>Poll_ret r ready aux\<close>: \<open>poll\<close> returned \<open>r\<close>, whether \<open>revents\<close> of the
  line has the flag asked for and whether \<open>events & revents\<close> of the second descriptor is not 0.
  The boolean of a failing call is whether \<open>errno\<close> is \<open>EINTR\<close>.
\<close>

datatype syscall =
    Poll_ret int bool bool | Poll_err bool
  | Read_ret "u8 list" | Read_err bool
  | Write_ret nat | Write_err bool
  | Usleep_ret | Usleep_err bool
  | Drain_ret | Drain_err

record os =
  clock :: "int stream"
  calls :: "syscall list"
  wire :: "u8 list"

definition timestamp_us :: "os \<Rightarrow> int \<times> os" where
  "timestamp_us w = (shd (clock w), w\<lparr>clock := stl (clock w)\<rparr>)"

text \<open>\<open>validate_syscall_result\<close>: the process ends unless the call succeeded or was interrupted.\<close>

definition validate_syscall_result :: "bool \<Rightarrow> string \<Rightarrow> 'a \<Rightarrow> 'a res" where
  "validate_syscall_result eintr what x = (if eintr then Inr x else Inl (CheckFailed what))"

text \<open>After a failing \<open>poll\<close> the \<open>revents\<close> are what they were before.\<close>

definition sys_poll :: "os \<Rightarrow> bool \<Rightarrow> bool \<Rightarrow> (os \<times> int \<times> bool \<times> bool) res" where
  "sys_poll w ready aux =
     (case calls w of
        Poll_ret r ready' aux' # cs \<Rightarrow> Inr (w\<lparr>calls := cs\<rparr>, r, ready', aux')
      | Poll_err eintr # cs \<Rightarrow>
          validate_syscall_result eintr ''poll'' (w\<lparr>calls := cs\<rparr>, - 1, ready, aux)
      | _ \<Rightarrow> Inl OutOfFuel)"

text \<open>\<open>read\<close> and \<open>write\<close> move at most the bytes up to the end of the buffer.\<close>

fun store_from :: "u8 list \<Rightarrow> int \<Rightarrow> u8 list \<Rightarrow> u8 list res" where
  "store_from buf i [] = Inr buf"
| "store_from buf i (v # vs) =
     (if 0 \<le> i then bind_res (store Data buf (nat i) v) (\<lambda>buf. store_from buf (i + 1) vs)
      else Inl (BadWrite Data i))"

fun load_from :: "u8 list \<Rightarrow> int \<Rightarrow> nat \<Rightarrow> u8 list res" where
  "load_from buf i 0 = Inr []"
| "load_from buf i (Suc n) =
     (if 0 \<le> i
      then bind_res (load Data buf (nat i)) (\<lambda>v.
           bind_res (load_from buf (i + 1) n) (\<lambda>vs. Inr (v # vs)))
      else Inl (BadRead Data i))"

definition sys_read :: "os \<Rightarrow> u8 list \<Rightarrow> int \<Rightarrow> (os \<times> u8 list \<times> int) res" where
  "sys_read w buf cur =
     (case calls w of
        Read_ret bs # cs \<Rightarrow>
          (let bs = take (nat (int (length buf) - cur)) bs
           in bind_res (store_from buf cur bs) (\<lambda>buf. Inr (w\<lparr>calls := cs\<rparr>, buf, int (length bs))))
      | Read_err eintr # cs \<Rightarrow>
          validate_syscall_result eintr ''read'' (w\<lparr>calls := cs\<rparr>, buf, - 1)
      | _ \<Rightarrow> Inl OutOfFuel)"

definition sys_write :: "os \<Rightarrow> u8 list \<Rightarrow> int \<Rightarrow> (os \<times> int) res" where
  "sys_write w buf cur =
     (case calls w of
        Write_ret n # cs \<Rightarrow>
          (let n = min n (nat (int (length buf) - cur))
           in bind_res (load_from buf cur n) (\<lambda>bs.
              Inr (w\<lparr>calls := cs, wire := wire w @ bs\<rparr>, int n)))
      | Write_err eintr # cs \<Rightarrow> validate_syscall_result eintr ''write'' (w\<lparr>calls := cs\<rparr>, - 1)
      | _ \<Rightarrow> Inl OutOfFuel)"

definition sys_usleep :: "os \<Rightarrow> os res" where
  "sys_usleep w =
     (case calls w of
        Usleep_ret # cs \<Rightarrow> Inr (w\<lparr>calls := cs\<rparr>)
      | Usleep_err eintr # cs \<Rightarrow> validate_syscall_result eintr ''usleep'' (w\<lparr>calls := cs\<rparr>)
      | _ \<Rightarrow> Inl OutOfFuel)"

text \<open>\<open>tty_drain\<close> of an open line; it does not spare an interrupted \<open>tcdrain\<close>.\<close>

definition sys_tcdrain :: "os \<Rightarrow> os res" where
  "sys_tcdrain w =
     (case calls w of
        Drain_ret # cs \<Rightarrow> Inr (w\<lparr>calls := cs\<rparr>)
      | Drain_err # cs \<Rightarrow> Inl (CheckFailed ''tcdrain'')
      | _ \<Rightarrow> Inl OutOfFuel)"

lemma sys_poll_calls:
  "sys_poll w a b = Inr (w', r) \<Longrightarrow> length (calls w') < length (calls w)"
  by (auto simp: sys_poll_def validate_syscall_result_def split: list.splits syscall.splits if_splits)

lemma sys_read_calls:
  "sys_read w buf cur = Inr (w', r) \<Longrightarrow> length (calls w') < length (calls w)"
  by (auto simp: sys_read_def validate_syscall_result_def Let_def bind_res_Inr_iff
      split: list.splits syscall.splits if_splits)

lemma sys_write_calls:
  "sys_write w buf cur = Inr (w', r) \<Longrightarrow> length (calls w') < length (calls w)"
  by (auto simp: sys_write_def validate_syscall_result_def Let_def bind_res_Inr_iff
      split: list.splits syscall.splits if_splits)

lemma sys_usleep_calls: "sys_usleep w = Inr w' \<Longrightarrow> length (calls w') < length (calls w)"
  by (auto simp: sys_usleep_def validate_syscall_result_def split: list.splits syscall.splits if_splits)

lemma timestamp_calls [simp]: "calls (snd (timestamp_us w)) = calls w" "wire (snd (timestamp_us w)) = wire w"
  by (simp_all add: timestamp_us_def)

section \<open>Reading and writing with a timeout\<close>

text \<open>
  The loop of \<open>tty_read\<close>: \<open>curr\<close>, \<open>elapsed_ms\<close> and the two \<open>revents\<close> are its
  variables, \<open>aux\<close> is whether there is a second descriptor. The result holds the bytes of the
  buffer, \<open>curr\<close>, and whether \<open>aux->revents\<close> was set.
\<close>

text \<open>The \<open>POLLIN\<close> branch, up to its \<open>curr += r\<close>.\<close>

definition tty_read_ready :: "os \<Rightarrow> u8 list \<Rightarrow> int \<Rightarrow> (os \<times> u8 list \<times> int) res" where
  "tty_read_ready w buf cur =
     bind_res (sys_read w buf cur) (\<lambda>(w, buf, r).
     if r = 0 then Inl (CheckFailed ''0 != r'') else Inr (w, buf, cur + r))"

function tty_read_loop :: "os \<Rightarrow> u8 list \<Rightarrow> int \<Rightarrow> int \<Rightarrow> int \<Rightarrow> int \<Rightarrow> bool \<Rightarrow> bool \<Rightarrow> bool
    \<Rightarrow> (os \<times> u8 list \<times> int \<times> bool) res" where
  "tty_read_loop w buf cur timeout start_ts elapsed_ms aux rev0 rev1 =
     (if \<not> (cur \<noteq> int (length buf) \<and> (0 > timeout \<or> timeout \<ge> elapsed_ms))
      then Inr (w, buf, cur, False)
      else bind_res (sys_poll w rev0 rev1) (\<lambda>(w, r, rev0, rev1).
           let (now, w) = timestamp_us w; elapsed_ms = (now - start_ts) sdiv 1000 in
           if r = 0 then tty_read_loop w buf cur timeout start_ts elapsed_ms aux rev0 rev1
           else if rev0 then
             bind_res (tty_read_ready w buf cur) (\<lambda>(w, buf, cur).
             if 0 > timeout then Inr (w, buf, cur, False)
             else if aux \<and> rev1 then Inr (w, buf, cur, True)
             else tty_read_loop w buf cur timeout start_ts elapsed_ms aux rev0 rev1)
           else if aux \<and> rev1 then Inr (w, buf, cur, True)
           else tty_read_loop w buf cur timeout start_ts elapsed_ms aux rev0 rev1))"
  by pat_completeness auto

termination
  by (relation "measure (\<lambda>(w, _). length (calls w))")
    (auto simp: tty_read_ready_def timestamp_us_def bind_res_Inr_iff split: if_splits
      dest!: sys_poll_calls sys_read_calls)

declare tty_read_loop.simps [simp del]

definition tty_read :: "os \<Rightarrow> u8 list \<Rightarrow> int \<Rightarrow> bool \<Rightarrow> (os \<times> u8 list \<times> int \<times> bool) res" where
  "tty_read w buf timeout aux =
     (let (start_ts, w) = timestamp_us w
      in tty_read_loop w buf 0 timeout start_ts 0 aux False False)"

text \<open>\<open>tty_read_ll\<close>, which sleeps between two attempts to read.\<close>

function tty_read_ll_loop :: "os \<Rightarrow> u8 list \<Rightarrow> int \<Rightarrow> int \<Rightarrow> int \<Rightarrow> (os \<times> u8 list \<times> int) res" where
  "tty_read_ll_loop w buf delay_us start_us elapsed_us =
     (if \<not> delay_us > elapsed_us then Inr (w, buf, 0)
      else bind_res (if elapsed_us \<noteq> 0 then sys_usleep w else Inr w) (\<lambda>w.
           bind_res (sys_read w buf 0) (\<lambda>(w, buf, r).
           if 0 < r then Inr (w, buf, r)
           else let (now, w) = timestamp_us w
                in tty_read_ll_loop w buf delay_us start_us (elapsed_us + (now - start_us)))))"
  by pat_completeness auto
termination
  by (relation "measure (\<lambda>(w, _). length (calls w))")
    (auto simp: timestamp_us_def bind_res_Inr_iff split: if_splits
      dest!: sys_usleep_calls sys_read_calls)

declare tty_read_ll_loop.simps [simp del]

definition tty_read_ll :: "os \<Rightarrow> u8 list \<Rightarrow> int \<Rightarrow> (os \<times> u8 list \<times> int) res" where
  "tty_read_ll w buf delay_us =
     (let (start_us, w) = timestamp_us w in tty_read_ll_loop w buf delay_us start_us 0)"

text \<open>\<open>tty_write\<close>; the result is the offset of its \<open>curr\<close>.\<close>

definition tty_write_ready :: "os \<Rightarrow> u8 list \<Rightarrow> int \<Rightarrow> (os \<times> int) res" where
  "tty_write_ready w buf cur =
     bind_res (sys_write w buf cur) (\<lambda>(w, r).
     if r = 0 then Inl (CheckFailed ''0 != r'') else Inr (w, cur + r))"

function tty_write_loop :: "os \<Rightarrow> u8 list \<Rightarrow> int \<Rightarrow> int \<Rightarrow> int \<Rightarrow> int \<Rightarrow> bool \<Rightarrow> bool \<Rightarrow> bool
    \<Rightarrow> (os \<times> int \<times> bool) res" where
  "tty_write_loop w buf cur timeout start_ts elapsed_ms aux rev0 rev1 =
     (if \<not> (cur \<noteq> int (length buf) \<and> (0 > timeout \<or> timeout \<ge> elapsed_ms))
      then Inr (w, cur, False)
      else bind_res (sys_poll w rev0 rev1) (\<lambda>(w, r, rev0, rev1).
           let (now, w) = timestamp_us w; elapsed_ms = (now - start_ts) sdiv 1000 in
           if r = 0 then tty_write_loop w buf cur timeout start_ts elapsed_ms aux rev0 rev1
           else bind_res (if rev0 then tty_write_ready w buf cur else Inr (w, cur)) (\<lambda>(w, cur).
                if aux \<and> rev1 then Inr (w, cur, True)
                else tty_write_loop w buf cur timeout start_ts elapsed_ms aux rev0 rev1)))"
  by pat_completeness auto
termination
  by (relation "measure (\<lambda>(w, _). length (calls w))")
    (auto simp: tty_write_ready_def timestamp_us_def bind_res_Inr_iff split: if_splits
      dest!: sys_poll_calls sys_write_calls)

declare tty_write_loop.simps [simp del]

definition tty_write :: "os \<Rightarrow> u8 list \<Rightarrow> int \<Rightarrow> bool \<Rightarrow> (os \<times> int \<times> bool) res" where
  "tty_write w buf timeout aux =
     (let (start_ts, w) = timestamp_us w
      in tty_write_loop w buf 0 timeout start_ts 0 aux False False)"

section \<open>Rates and names\<close>

text \<open>\<open>B0\<close> stands for the values of \<open>speed_t\<close> that \<open>tty_bps\<close> does not support.\<close>

datatype speed_t = B1200 | B2400 | B4800 | B9600 | B19200 | B38400 | B57600 | B115200 | B0

fun tty_bps :: "speed_t \<Rightarrow> int res" where
  "tty_bps B1200 = Inr 1200"
| "tty_bps B2400 = Inr 2400"
| "tty_bps B4800 = Inr 4800"
| "tty_bps B9600 = Inr 9600"
| "tty_bps B19200 = Inr 19200"
| "tty_bps B38400 = Inr 38400"
| "tty_bps B57600 = Inr 57600"
| "tty_bps B115200 = Inr 115200"
| "tty_bps B0 = Inl (CheckFailed ''unsupported rate'')"

fun tty_rate_str :: "speed_t \<Rightarrow> string" where
  "tty_rate_str B1200 = ''1200''"
| "tty_rate_str B2400 = ''2400''"
| "tty_rate_str B4800 = ''4800''"
| "tty_rate_str B9600 = ''9600''"
| "tty_rate_str B19200 = ''19200''"
| "tty_rate_str B38400 = ''38400''"
| "tty_rate_str B57600 = ''57600''"
| "tty_rate_str B115200 = ''115200''"
| "tty_rate_str B0 = ''unsupported_rate''"

datatype parity_t = PARITY_none | PARITY_odd | PARITY_even

fun tty_parity_str :: "parity_t \<Rightarrow> string" where
  "tty_parity_str PARITY_none = ''N''"
| "tty_parity_str PARITY_even = ''E''"
| "tty_parity_str PARITY_odd = ''O''"

section \<open>A line that takes everything at once\<close>

lemma load_from_ok: "j + n \<le> length buf \<Longrightarrow> load_from buf (int j) n = Inr (take n (drop j buf))"
proof (induction n arbitrary: j)
  case (Suc n)
  then have "load_from buf (int j + 1) n = Inr (take n (drop (Suc j) buf))"
    using Suc.IH [of "Suc j"] by (simp add: add.commute)
  moreover have "drop j buf = buf ! j # drop (Suc j) buf"
    using Suc.prems by (simp add: Cons_nth_drop_Suc)
  ultimately show ?case using Suc.prems by (simp add: load_ok)
qed simp

lemma sys_write_all:
  assumes "calls w = Write_ret n # cs" and "length buf \<le> n"
  shows "sys_write w buf 0 = Inr (w\<lparr>calls := cs, wire := wire w @ buf\<rparr>, int (length buf))"
  using assms load_from_ok [of 0 "length buf" buf] by (simp add: sys_write_def Let_def)

lemma tty_write_at_once:
  assumes "calls w = Poll_ret 1 True False # Write_ret n # cs" and "length buf \<le> n"
    and "buf \<noteq> []" and "0 \<le> timeout"
  shows "\<exists>w'. tty_write w buf timeout False = Inr (w', int (length buf), False) \<and>
    wire w' = wire w @ buf \<and> calls w' = cs \<and> clock w' = stl (stl (clock w))"
proof -
  let ?w = "snd (timestamp_us w)"
  let ?v = "snd (timestamp_us (?w\<lparr>calls := Write_ret n # cs\<rparr>))"
  have "sys_poll ?w False False = Inr (?w\<lparr>calls := Write_ret n # cs\<rparr>, 1, True, False)"
    using assms(1) by (simp add: sys_poll_def)
  moreover have "tty_write_ready ?v buf 0 = Inr (?v\<lparr>calls := cs, wire := wire w @ buf\<rparr>, int (length buf))"
    using sys_write_all [of ?v n cs buf] assms(2,3) by (simp add: tty_write_ready_def)
  ultimately show ?thesis
    using assms(3,4)
    by (simp add: tty_write_def Let_def split_beta tty_write_loop.simps [of _ _ 0]
        tty_write_loop.simps [of _ _ "int (length buf)"]) (simp add: timestamp_us_def)
qed

end
