(* ===== verification/Crc16.thy ===== *)
theory Crc16
  imports Modbus_Prelude
begin

text \<open>
  The CRC-16 engines: the table-driven one of \<open>linux/crc.c\<close>, its bitwise
  \<open>crc16_update\<close>, and the bitwise one of \<open>stm32f103c8/crc.c\<close>.
  The reference is \<open>crc16\<close>, the bit-serial CRC with the reflected polynomial 0xA001.
\<close>

section \<open>The code\<close>

record modbus_rtu_crc =
  crc_low :: u8
  crc_high :: u8

definition CRC_TO_WORD :: "modbus_rtu_crc \<Rightarrow> u16" where
  "CRC_TO_WORD crc = MAKE_WORD (crc_low crc) (crc_high crc)"

definition word_to_modbus_rtu_crc :: "u16 \<Rightarrow> modbus_rtu_crc" where
  "word_to_modbus_rtu_crc word = \<lparr>crc_low = LOW_BYTE word, crc_high = HIGH_BYTE word\<rparr>"

text \<open>One iteration of the shift loop, and the loop \<open>for (i = 0; i < 8; ++i)\<close>.\<close>

definition crc_shift :: "u16 \<Rightarrow> u16" where
  "crc_shift crc = (if crc AND 1 \<noteq> 0 then drop_bit 1 crc XOR 0xA001 else drop_bit 1 crc)"

definition crc16_update :: "modbus_rtu_crc \<Rightarrow> u8 \<Rightarrow> modbus_rtu_crc" where
  "crc16_update crc data =
     (let crc16 = (crc_shift ^^ 8) (CRC_TO_WORD crc XOR ucast data)
      in \<lparr>crc_low = LOW_BYTE crc16, crc_high = HIGH_BYTE crc16\<rparr>)"

definition hcrc16 :: "u8 list" where
  "hcrc16 = [
    0x00, 0xC1, 0x81, 0x40, 0x01, 0xC0, 0x80, 0x41, 0x01, 0xC0, 0x80, 0x41,
    0x00, 0xC1, 0x81, 0x40, 0x01, 0xC0, 0x80, 0x41, 0x00, 0xC1, 0x81, 0x40,
    0x00, 0xC1, 0x81, 0x40, 0x01, 0xC0, 0x80, 0x41, 0x01, 0xC0, 0x80, 0x41,
    0x00, 0xC1, 0x81, 0x40, 0x00, 0xC1, 0x81, 0x40, 0x01, 0xC0, 0x80, 0x41,
    0x00, 0xC1, 0x81, 0x40, 0x01, 0xC0, 0x80, 0x41, 0x01, 0xC0, 0x80, 0x41,
    0x00, 0xC1, 0x81, 0x40, 0x01, 0xC0, 0x80, 0x41, 0x00, 0xC1, 0x81, 0x40,
    0x00, 0xC1, 0x81, 0x40, 0x01, 0xC0, 0x80, 0x41, 0x00, 0xC1, 0x81, 0x40,
    0x01, 0xC0, 0x80, 0x41, 0x01, 0xC0, 0x80, 0x41, 0x00, 0xC1, 0x81, 0x40,
    0x00, 0xC1, 0x81, 0x40, 0x01, 0xC0, 0x80, 0x41, 0x01, 0xC0, 0x80, 0x41,
    0x00, 0xC1, 0x81, 0x40, 0x01, 0xC0, 0x80, 0x41, 0x00, 0xC1, 0x81, 0x40,
    0x00, 0xC1, 0x81, 0x40, 0x01, 0xC0, 0x80, 0x41, 0x01, 0xC0, 0x80, 0x41,
    0x00, 0xC1, 0x81, 0x40, 0x00, 0xC1, 0x81, 0x40, 0x01, 0xC0, 0x80, 0x41,
    0x00, 0xC1, 0x81, 0x40, 0x01, 0xC0, 0x80, 0x41, 0x01, 0xC0, 0x80, 0x41,
    0x00, 0xC1, 0x81, 0x40, 0x00, 0xC1, 0x81, 0x40, 0x01, 0xC0, 0x80, 0x41,
    0x01, 0xC0, 0x80, 0x41, 0x00, 0xC1, 0x81, 0x40, 0x01, 0xC0, 0x80, 0x41,
    0x00, 0xC1, 0x81, 0x40, 0x00, 0xC1, 0x81, 0x40, 0x01, 0xC0, 0x80, 0x41,
    0x00, 0xC1, 0x81, 0x40, 0x01, 0xC0, 0x80, 0x41, 0x01, 0xC0, 0x80, 0x41,
    0x00, 0xC1, 0x81, 0x40, 0x01, 0xC0, 0x80, 0x41, 0x00, 0xC1, 0x81, 0x40,
    0x00, 0xC1, 0x81, 0x40, 0x01, 0xC0, 0x80, 0x41, 0x01, 0xC0, 0x80, 0x41,
    0x00, 0xC1, 0x81, 0x40, 0x00, 0xC1, 0x81, 0x40, 0x01, 0xC0, 0x80, 0x41,
    0x00, 0xC1, 0x81, 0x40, 0x01, 0xC0, 0x80, 0x41, 0x01, 0xC0, 0x80, 0x41,
    0x00, 0xC1, 0x81, 0x40]"

definition lcrc16 :: "u8 list" where
  "lcrc16 = [
    0x00, 0xC0, 0xC1, 0x01, 0xC3, 0x03, 0x02, 0xC2, 0xC6, 0x06, 0x07, 0xC7,
    0x05, 0xC5, 0xC4, 0x04, 0xCC, 0x0C, 0x0D, 0xCD, 0x0F, 0xCF, 0xCE, 0x0E,
    0x0A, 0xCA, 0xCB, 0x0B, 0xC9, 0x09, 0x08, 0xC8, 0xD8, 0x18, 0x19, 0xD9,
    0x1B, 0xDB, 0xDA, 0x1A, 0x1E, 0xDE, 0xDF, 0x1F, 0xDD, 0x1D, 0x1C, 0xDC,
    0x14, 0xD4, 0xD5, 0x15, 0xD7, 0x17, 0x16, 0xD6, 0xD2, 0x12, 0x13, 0xD3,
    0x11, 0xD1, 0xD0, 0x10, 0xF0, 0x30, 0x31, 0xF1, 0x33, 0xF3, 0xF2, 0x32,
    0x36, 0xF6, 0xF7, 0x37, 0xF5, 0x35, 0x34, 0xF4, 0x3C, 0xFC, 0xFD, 0x3D,
    0xFF, 0x3F, 0x3E, 0xFE, 0xFA, 0x3A, 0x3B, 0xFB, 0x39, 0xF9, 0xF8, 0x38,
    0x28, 0xE8, 0xE9, 0x29, 0xEB, 0x2B, 0x2A, 0xEA, 0xEE, 0x2E, 0x2F, 0xEF,
    0x2D, 0xED, 0xEC, 0x2C, 0xE4, 0x24, 0x25, 0xE5, 0x27, 0xE7, 0xE6, 0x26,
    0x22, 0xE2, 0xE3, 0x23, 0xE1, 0x21, 0x20, 0xE0, 0xA0, 0x60, 0x61, 0xA1,
    0x63, 0xA3, 0xA2, 0x62, 0x66, 0xA6, 0xA7, 0x67, 0xA5, 0x65, 0x64, 0xA4,
    0x6C, 0xAC, 0xAD, 0x6D, 0xAF, 0x6F, 0x6E, 0xAE, 0xAA, 0x6A, 0x6B, 0xAB,
    0x69, 0xA9, 0xA8, 0x68, 0x78, 0xB8, 0xB9, 0x79, 0xBB, 0x7B, 0x7A, 0xBA,
    0xBE, 0x7E, 0x7F, 0xBF, 0x7D, 0xBD, 0xBC, 0x7C, 0xB4, 0x74, 0x75, 0xB5,
    0x77, 0xB7, 0xB6, 0x76, 0x72, 0xB2, 0xB3, 0x73, 0xB1, 0x71, 0x70, 0xB0,
    0x50, 0x90, 0x91, 0x51, 0x93, 0x53, 0x52, 0x92, 0x96, 0x56, 0x57, 0x97,
    0x55, 0x95, 0x94, 0x54, 0x9C, 0x5C, 0x5D, 0x9D, 0x5F, 0x9F, 0x9E, 0x5E,
    0x5A, 0x9A, 0x9B, 0x5B, 0x99, 0x59, 0x58, 0x98, 0x88, 0x48, 0x49, 0x89,
    0x4B, 0x8B, 0x8A, 0x4A, 0x4E, 0x8E, 0x8F, 0x4F, 0x8D, 0x4D, 0x4C, 0x8C,
    0x44, 0x84, 0x85, 0x45, 0x87, 0x47, 0x46, 0x86, 0x82, 0x42, 0x43, 0x83,
    0x41, 0x81, 0x80, 0x40]"

text \<open>The loop \<open>while (begin != end)\<close> of \<open>modbus_rtu_calc_crc\<close>, on the bytes of the range.\<close>

fun calc_crc_loop :: "u8 \<Rightarrow> u8 \<Rightarrow> u8 list \<Rightarrow> modbus_rtu_crc" where
  "calc_crc_loop low high [] = \<lparr>crc_low = low, crc_high = high\<rparr>"
| "calc_crc_loop low high (b # bs) =
     (let i = unat (low XOR b) in calc_crc_loop (high XOR hcrc16 ! i) (lcrc16 ! i) bs)"

text \<open>The argument is \<open>None\<close> when \<open>begin\<close> or \<open>end\<close> is NULL.\<close>

definition modbus_rtu_calc_crc :: "u8 list option \<Rightarrow> modbus_rtu_crc" where
  "modbus_rtu_calc_crc bytes =
     (case bytes of
        None \<Rightarrow> \<lparr>crc_low = 0xFF, crc_high = 0xFF\<rparr>
      | Some bs \<Rightarrow> calc_crc_loop 0xFF 0xFF bs)"

text \<open>\<open>stm32f103c8/crc.c\<close>: the register is one \<open>uint16_t\<close>.\<close>

definition stm32_crc16_update :: "u16 \<Rightarrow> u8 \<Rightarrow> u16" where
  "stm32_crc16_update crc data = (crc_shift ^^ 8) (crc XOR ucast data)"

definition stm32_calc_crc :: "u8 list \<Rightarrow> u16" where
  "stm32_calc_crc bs = foldl stm32_crc16_update 0xFFFF bs"

section \<open>The reference\<close>

definition crc_byte :: "u16 \<Rightarrow> u8 \<Rightarrow> u16" where
  "crc_byte crc b = (crc_shift ^^ 8) (crc XOR ucast b)"

definition crc16 :: "u8 list \<Rightarrow> u16" where
  "crc16 bs = foldl crc_byte 0xFFFF bs"

subsection \<open>The shift register is linear and injective\<close>

lemma odd_bit_0: "(w :: u16) AND 1 \<noteq> 0 \<longleftrightarrow> bit w 0"
  by (simp add: and_one_eq odd_iff_mod_2_eq_one [symmetric] bit_0)

lemma crc_shift_alt:
  "crc_shift w = drop_bit 1 w XOR (if bit w 0 then 0xA001 else 0)"
  by (simp add: crc_shift_def odd_bit_0)

lemma crc_shift_xor: "crc_shift (a XOR b) = crc_shift a XOR crc_shift b"
  by (simp add: crc_shift_alt bit_xor_iff ac_simps)

lemma crc_shift_0 [simp]: "crc_shift 0 = 0"
  by (simp add: crc_shift_alt)

lemma crc_shift_eq_0: "crc_shift w = 0 \<longleftrightarrow> w = 0"
proof
  assume z: "crc_shift w = 0"
  have top: "bit (crc_shift w) 15 \<longleftrightarrow> bit w 0"
    by (auto simp: crc_shift_alt bit_simps dest: bit_imp_le_length)
  with z have "\<not> bit w 0" by simp
  with z have z1: "drop_bit 1 w = 0" by (simp add: crc_shift_alt)
  have "\<not> bit w n" for n
  proof (cases n)
    case (Suc m)
    have "\<not> bit (drop_bit 1 w) m" unfolding z1 by simp
    with Suc show ?thesis by (simp only: bit_drop_bit_eq comp_apply plus_1_eq_Suc) simp
  qed (use \<open>\<not> bit w 0\<close> in simp)
  then show "w = 0" by (intro bit_word_eqI) simp
qed simp

lemma crc_shifts_xor: "(crc_shift ^^ n) (a XOR b) = (crc_shift ^^ n) a XOR (crc_shift ^^ n) b"
  by (induction n) (simp_all add: crc_shift_xor)

lemma crc_shifts_eq_0: "(crc_shift ^^ n) w = 0 \<longleftrightarrow> w = 0"
  by (induction n) (simp_all add: crc_shift_eq_0)

lemma xor_eq_0_iff: "(a :: u16) XOR b = 0 \<longleftrightarrow> a = b"
  by (metis xor.assoc xor.left_neutral xor_self_eq)

lemma crc_shifts_inject: "(crc_shift ^^ n) a = (crc_shift ^^ n) b \<longleftrightarrow> a = b"
  by (metis crc_shifts_eq_0 crc_shifts_xor xor_eq_0_iff)

lemma xor_right_cancel: "(a :: u16) XOR x = c XOR x \<longleftrightarrow> a = c"
proof
  assume "a XOR x = c XOR x"
  then have "(a XOR x) XOR x = (c XOR x) XOR x" by (rule arg_cong)
  then show "a = c" by (simp only: xor.assoc xor_self_eq xor.right_neutral)
qed simp

lemma crc_byte_inject: "crc_byte a b = crc_byte c b \<longleftrightarrow> a = c"
  by (simp add: crc_byte_def crc_shifts_inject xor_right_cancel)

lemma foldl_crc_byte_inject: "foldl crc_byte a bs = foldl crc_byte c bs \<longleftrightarrow> a = c"
  by (induction bs arbitrary: a c) (simp_all add: crc_byte_inject)

subsection \<open>Eight shifts move the high byte down\<close>

lemma crc_shift_push:
  assumes "0 < j" and "j \<le> 8"
  shows "crc_shift (push_bit j (ucast (b :: u8))) = push_bit (j - 1) (ucast b)"
proof (rule bit_word_eqI)
  fix n :: nat
  assume "n < LENGTH(16)"
  then have n: "n < 16" by simp
  have "\<not> bit (push_bit j (ucast b) :: u16) 0"
    using assms(1) by (simp add: bit_simps)
  with assms(1) have "bit (crc_shift (push_bit j (ucast b))) n = bit (push_bit j (ucast b) :: u16) (Suc n)"
    by (simp add: crc_shift_alt bit_simps)
  also have "\<dots> = bit (push_bit (j - 1) (ucast b) :: u16) n"
    using assms n by (auto simp: bit_simps Suc_diff_le dest: bit_imp_le_length)
  finally show "bit (crc_shift (push_bit j (ucast b))) n = bit (push_bit (j - 1) (ucast b) :: u16) n" .
qed

lemma crc_shifts_push: "k \<le> 8 \<Longrightarrow> (crc_shift ^^ k) (push_bit k (ucast (b :: u8))) = ucast b"
proof (induction k)
  case (Suc k)
  then have "crc_shift (push_bit (Suc k) (ucast b)) = push_bit k (ucast b)"
    using crc_shift_push [of "Suc k" b] by simp
  with Suc show ?case
    by (simp add: funpow_Suc_right del: funpow.simps push_bit_Suc)
qed simp

lemma crc_shifts_8_push: "(crc_shift ^^ 8) (push_bit 8 (ucast (b :: u8))) = ucast b"
  by (simp add: crc_shifts_push)

lemma MAKE_WORD_xor_parts: "MAKE_WORD l h = ucast l XOR push_bit 8 (ucast h)"
  by (rule bit_word_eqI) (auto simp: bit_MAKE_WORD bit_simps dest: bit_imp_le_length)

lemma MAKE_WORD_xor: "MAKE_WORD l h XOR MAKE_WORD l' h' = MAKE_WORD (l XOR l') (h XOR h')"
  by (rule bit_word_eqI) (auto simp: bit_MAKE_WORD bit_simps)

lemma crc_byte_parts:
  "crc_byte (MAKE_WORD low high) b = ucast high XOR (crc_shift ^^ 8) (ucast (low XOR b))"
proof -
  have "MAKE_WORD low high XOR ucast b = push_bit 8 (ucast high) XOR ucast (low XOR b)"
    by (rule bit_word_eqI) (auto simp: bit_MAKE_WORD bit_simps dest: bit_imp_le_length)
  then show ?thesis
    by (simp add: crc_byte_def crc_shifts_xor crc_shifts_8_push)
qed

text \<open>Two bytes at once: sixteen shifts of the register mixed with both of them.\<close>

lemma crc_byte_byte: "crc_byte (crc_byte c l) h = (crc_shift ^^ 16) (c XOR MAKE_WORD l h)"
proof -
  have "(crc_shift ^^ (8 + 8)) x = (crc_shift ^^ 8) ((crc_shift ^^ 8) x)" for x
    by (simp only: funpow_add comp_apply)
  then have split: "(crc_shift ^^ 16) x = (crc_shift ^^ 8) ((crc_shift ^^ 8) x)" for x
    by simp
  show ?thesis
    by (simp add: crc_byte_def split MAKE_WORD_xor_parts crc_shifts_xor crc_shifts_8_push
        xor.assoc)
qed

section \<open>The tables\<close>

text \<open>
  By linearity the entry of \<open>16 a + b\<close> is the entry of \<open>16 a\<close> mixed with the entry of
  \<open>b\<close>, so the tables are checked against sixteen entries of each kind.
\<close>

definition hcrc_rows :: "u8 list" where
  "hcrc_rows = [0x00, 0x01, 0x01, 0x00, 0x01, 0x00, 0x00, 0x01,
                0x01, 0x00, 0x00, 0x01, 0x00, 0x01, 0x01, 0x00]"

definition hcrc_cols :: "u8 list" where
  "hcrc_cols = [0x00, 0xC1, 0x81, 0x40, 0x01, 0xC0, 0x80, 0x41,
                0x01, 0xC0, 0x80, 0x41, 0x00, 0xC1, 0x81, 0x40]"

definition lcrc_rows :: "u8 list" where
  "lcrc_rows = [0x00, 0xCC, 0xD8, 0x14, 0xF0, 0x3C, 0x28, 0xE4,
                0xA0, 0x6C, 0x78, 0xB4, 0x50, 0x9C, 0x88, 0x44]"

definition lcrc_cols :: "u8 list" where
  "lcrc_cols = [0x00, 0xC0, 0xC1, 0x01, 0xC3, 0x03, 0x02, 0xC2,
                0xC6, 0x06, 0x07, 0xC7, 0x05, 0xC5, 0xC4, 0x04]"

lemma nth_concat_rows:
  "i < length xs * length ys \<Longrightarrow>
   concat (map (\<lambda>a. map (f a) ys) xs) ! i = f (xs ! (i div length ys)) (ys ! (i mod length ys))"
proof (induction xs arbitrary: i)
  case (Cons x xs)
  show ?case
  proof (cases "i < length ys")
    case False
    then have "i div length ys = Suc ((i - length ys) div length ys)"
      and "i mod length ys = (i - length ys) mod length ys"
      using Cons.prems by (cases ys; simp add: le_div_geq le_mod_geq)+
    with False Cons show ?thesis by (simp add: nth_append)
  qed (simp add: nth_append)
qed simp

lemma hcrc16_rows: "hcrc16 = concat (map (\<lambda>a. map (\<lambda>b. a XOR b) hcrc_cols) hcrc_rows)"
  by (simp add: hcrc16_def hcrc_rows_def hcrc_cols_def)

lemma lcrc16_rows: "lcrc16 = concat (map (\<lambda>a. map (\<lambda>b. a XOR b) lcrc_cols) lcrc_rows)"
  by (simp add: lcrc16_def lcrc_rows_def lcrc_cols_def)

lemma hcrc16_nth: "i < 256 \<Longrightarrow> hcrc16 ! i = hcrc_rows ! (i div 16) XOR hcrc_cols ! (i mod 16)"
  using nth_concat_rows [of i hcrc_rows hcrc_cols "\<lambda>a b. a XOR b"]
  by (simp add: hcrc16_rows) (simp add: hcrc_rows_def hcrc_cols_def)

lemma lcrc16_nth: "i < 256 \<Longrightarrow> lcrc16 ! i = lcrc_rows ! (i div 16) XOR lcrc_cols ! (i mod 16)"
  using nth_concat_rows [of i lcrc_rows lcrc_cols "\<lambda>a b. a XOR b"]
  by (simp add: lcrc16_rows) (simp add: lcrc_rows_def lcrc_cols_def)

lemma crc_shift_numeral:
  "crc_shift (numeral k) =
     (if numeral k AND 1 \<noteq> (0 :: u16) then drop_bit 1 (numeral k) XOR 0xA001
      else drop_bit 1 (numeral k))"
  "crc_shift 1 = 0xA001"
  by (simp_all add: crc_shift_def)

lemma crc_shift_8_unfold:
  "(crc_shift ^^ 8) w =
   crc_shift (crc_shift (crc_shift (crc_shift (crc_shift (crc_shift (crc_shift (crc_shift w)))))))"
  by (simp add: numeral_eq_Suc)

lemma upt_0_16: "[0..<16] = [0, 1, 2, 3, 4, 5, 6, 7, 8, 9, 10, 11, 12, 13, 14, 15]"
  by (simp add: upt_rec)

lemma crc_cols:
  "map (\<lambda>b. (crc_shift ^^ 8) (word_of_nat b)) [0..<16] = map2 MAKE_WORD hcrc_cols lcrc_cols"
  by (simp add: upt_0_16 crc_shift_8_unfold crc_shift_numeral hcrc_cols_def lcrc_cols_def
      MAKE_WORD_def)

lemma crc_rows:
  "map (\<lambda>a. (crc_shift ^^ 8) (word_of_nat (16 * a))) [0..<16] = map2 MAKE_WORD hcrc_rows lcrc_rows"
  by (simp add: upt_0_16 crc_shift_8_unfold crc_shift_numeral hcrc_rows_def lcrc_rows_def
      MAKE_WORD_def)

lemma word_of_nat_nibbles:
  assumes "b < 16"
  shows "(word_of_nat (16 * a + b) :: u16) = word_of_nat (16 * a) XOR word_of_nat b"
proof -
  have b: "take_bit 4 b = b"
    using assms by (simp add: take_bit_nat_eq_self_iff)
  have "bit b n \<Longrightarrow> n < 4" for n
    by (subst (asm) b [symmetric]) (simp add: bit_take_bit_iff)
  moreover have "bit (16 * a) n \<Longrightarrow> 4 \<le> n" for n
    using bit_push_bit_iff [of 4 a n] by (simp add: push_bit_eq_mult mult.commute)
  ultimately have "16 * a AND b = 0"
    by (intro bit_eqI) (simp add: bit_and_iff, meson leD)
  then have "16 * a + b = 16 * a XOR b"
    by (rule disjunctive_add_eq_xor)
  then show ?thesis by (metis of_nat_xor_eq)
qed

lemma length_crc_parts [simp]:
  "length hcrc_cols = 16" "length lcrc_cols = 16" "length hcrc_rows = 16" "length lcrc_rows = 16"
  by (simp_all add: hcrc_cols_def lcrc_cols_def hcrc_rows_def lcrc_rows_def)

lemma crc_table_entry:
  assumes "i < 256"
  shows "MAKE_WORD (hcrc16 ! i) (lcrc16 ! i) = (crc_shift ^^ 8) (word_of_nat i)"
proof -
  let ?a = "i div 16" and ?b = "i mod 16"
  have a: "?a < 16" and b: "?b < 16" using assms by simp_all
  have "(crc_shift ^^ 8) (word_of_nat ?b) = MAKE_WORD (hcrc_cols ! ?b) (lcrc_cols ! ?b)"
    using b arg_cong [OF crc_cols, of "\<lambda>xs. xs ! ?b"] by simp
  moreover have "(crc_shift ^^ 8) (word_of_nat (16 * ?a)) = MAKE_WORD (hcrc_rows ! ?a) (lcrc_rows ! ?a)"
    using a arg_cong [OF crc_rows, of "\<lambda>xs. xs ! ?a"] by simp
  moreover have "(word_of_nat i :: u16) = word_of_nat (16 * ?a) XOR word_of_nat ?b"
    using word_of_nat_nibbles [OF b, of ?a] by simp
  moreover have "MAKE_WORD (hcrc16 ! i) (lcrc16 ! i)
      = MAKE_WORD (hcrc_rows ! ?a) (lcrc_rows ! ?a) XOR MAKE_WORD (hcrc_cols ! ?b) (lcrc_cols ! ?b)"
    by (simp add: hcrc16_nth lcrc16_nth assms MAKE_WORD_xor)
  ultimately show ?thesis by (simp add: crc_shifts_xor)
qed

text \<open>So one step of the table loop is one step of the reference.\<close>

lemma calc_crc_step:
  "MAKE_WORD (high XOR hcrc16 ! unat (low XOR b)) (lcrc16 ! unat (low XOR b))
   = crc_byte (MAKE_WORD low high) b"
proof -
  let ?i = "unat (low XOR b)"
  have "MAKE_WORD (high XOR hcrc16 ! ?i) (lcrc16 ! ?i)
      = ucast high XOR MAKE_WORD (hcrc16 ! ?i) (lcrc16 ! ?i)"
    by (rule bit_word_eqI) (auto simp: bit_MAKE_WORD bit_simps dest: bit_imp_le_length)
  also have "\<dots> = ucast high XOR (crc_shift ^^ 8) (ucast (low XOR b))"
    by (simp add: crc_table_entry unsigned_of_nat [symmetric])
  finally show ?thesis by (simp add: crc_byte_parts)
qed

lemma calc_crc_loop_eq: "CRC_TO_WORD (calc_crc_loop low high bs) = foldl crc_byte (MAKE_WORD low high) bs"
  by (induction low high bs rule: calc_crc_loop.induct)
    (simp_all add: CRC_TO_WORD_def Let_def calc_crc_step)

lemma calc_crc_eq: "CRC_TO_WORD (modbus_rtu_calc_crc (Some bs)) = crc16 bs"
  by (simp add: modbus_rtu_calc_crc_def calc_crc_loop_eq crc16_def)
    (simp add: MAKE_WORD_def)

lemma crc16_update_eq: "CRC_TO_WORD (crc16_update crc b) = crc_byte (CRC_TO_WORD crc) b"
  by (simp add: crc16_update_def Let_def crc_byte_def CRC_TO_WORD_def)

lemma CRC_TO_WORD_inject: "CRC_TO_WORD a = CRC_TO_WORD b \<longleftrightarrow> a = b"
  by (auto simp: CRC_TO_WORD_def)

lemma stm32_calc_crc_eq: "stm32_calc_crc bs = crc16 bs"
proof -
  have "stm32_crc16_update = crc_byte"
    by (intro ext) (simp add: stm32_crc16_update_def crc_byte_def)
  then show ?thesis by (simp add: stm32_calc_crc_def crc16_def)
qed

section \<open>What the users of a CRC engine rely on\<close>

text \<open>A frame carries its CRC in its last two bytes, low byte first.\<close>

definition crc_frame_ok :: "(u8 list \<Rightarrow> u16) \<Rightarrow> u8 list \<Rightarrow> bool" where
  "crc_frame_ok calc f =
     (2 \<le> length f \<and>
      calc (take (length f - 2) f) = MAKE_WORD (f ! (length f - 2)) (f ! (length f - 1)))"

locale crc_engine =
  fixes calc :: "u8 list \<Rightarrow> u16"
  assumes calc_Nil: "calc [] = 0xFFFF"
    and calc_snoc: "calc (bs @ [b]) = crc_byte (calc bs) b"
begin

lemma calc_append: "calc (xs @ ys) = foldl crc_byte (calc xs) ys"
  by (induction ys rule: rev_induct) (simp_all add: calc_snoc flip: append_assoc)

lemma calc_unique: "calc bs = crc16 bs"
  using calc_append [of "[]" bs] by (simp add: calc_Nil crc16_def)

lemma calc_two: "calc (xs @ [x, y]) = (crc_shift ^^ 16) (calc xs XOR MAKE_WORD x y)"
  by (simp add: calc_append crc_byte_byte)

text \<open>A frame is good exactly when the CRC of the whole frame is zero.\<close>

lemma residue: "calc (bs @ [l, h]) = 0 \<longleftrightarrow> calc bs = MAKE_WORD l h"
  by (simp add: calc_two crc_shifts_eq_0 xor_eq_0_iff)

lemma frame_ok_append: "crc_frame_ok calc (bs @ [l, h]) \<longleftrightarrow> calc bs = MAKE_WORD l h"
  by (simp add: crc_frame_ok_def nth_append)

lemma frame_ok_residue: "2 \<le> length f \<Longrightarrow> crc_frame_ok calc f \<longleftrightarrow> calc f = 0"
proof -
  assume two: "2 \<le> length f"
  then obtain bs h where f: "f = bs @ [h]"
    by (cases f rule: rev_cases) auto
  with two obtain as l where "bs = as @ [l]"
    by (cases bs rule: rev_cases) auto
  with f have "f = as @ [l, h]" by simp
  then show ?thesis by (simp add: frame_ok_append residue)
qed

text \<open>Two adjacent bytes changed in any way never leave the CRC as it was.\<close>

lemma burst_changes_crc:
  assumes "(x, y) \<noteq> (x', y')"
  shows "calc (pre @ [x, y] @ post) \<noteq> calc (pre @ [x', y'] @ post)"
  using assms
  by (simp add: calc_append foldl_crc_byte_inject crc_byte_byte crc_shifts_inject
      xor.commute [of "foldl crc_byte (calc pre) []"] xor.commute [of "calc pre"] xor_right_cancel)

lemma burst_detected:
  assumes "crc_frame_ok calc (pre @ [x, y] @ post)" and "(x, y) \<noteq> (x', y')"
  shows "\<not> crc_frame_ok calc (pre @ [x', y'] @ post)"
  using assms burst_changes_crc [OF assms(2), of pre post] by (simp add: frame_ok_residue)

end

interpretation linux_crc: crc_engine "\<lambda>bs. CRC_TO_WORD (modbus_rtu_calc_crc (Some bs))"
  by unfold_locales (simp_all add: calc_crc_eq crc16_def)

interpretation stm32_crc: crc_engine stm32_calc_crc
  by unfold_locales (simp_all add: stm32_calc_crc_eq crc16_def)

section \<open>Properties\<close>

text \<open>
  C14: the table-driven CRC of \<open>linux/crc.c\<close> is the fold of the bitwise
  \<open>crc16_update\<close> of the same file over the bytes, from the register 0xFFFF.
\<close>

theorem table_crc_is_bitwise_crc:
  "modbus_rtu_calc_crc (Some bs) = foldl crc16_update \<lparr>crc_low = 0xFF, crc_high = 0xFF\<rparr> bs"
proof -
  have "CRC_TO_WORD (foldl crc16_update c bs) = foldl crc_byte (CRC_TO_WORD c) bs" for c
    by (induction bs arbitrary: c) (simp_all add: crc16_update_eq)
  then have "CRC_TO_WORD (foldl crc16_update \<lparr>crc_low = 0xFF, crc_high = 0xFF\<rparr> bs) = crc16 bs"
    by (simp add: crc16_def) (simp add: CRC_TO_WORD_def MAKE_WORD_def)
  then show ?thesis by (metis CRC_TO_WORD_inject calc_crc_eq)
qed

text \<open>
  The CRC a Linux master computes and the one an STM32 slave computes are the same word for every
  byte string, so frames of one platform are accepted by the other.
\<close>

lemma stm32_crc_is_linux_crc: "word_to_modbus_rtu_crc (stm32_calc_crc bs) = modbus_rtu_calc_crc (Some bs)"
proof -
  have "CRC_TO_WORD (word_to_modbus_rtu_crc w) = w" for w
    by (simp add: CRC_TO_WORD_def word_to_modbus_rtu_crc_def)
  then show ?thesis
    by (metis CRC_TO_WORD_inject linux_crc.calc_unique stm32_crc.calc_unique)
qed

end
