(* ===== verification/Rtu.thy ===== *)
theory Rtu
  imports Crc16
begin

text \<open>
  The RTU slave state machine, \<open>rtu.c\<close> and the data types of \<open>rtu.h\<close>.

  \<open>modbus_rtu_state\<close> is the C struct of that name without its function pointers: those
  the core installs itself (\<open>serial_recv_cb\<close>, \<open>serial_recv_err_cb\<close>,
  \<open>serial_sent_cb\<close>) are the functions below, \<open>timer_cb\<close> points to one of two
  functions or is NULL, and those a platform supplies are the fields of the record
  \<open>platform\<close>, passed to every function that calls one. The pointer \<open>user_data\<close> is
  modelled by the data it points to, of type \<open>'p\<close>; \<open>rxbuf_curr\<close> and
  \<open>txbuf_curr\<close> are offsets into their buffers. Logging is left out.
\<close>

section \<open>Data types (\<open>rtu.h\<close>)\<close>

definition ADU_CAPACITY :: nat where "ADU_CAPACITY = 256"
definition ADU_MIN_SIZE :: nat where "ADU_MIN_SIZE = 1 + 1 + 2"

text \<open>Without \<open>MODBUS_RXBUF_CAPACITY\<close> and \<open>MODBUS_TXBUF_CAPACITY\<close>, as all builds are.\<close>

definition RXBUF_CAPACITY :: nat where "RXBUF_CAPACITY = ADU_CAPACITY"
definition TXBUF_CAPACITY :: nat where "TXBUF_CAPACITY = ADU_CAPACITY"

text \<open>The enumerators, at the width of the bit fields \<open>prev\<close> and \<open>curr\<close>.\<close>

type_synonym rtu_state = "3 word"

abbreviation RTU_STATE_INIT :: rtu_state where "RTU_STATE_INIT \<equiv> 0"
abbreviation RTU_STATE_IDLE :: rtu_state where "RTU_STATE_IDLE \<equiv> 1"
abbreviation RTU_STATE_SOF :: rtu_state where "RTU_STATE_SOF \<equiv> 2"
abbreviation RTU_STATE_RECV :: rtu_state where "RTU_STATE_RECV \<equiv> 3"
abbreviation RTU_STATE_EOF :: rtu_state where "RTU_STATE_EOF \<equiv> 4"
abbreviation RTU_STATE_BUSY :: rtu_state where "RTU_STATE_BUSY \<equiv> 5"

record modbus_rtu_status =
  updated :: bool
  st_error :: bool
  st_prev :: rtu_state
  st_curr :: rtu_state

definition RTU_STATE_UPDATE :: "modbus_rtu_status \<Rightarrow> rtu_state \<Rightarrow> modbus_rtu_status" where
  "RTU_STATE_UPDATE st new = st\<lparr>updated := True, st_prev := st_curr st, st_curr := new\<rparr>"

definition RTU_STATE_ERROR :: "modbus_rtu_status \<Rightarrow> modbus_rtu_status" where
  "RTU_STATE_ERROR st = st\<lparr>updated := True, st_error := True\<rparr>"

datatype timer_fn = Timer_silent_interval_cb | Timer_inter_frame_timeout_cb

record 'p modbus_rtu_state =
  timer_cb :: "timer_fn option"
  rxbuf :: "u8 list"
  rxbuf_curr :: nat
  txbuf :: "u8 list"
  txbuf_curr :: nat
  user_data :: 'p
  err_cntr :: u8
  serial_recv_err_cntr :: u8
  crc_err_cntr :: u8
  status :: modbus_rtu_status

text \<open>
  What a platform supplies. \<open>pdu_cb\<close> takes address, function code, the offsets
  \<open>begin\<close>, \<open>end\<close> and \<open>curr\<close> into \<open>rxbuf\<close> and \<open>dst_begin\<close>,
  \<open>dst_end\<close> into \<open>txbuf\<close>; it returns the state and the end of its reply.
  \<open>calc_crc\<close> is the \<open>modbus_rtu_calc_crc\<close> the platform is linked with (\<open>crc.h\<close>).
\<close>

record 'p platform =
  timer_start_1t5 :: "'p modbus_rtu_state \<Rightarrow> 'p modbus_rtu_state res"
  timer_start_3t5 :: "'p modbus_rtu_state \<Rightarrow> 'p modbus_rtu_state res"
  timer_stop :: "'p modbus_rtu_state \<Rightarrow> 'p modbus_rtu_state res"
  timer_reset :: "'p modbus_rtu_state \<Rightarrow> 'p modbus_rtu_state res"
  serial_send :: "'p modbus_rtu_state \<Rightarrow> 'p modbus_rtu_state res"
  pdu_cb :: "'p modbus_rtu_state \<Rightarrow> u8 \<Rightarrow> u8 \<Rightarrow> nat \<Rightarrow> nat \<Rightarrow> nat \<Rightarrow> nat \<Rightarrow> nat
             \<Rightarrow> ('p modbus_rtu_state \<times> nat) res"
  suspend_cb :: "('p \<Rightarrow> 'p) option"
  resume_cb :: "('p \<Rightarrow> 'p) option"
  calc_crc :: "u8 list \<Rightarrow> modbus_rtu_crc"

section \<open>The state machine (\<open>rtu.c\<close>)\<close>

definition update_state :: "rtu_state \<Rightarrow> 'p modbus_rtu_state \<Rightarrow> 'p modbus_rtu_state" where
  "update_state new s = s\<lparr>status := RTU_STATE_UPDATE (status s) new\<rparr>"

definition set_error :: "'p modbus_rtu_state \<Rightarrow> 'p modbus_rtu_state" where
  "set_error s = s\<lparr>status := RTU_STATE_ERROR (status s)\<rparr>"

abbreviation curr_st :: "'p modbus_rtu_state \<Rightarrow> rtu_state" where
  "curr_st s \<equiv> st_curr (status s)"

abbreviation prev_st :: "'p modbus_rtu_state \<Rightarrow> rtu_state" where
  "prev_st s \<equiv> st_prev (status s)"

definition reset_rxbuf :: "'p modbus_rtu_state \<Rightarrow> 'p modbus_rtu_state" where
  "reset_rxbuf s = s\<lparr>rxbuf := replicate RXBUF_CAPACITY 0, rxbuf_curr := 0\<rparr>"

definition reset_txbuf :: "'p modbus_rtu_state \<Rightarrow> 'p modbus_rtu_state" where
  "reset_txbuf s = s\<lparr>txbuf := replicate TXBUF_CAPACITY 0, txbuf_curr := 0\<rparr>"

definition timer_silent_interval_cb :: "'p platform \<Rightarrow> 'p modbus_rtu_state \<Rightarrow> 'p modbus_rtu_state res" where
  "timer_silent_interval_cb P s =
     (if curr_st s = RTU_STATE_INIT
      then timer_stop P (update_state RTU_STATE_IDLE s)
      else if prev_st s = RTU_STATE_RECV \<and> curr_st s = RTU_STATE_EOF
      then timer_stop P (update_state RTU_STATE_IDLE s)
      else Inr (set_error s))"

definition timer_inter_frame_timeout_cb :: "'p platform \<Rightarrow> 'p modbus_rtu_state \<Rightarrow> 'p modbus_rtu_state res" where
  "timer_inter_frame_timeout_cb P s =
     (if curr_st s = RTU_STATE_RECV
      then bind_res (timer_stop P (update_state RTU_STATE_EOF s)) (\<lambda>s.
           timer_start_3t5 P (s\<lparr>timer_cb := Some Timer_silent_interval_cb\<rparr>))
      else Inr (set_error s))"

text \<open>The call \<open>state->timer_cb(state)\<close> of a platform's timer interrupt.\<close>

definition call_timer_cb :: "'p platform \<Rightarrow> 'p modbus_rtu_state \<Rightarrow> 'p modbus_rtu_state res" where
  "call_timer_cb P s =
     (case timer_cb s of
        None \<Rightarrow> Inl NullCall
      | Some Timer_silent_interval_cb \<Rightarrow> timer_silent_interval_cb P s
      | Some Timer_inter_frame_timeout_cb \<Rightarrow> timer_inter_frame_timeout_cb P s)"

definition rxbuf_append :: "'p modbus_rtu_state \<Rightarrow> u8 \<Rightarrow> 'p modbus_rtu_state res" where
  "rxbuf_append s data =
     (if RXBUF_CAPACITY > rxbuf_curr s
      then bind_res (store Rxbuf (rxbuf s) (rxbuf_curr s) data) (\<lambda>buf.
           Inr (s\<lparr>rxbuf := buf, rxbuf_curr := Suc (rxbuf_curr s)\<rparr>))
      else Inr (set_error s))"

definition serial_recv_cb :: "'p platform \<Rightarrow> 'p modbus_rtu_state \<Rightarrow> u8 \<Rightarrow> 'p modbus_rtu_state res" where
  "serial_recv_cb P s data =
     (if curr_st s = RTU_STATE_IDLE
      then bind_res (rxbuf_append (update_state RTU_STATE_SOF s) data) (\<lambda>s.
           timer_start_1t5 P (s\<lparr>timer_cb := Some Timer_inter_frame_timeout_cb\<rparr>))
      else if curr_st s = RTU_STATE_SOF \<or> curr_st s = RTU_STATE_RECV
      then bind_res (rxbuf_append (update_state RTU_STATE_RECV s) data) (timer_reset P)
      else Inr (set_error s))"

definition serial_sent_cb :: "'p modbus_rtu_state \<Rightarrow> 'p modbus_rtu_state" where
  "serial_sent_cb s =
     (if curr_st s = RTU_STATE_BUSY
      then update_state RTU_STATE_INIT (s\<lparr>txbuf_curr := 0\<rparr>)
      else set_error s)"

definition serial_recv_err_cb :: "'p modbus_rtu_state \<Rightarrow> u8 \<Rightarrow> 'p modbus_rtu_state" where
  "serial_recv_err_cb s data =
     set_error (s\<lparr>serial_recv_err_cntr := serial_recv_err_cntr s + 1\<rparr>)"

definition adu_check :: "'p platform \<Rightarrow> 'p modbus_rtu_state \<Rightarrow> nat \<Rightarrow> nat \<Rightarrow> ('p modbus_rtu_state \<times> bool) res" where
  "adu_check P s from to =
     (if int ADU_MIN_SIZE > int to - int from then Inr (s, False)
      else bind_res (load Rxbuf (rxbuf s) (to - 2)) (\<lambda>low.
           bind_res (load Rxbuf (rxbuf s) (to - 1)) (\<lambda>high.
           bind_res (load_all Rxbuf (rxbuf s) from (to - 2 - from)) (\<lambda>payload.
           if CRC_TO_WORD \<lparr>crc_low = low, crc_high = high\<rparr> \<noteq> CRC_TO_WORD (calc_crc P payload)
           then Inr (s\<lparr>crc_err_cntr := crc_err_cntr s + 1\<rparr>, False)
           else Inr (s, True)))))"

text \<open>The tail of \<open>adu_process\<close>: the CRC is appended to a reply and the reply is sent.\<close>

definition adu_reply :: "'p platform \<Rightarrow> 'p modbus_rtu_state \<Rightarrow> 'p modbus_rtu_state res" where
  "adu_reply P s =
     bind_res (load_all Txbuf (txbuf s) 0 (txbuf_curr s)) (\<lambda>reply.
     let crc = calc_crc P reply in
     bind_res (store Txbuf (txbuf s) (txbuf_curr s) (crc_low crc)) (\<lambda>buf.
     bind_res (store Txbuf buf (Suc (txbuf_curr s)) (crc_high crc)) (\<lambda>buf.
     serial_send P (update_state RTU_STATE_BUSY
       (s\<lparr>txbuf := buf, txbuf_curr := Suc (Suc (txbuf_curr s))\<rparr>)))))"

definition adu_process :: "'p platform \<Rightarrow> 'p modbus_rtu_state \<Rightarrow> 'p modbus_rtu_state res" where
  "adu_process P s =
     bind_res (adu_check P s 0 (rxbuf_curr s)) (\<lambda>(s, ok).
     if ok then
       bind_res (load Rxbuf (rxbuf s) 0) (\<lambda>addr.
       bind_res (load Rxbuf (rxbuf s) 1) (\<lambda>fcode.
       bind_res (pdu_cb P s addr fcode 0 (rxbuf_curr s - 2) 2 0 (TXBUF_CAPACITY - 2)) (\<lambda>(s, dst).
       let s = s\<lparr>txbuf_curr := dst, rxbuf_curr := 0\<rparr> in
       if txbuf_curr s \<noteq> 0 then adu_reply P s else Inr s)))
     else Inr (set_error s))"

definition modbus_rtu_init :: "'p \<Rightarrow> 'p modbus_rtu_state" where
  "modbus_rtu_init data =
     \<lparr>timer_cb = None,
      rxbuf = replicate RXBUF_CAPACITY 0, rxbuf_curr = 0,
      txbuf = replicate TXBUF_CAPACITY 0, txbuf_curr = 0,
      user_data = data,
      err_cntr = 0, serial_recv_err_cntr = 0, crc_err_cntr = 0,
      status = \<lparr>updated = True, st_error = False,
                st_prev = RTU_STATE_INIT, st_curr = RTU_STATE_INIT\<rparr>\<rparr>"

text \<open>The labels \<open>restart\<close> and \<open>error\<close> of \<open>modbus_rtu_event\<close>.\<close>

definition event_restart :: "'p platform \<Rightarrow> 'p modbus_rtu_state \<Rightarrow> 'p modbus_rtu_state res" where
  "event_restart P s =
     bind_res (timer_stop P (reset_txbuf (reset_rxbuf s))) (\<lambda>s.
     timer_start_3t5 P (s\<lparr>timer_cb := Some Timer_silent_interval_cb\<rparr>))"

definition event_error :: "'p platform \<Rightarrow> 'p modbus_rtu_state \<Rightarrow> 'p modbus_rtu_state res" where
  "event_error P s =
     (let s = update_state RTU_STATE_INIT (s\<lparr>err_cntr := err_cntr s + 1\<rparr>)
      in event_restart P (s\<lparr>status := (status s)\<lparr>updated := False, st_error := False\<rparr>\<rparr>))"

definition call_opt :: "('p \<Rightarrow> 'p) option \<Rightarrow> 'p modbus_rtu_state \<Rightarrow> 'p modbus_rtu_state" where
  "call_opt cb s = (case cb of None \<Rightarrow> s | Some f \<Rightarrow> s\<lparr>user_data := f (user_data s)\<rparr>)"

text \<open>The chain of tests on \<open>status.bits\<close>, once \<open>updated\<close> is cleared.\<close>

definition event_dispatch :: "'p platform \<Rightarrow> 'p modbus_rtu_state \<Rightarrow> 'p modbus_rtu_state res" where
  "event_dispatch P s =
     (if st_error (status s) then event_error P s
      else if curr_st s = RTU_STATE_INIT then event_restart P s
      else if curr_st s = RTU_STATE_IDLE then
        (if prev_st s = RTU_STATE_INIT then Inr s
         else if prev_st s = RTU_STATE_EOF then
           (if txbuf_curr s \<noteq> 0 then event_error P s
            else bind_res (adu_process P s) (\<lambda>s. Inr (call_opt (resume_cb P) s)))
         else event_error P s)
      else if curr_st s = RTU_STATE_SOF then
        (let s = call_opt (suspend_cb P) s in
         if prev_st s \<noteq> RTU_STATE_IDLE then event_error P s else Inr s)
      else if curr_st s = RTU_STATE_RECV then Inr s
      else if curr_st s = RTU_STATE_EOF then
        (if prev_st s \<noteq> RTU_STATE_RECV then event_error P s else Inr s)
      else if curr_st s = RTU_STATE_BUSY then Inr s
      else event_error P s)"

definition modbus_rtu_event :: "'p platform \<Rightarrow> 'p modbus_rtu_state \<Rightarrow> 'p modbus_rtu_state res" where
  "modbus_rtu_event P s =
     (if \<not> updated (status s) then Inr s
      else event_dispatch P (s\<lparr>status := (status s)\<lparr>updated := False\<rparr>\<rparr>))"

definition modbus_rtu_idle :: "'p modbus_rtu_state \<Rightarrow> bool" where
  "modbus_rtu_idle s = (curr_st s = RTU_STATE_IDLE)"

end
