(* ===== verification/Linux_Rtu.thy ===== *)
theory Linux_Rtu
  imports Linux_Tty Rtu Rtu_Memory
begin

text \<open>
  The slave of the Linux build, \<open>linux/rtu_impl.c\<close>: the memory behind its PDU handler, its
  timers, and the loop that feeds \<open>rtu.c\<close> from a serial line.

  \<open>rtu_impl\<close> is the C struct; \<open>dev\<close> is the operating system of \<open>Linux_Tty\<close> and
  the opaque \<open>user_data\<close> of the handler is the memory it points to. A \<open>CHECK\<close> that fails is
  the fault \<open>CheckFailed\<close>; the null checks on arguments that are never null are left out.
\<close>

section \<open>The memory\<close>

record rtu_memory_impl =
  self_addr :: u8
  impl_memory :: rtu_memory

text \<open>The build defines \<open>RTU_MEMORY_ADDR\<close> and \<open>RTU_MEMORY_SIZE\<close>; here they are arguments.\<close>

definition rtu_memory_impl_clear :: "nat \<Rightarrow> rtu_memory_impl" where
  "rtu_memory_impl_clear sz =
     \<lparr>self_addr = 0, impl_memory = \<lparr>addr_begin = 0, addr_end = 0, mem_bytes = replicate sz 0\<rparr>\<rparr>"

definition rtu_memory_impl_init :: "u16 \<Rightarrow> u16 \<Rightarrow> rtu_memory_impl \<Rightarrow> rtu_memory_impl" where
  "rtu_memory_impl_init addr sz impl =
     impl\<lparr>impl_memory := (impl_memory impl)\<lparr>addr_begin := addr, addr_end := addr + sz\<rparr>\<rparr>"

definition rtu_memory_impl_pdu_cb :: "rtu_memory_impl \<Rightarrow> u8 list \<Rightarrow> u8 \<Rightarrow> u8 \<Rightarrow> nat \<Rightarrow> nat \<Rightarrow> nat \<Rightarrow> cursor
    \<Rightarrow> (rtu_memory_impl \<times> cursor) res" where
  "rtu_memory_impl_pdu_cb impl rx addr fcode from to at dst =
     (if self_addr impl \<noteq> addr then Inr (impl, dst)
      else bind_res (put Txbuf dst addr) (\<lambda>dst.
           bind_res (rtu_memory_pdu_cb (impl_memory impl) rx fcode (Suc from) to at dst) (\<lambda>(m, dst).
           Inr (impl\<lparr>impl_memory := m\<rparr>, dst))))"

section \<open>The platform\<close>

record rtu_impl =
  dev :: os
  rate :: speed_t
  timeout_1t5_us :: int
  timeout_3t5_us :: int
  timestamp :: int
  timeout_us :: int
  start_cntr :: "64 word"
  stop_cntr :: "64 word"
  reset_cntr :: "64 word"
  memory_impl :: rtu_memory_impl

definition calc_1t5_us :: "speed_t \<Rightarrow> int res" where
  "calc_1t5_us r =
     bind_res (tty_bps r) (\<lambda>bps. Inr (if 19200 > bps then 8250000 sdiv bps else 750))"

definition calc_3t5_us :: "speed_t \<Rightarrow> int res" where
  "calc_3t5_us r =
     bind_res (tty_bps r) (\<lambda>bps. Inr (if 19200 > bps then 19250000 sdiv bps else 1750))"

definition calc_tmin_ms :: "speed_t \<Rightarrow> nat \<Rightarrow> int res" where
  "calc_tmin_ms r sz = bind_res (tty_bps r) (\<lambda>bps. Inr ((int sz * 11000) sdiv bps))"

definition calc_tmax_ms :: "speed_t \<Rightarrow> nat \<Rightarrow> int res" where
  "calc_tmax_ms r sz = bind_res (calc_tmin_ms r sz) (\<lambda>t. Inr (10 + t))"

lemma tmax_nonneg:
  assumes "r \<noteq> B0"
  shows "\<exists>t \<ge> 0. calc_tmax_ms r n = Inr t"
proof -
  have "0 \<le> x sdiv y" if "0 \<le> x" "0 < y" for x y :: int
    using that by (cases "x = 0") (simp_all add: signed_divide_int_def pos_imp_zdiv_nonneg_iff)
  with assms show ?thesis
    by (cases r) (simp_all add: calc_tmax_ms_def calc_tmin_ms_def)
qed

text \<open>\<open>timestamp_us()\<close> read by the slave.\<close>

definition read_clock :: "rtu_impl \<Rightarrow> int \<times> rtu_impl" where
  "read_clock impl = (let (now, w) = timestamp_us (dev impl) in (now, impl\<lparr>dev := w\<rparr>))"

definition impl_start :: "(rtu_impl \<Rightarrow> int) \<Rightarrow> rtu_impl modbus_rtu_state \<Rightarrow> rtu_impl modbus_rtu_state res" where
  "impl_start timeout s =
     (let impl = user_data s in
      if timeout_us impl \<noteq> - 1 then Inl (CheckFailed ''-1 == impl->timer.timeout_us'')
      else let (now, impl) = read_clock impl
           in Inr (s\<lparr>user_data := impl\<lparr>timestamp := now, timeout_us := timeout impl,
                start_cntr := start_cntr impl + 1\<rparr>\<rparr>))"

definition impl_timer_start_1t5 :: "rtu_impl modbus_rtu_state \<Rightarrow> rtu_impl modbus_rtu_state res" where
  "impl_timer_start_1t5 = impl_start timeout_1t5_us"

definition impl_timer_start_3t5 :: "rtu_impl modbus_rtu_state \<Rightarrow> rtu_impl modbus_rtu_state res" where
  "impl_timer_start_3t5 = impl_start timeout_3t5_us"

definition impl_timer_stop :: "rtu_impl modbus_rtu_state \<Rightarrow> rtu_impl modbus_rtu_state res" where
  "impl_timer_stop s =
     (let impl = user_data s in
      if timeout_us impl = - 1 then Inr s
      else Inr (s\<lparr>user_data := impl\<lparr>timeout_us := - 1, stop_cntr := stop_cntr impl + 1\<rparr>\<rparr>))"

definition impl_timer_reset :: "rtu_impl modbus_rtu_state \<Rightarrow> rtu_impl modbus_rtu_state res" where
  "impl_timer_reset s =
     (let impl = user_data s in
      if timeout_us impl = - 1 then Inl (CheckFailed ''-1 != impl->timer.timeout_us'')
      else let (now, impl) = read_clock impl
           in Inr (s\<lparr>user_data := impl\<lparr>timestamp := now, reset_cntr := reset_cntr impl + 1\<rparr>\<rparr>))"

definition pdu_cb_proxy :: "rtu_impl modbus_rtu_state \<Rightarrow> u8 \<Rightarrow> u8 \<Rightarrow> nat \<Rightarrow> nat \<Rightarrow> nat \<Rightarrow> nat \<Rightarrow> nat
    \<Rightarrow> (rtu_impl modbus_rtu_state \<times> nat) res" where
  "pdu_cb_proxy s addr fcode from to at dst_begin dst_end =
     (let impl = user_data s in
      bind_res (rtu_memory_impl_pdu_cb (memory_impl impl) (rxbuf s) addr fcode from to at
        (txbuf s, dst_begin)) (\<lambda>(mi, buf, dst).
      Inr (s\<lparr>user_data := impl\<lparr>memory_impl := mi\<rparr>, txbuf := buf\<rparr>, dst)))"

text \<open>
  The transmission, up to \<open>tty_drain\<close>. \<open>send_impl\<close> itself calls
  \<open>modbus_rtu_event\<close>, which has \<open>send_impl\<close> in its platform: the argument of type
  \<open>nat\<close> bounds the depth of this recursion, and depth 1 is enough (shown in \<open>Linux_Invariant\<close>).
\<close>

definition transmit :: "rtu_impl modbus_rtu_state \<Rightarrow> rtu_impl modbus_rtu_state res" where
  "transmit s =
     (let impl = user_data s; sz = txbuf_curr s in
      bind_res (calc_tmax_ms (rate impl) sz) (\<lambda>timeout.
      bind_res (load_all Txbuf (txbuf s) 0 sz) (\<lambda>data.
      bind_res (tty_write (dev impl) data timeout False) (\<lambda>(w, cur, _).
      if cur \<noteq> int sz then Inl (CheckFailed ''end == curr'')
      else bind_res (sys_tcdrain w) (\<lambda>w.
           Inr (s\<lparr>user_data := impl\<lparr>dev := w\<rparr>\<rparr>))))))"

definition platform_with :: "(rtu_impl modbus_rtu_state \<Rightarrow> rtu_impl modbus_rtu_state res) \<Rightarrow> rtu_impl platform" where
  "platform_with send =
     \<lparr>timer_start_1t5 = impl_timer_start_1t5, timer_start_3t5 = impl_timer_start_3t5,
      timer_stop = impl_timer_stop, timer_reset = impl_timer_reset,
      serial_send = send, pdu_cb = pdu_cb_proxy, suspend_cb = None, resume_cb = None,
      calc_crc = (\<lambda>bs. modbus_rtu_calc_crc (Some bs))\<rparr>"

primrec send_impl :: "nat \<Rightarrow> rtu_impl modbus_rtu_state \<Rightarrow> rtu_impl modbus_rtu_state res" where
  "send_impl 0 s = Inl OutOfFuel"
| "send_impl (Suc depth) s =
     bind_res (transmit s) (\<lambda>s.
     modbus_rtu_event (platform_with (send_impl depth)) (serial_sent_cb s))"

definition linux_platform :: "rtu_impl platform" where
  "linux_platform = platform_with (send_impl 1)"

section \<open>The main loop\<close>

fun recv_bytes :: "rtu_impl modbus_rtu_state \<Rightarrow> u8 list \<Rightarrow> rtu_impl modbus_rtu_state res" where
  "recv_bytes s [] = Inr s"
| "recv_bytes s (b # bs) =
     bind_res (serial_recv_cb linux_platform s b) (\<lambda>s.
     bind_res (modbus_rtu_event linux_platform s) (\<lambda>s. recv_bytes s bs))"

text \<open>
  The local buffer is cleared, so a byte \<open>begin != end\<close> with \<open>end\<close> in front of the
  buffer would run away; the model reports that as a fault.
\<close>

definition recv_impl :: "bool \<Rightarrow> rtu_impl modbus_rtu_state \<Rightarrow> (rtu_impl modbus_rtu_state \<times> bool) res" where
  "recv_impl user_event s =
     (let impl = user_data s; buf = replicate ADU_CAPACITY 0 in
      bind_res (if timeout_us impl = - 1 then tty_read (dev impl) buf (- 1) user_event
                else bind_res (tty_read_ll (dev impl) buf (timeout_us impl)) (\<lambda>(w, buf, cur).
                     Inr (w, buf, cur, False))) (\<lambda>(w, buf, cur, stop).
      if cur < 0 then Inl (BadRead Data cur)
      else bind_res (recv_bytes (s\<lparr>user_data := impl\<lparr>dev := w\<rparr>\<rparr>) (take (nat cur) buf)) (\<lambda>s.
           Inr (s, stop))))"

definition timeout_impl :: "rtu_impl modbus_rtu_state \<Rightarrow> rtu_impl modbus_rtu_state res" where
  "timeout_impl s =
     (if timeout_us (user_data s) = - 1 then Inr s
      else let (now, impl) = read_clock (user_data s); s = s\<lparr>user_data := impl\<rparr> in
        if now - timestamp impl \<ge> timeout_us impl
        then bind_res (if timer_cb s = None then Inl (CheckFailed ''state->timer_cb'')
                       else call_timer_cb linux_platform s) (modbus_rtu_event linux_platform)
        else Inr s)"

text \<open>The intervals of \<open>modbus_rtu_run\<close>: custom ones, or those of the rate for \<open>- 1\<close>.\<close>

definition run_intervals :: "speed_t \<Rightarrow> int \<Rightarrow> int \<Rightarrow> (int \<times> int) res" where
  "run_intervals r timeout_1t5 timeout_3t5 =
     bind_res (if timeout_1t5 = - 1 then calc_1t5_us r else Inr timeout_1t5) (\<lambda>t1.
     bind_res (if timeout_3t5 = - 1 then calc_3t5_us r else Inr timeout_3t5) (\<lambda>t3.
     Inr (t1, t3)))"

definition initial_impl :: "os \<Rightarrow> speed_t \<Rightarrow> int \<Rightarrow> int \<Rightarrow> rtu_memory_impl \<Rightarrow> rtu_impl" where
  "initial_impl w r t1 t3 mi =
     (let (now, w) = timestamp_us w in
      \<lparr>dev = w, rate = r, timeout_1t5_us = t1, timeout_3t5_us = t3, timestamp = now,
       timeout_us = - 1, start_cntr = 0, stop_cntr = 0, reset_cntr = 0, memory_impl = mi\<rparr>)"

text \<open>\<open>modbus_rtu_run\<close> up to its first event, and \<open>n\<close> rounds of its loop.\<close>

definition run_start :: "os \<Rightarrow> speed_t \<Rightarrow> int \<Rightarrow> int \<Rightarrow> rtu_memory_impl \<Rightarrow> rtu_impl modbus_rtu_state res" where
  "run_start w r timeout_1t5 timeout_3t5 mi =
     bind_res (run_intervals r timeout_1t5 timeout_3t5) (\<lambda>(t1, t3).
     modbus_rtu_event linux_platform (modbus_rtu_init (initial_impl w r t1 t3 mi)))"

fun run_rounds :: "nat \<Rightarrow> bool \<Rightarrow> rtu_impl modbus_rtu_state \<Rightarrow> (rtu_impl modbus_rtu_state \<times> bool) res" where
  "run_rounds 0 user_event s = Inr (s, False)"
| "run_rounds (Suc n) user_event s =
     bind_res (recv_impl user_event s) (\<lambda>(s, stop).
     bind_res (timeout_impl s) (\<lambda>s.
     if stop then Inr (s, True) else run_rounds n user_event s))"

definition modbus_rtu_run :: "nat \<Rightarrow> os \<Rightarrow> speed_t \<Rightarrow> int \<Rightarrow> int \<Rightarrow> rtu_memory_impl \<Rightarrow> bool
    \<Rightarrow> (rtu_impl modbus_rtu_state \<times> bool) res" where
  "modbus_rtu_run n w r timeout_1t5 timeout_3t5 mi user_event =
     bind_res (run_start w r timeout_1t5 timeout_3t5 mi) (run_rounds n user_event)"

end
