(* ===== verification/Rtu_Invariant.thy ===== *)
theory Rtu_Invariant
  imports Rtu
begin

text \<open>
  The invariant of the slave state machine, for every platform that keeps a contract.

  \<open>rtu_platform\<close> is the contract between \<open>rtu.c\<close> and the functions it is given: the
  timers run when they are started, \<open>tmr\<close> reads off the platform's data which one, and a
  PDU handler or a transmission that returns leaves the core's data as it should. Under it every
  callback and \<open>modbus_rtu_event\<close> preserve \<open>rtu_inv\<close>, and no fault comes from the core.
\<close>

section \<open>The invariant\<close>

datatype timer_mode = Stopped | Running_1t5 | Running_3t5

text \<open>The pairs \<open>prev\<close>, \<open>curr\<close> that occur: the edges of the state diagram.\<close>

definition legal_edge :: "rtu_state \<Rightarrow> rtu_state \<Rightarrow> bool" where
  "legal_edge p c =
     (if c = RTU_STATE_INIT then p \<le> RTU_STATE_BUSY
      else if c = RTU_STATE_IDLE then p = RTU_STATE_INIT \<or> p = RTU_STATE_EOF
      else if c = RTU_STATE_SOF then p = RTU_STATE_IDLE
      else if c = RTU_STATE_RECV then p = RTU_STATE_SOF \<or> p = RTU_STATE_RECV
      else if c = RTU_STATE_EOF then p = RTU_STATE_RECV
      else c = RTU_STATE_BUSY \<and> p = RTU_STATE_IDLE)"

text \<open>Which timer runs in which state, and which callback it is going to call.\<close>

definition timer_agrees :: "timer_mode \<Rightarrow> 'p modbus_rtu_state \<Rightarrow> bool" where
  "timer_agrees m s =
     (if curr_st s = RTU_STATE_INIT
      then (m = Stopped \<and> updated (status s)) \<or>
           (m = Running_3t5 \<and> timer_cb s = Some Timer_silent_interval_cb)
      else if curr_st s = RTU_STATE_IDLE \<or> curr_st s = RTU_STATE_BUSY then m = Stopped
      else if curr_st s = RTU_STATE_EOF
      then m = Running_3t5 \<and> timer_cb s = Some Timer_silent_interval_cb
      else m = Running_1t5 \<and> timer_cb s = Some Timer_inter_frame_timeout_cb)"

definition buffers_ok :: "'p modbus_rtu_state \<Rightarrow> bool" where
  "buffers_ok s =
     (length (rxbuf s) = RXBUF_CAPACITY \<and> rxbuf_curr s \<le> RXBUF_CAPACITY \<and>
      length (txbuf s) = TXBUF_CAPACITY \<and> txbuf_curr s \<le> TXBUF_CAPACITY \<and>
      (curr_st s \<noteq> RTU_STATE_BUSY \<longrightarrow> txbuf_curr s = 0) \<and>
      (curr_st s = RTU_STATE_INIT \<or> curr_st s = RTU_STATE_BUSY \<or>
       curr_st s = RTU_STATE_IDLE \<and> (prev_st s = RTU_STATE_INIT \<or> \<not> updated (status s))
       \<longrightarrow> rxbuf_curr s = 0))"

definition rtu_inv :: "('p \<Rightarrow> timer_mode) \<Rightarrow> ('p \<Rightarrow> bool) \<Rightarrow> 'p modbus_rtu_state \<Rightarrow> bool" where
  "rtu_inv tmr good s =
     (good (user_data s) \<and> buffers_ok s \<and> timer_agrees (tmr (user_data s)) s \<and>
      legal_edge (prev_st s) (curr_st s) \<and> (st_error (status s) \<longrightarrow> updated (status s)))"

lemmas rtu_inv_defs = rtu_inv_def buffers_ok_def timer_agrees_def legal_edge_def

lemmas state_defs = update_state_def set_error_def RTU_STATE_UPDATE_def RTU_STATE_ERROR_def

lemmas capacities = RXBUF_CAPACITY_def TXBUF_CAPACITY_def ADU_CAPACITY_def ADU_MIN_SIZE_def

text \<open>Of the eight values of the bit field, the states are six.\<close>

lemma legal_edge_cases:
  assumes "legal_edge p c"
  obtains "c = RTU_STATE_INIT" | "c = RTU_STATE_IDLE" "p = RTU_STATE_INIT"
    | "c = RTU_STATE_IDLE" "p = RTU_STATE_EOF" | "c = RTU_STATE_SOF" "p = RTU_STATE_IDLE"
    | "c = RTU_STATE_RECV" "p = RTU_STATE_SOF \<or> p = RTU_STATE_RECV"
    | "c = RTU_STATE_EOF" "p = RTU_STATE_RECV" | "c = RTU_STATE_BUSY" "p = RTU_STATE_IDLE"
  using assms unfolding legal_edge_def by metis

section \<open>The inputs of the machine\<close>

text \<open>
  The calls a platform makes, in any order it likes: the four callbacks of its interrupt
  handlers and \<open>modbus_rtu_event\<close> of its main loop.
\<close>

datatype input = Recv u8 | Recv_err u8 | Timeout | Sent | Event

fun exec :: "'p platform \<Rightarrow> input \<Rightarrow> 'p modbus_rtu_state \<Rightarrow> 'p modbus_rtu_state res" where
  "exec P (Recv b) s = serial_recv_cb P s b"
| "exec P (Recv_err b) s = Inr (serial_recv_err_cb s b)"
| "exec P Timeout s = call_timer_cb P s"
| "exec P Sent s = Inr (serial_sent_cb s)"
| "exec P Event s = modbus_rtu_event P s"

text \<open>A stopped timer does not call back.\<close>

fun enabled :: "('p \<Rightarrow> timer_mode) \<Rightarrow> input \<Rightarrow> 'p modbus_rtu_state \<Rightarrow> bool" where
  "enabled tmr Timeout s = (tmr (user_data s) \<noteq> Stopped)"
| "enabled tmr _ s = True"

inductive rtu_step :: "'p platform \<Rightarrow> ('p \<Rightarrow> timer_mode) \<Rightarrow> 'p modbus_rtu_state \<Rightarrow> 'p modbus_rtu_state \<Rightarrow> bool"
  for P :: "'p platform" and tmr :: "'p \<Rightarrow> timer_mode" where
  step: "enabled tmr i s \<Longrightarrow> exec P i s = Inr s' \<Longrightarrow> rtu_step P tmr s s'"

inductive reachable :: "'p platform \<Rightarrow> ('p \<Rightarrow> timer_mode) \<Rightarrow> 'p \<Rightarrow> 'p modbus_rtu_state \<Rightarrow> bool"
  for P :: "'p platform" and tmr :: "'p \<Rightarrow> timer_mode" and data :: 'p where
  start: "reachable P tmr data (modbus_rtu_init data)"
| step: "reachable P tmr data s \<Longrightarrow> rtu_step P tmr s s' \<Longrightarrow> reachable P tmr data s'"

inductive_cases rtu_stepE: "rtu_step P tmr s s'"

section \<open>Steps that need no platform\<close>

lemma rtu_inv_init: "good data \<Longrightarrow> tmr data = Stopped \<Longrightarrow> rtu_inv tmr good (modbus_rtu_init data)"
  by (simp add: rtu_inv_defs modbus_rtu_init_def)

lemma legal_rtu_inv: "rtu_inv tmr good s \<Longrightarrow> legal_edge (prev_st s) (curr_st s)"
  by (simp only: rtu_inv_def)

lemma rtu_inv_user_data:
  "rtu_inv tmr good s \<Longrightarrow> tmr u = tmr (user_data s) \<Longrightarrow> good u \<Longrightarrow>
   rtu_inv tmr good (s\<lparr>user_data := u\<rparr>)"
  by (simp add: rtu_inv_def buffers_ok_def timer_agrees_def)

lemma set_error_inv:
  assumes "rtu_inv tmr good s"
  shows "rtu_inv tmr good (set_error s)"
  using legal_rtu_inv [OF assms] assms
  by (cases rule: legal_edge_cases) (auto simp: rtu_inv_defs state_defs)

lemma serial_recv_err_inv:
  assumes "rtu_inv tmr good s"
  shows "rtu_inv tmr good (serial_recv_err_cb s b)"
  using legal_rtu_inv [OF assms] assms
  by (cases rule: legal_edge_cases) (auto simp: rtu_inv_defs state_defs serial_recv_err_cb_def)

lemma serial_sent_inv:
  assumes "rtu_inv tmr good s"
  shows "rtu_inv tmr good (serial_sent_cb s)"
  using legal_rtu_inv [OF assms] set_error_inv [OF assms] assms
  by (cases rule: legal_edge_cases) (simp_all add: rtu_inv_defs state_defs serial_sent_cb_def)

text \<open>A byte goes to the end of the buffer, or the error flag says that it did not.\<close>

definition appended :: "u8 \<Rightarrow> 'p modbus_rtu_state \<Rightarrow> 'p modbus_rtu_state" where
  "appended b s =
     (if rxbuf_curr s < RXBUF_CAPACITY
      then s\<lparr>rxbuf := (rxbuf s)[rxbuf_curr s := b], rxbuf_curr := Suc (rxbuf_curr s)\<rparr>
      else set_error s)"

lemma rxbuf_append_eq: "length (rxbuf s) = RXBUF_CAPACITY \<Longrightarrow> rxbuf_append s b = Inr (appended b s)"
  by (simp add: rxbuf_append_def appended_def store_ok)

lemma appended_simps [simp]:
  "user_data (appended b s) = user_data s" "timer_cb (appended b s) = timer_cb s"
  "txbuf (appended b s) = txbuf s" "txbuf_curr (appended b s) = txbuf_curr s"
  "curr_st (appended b s) = curr_st s" "prev_st (appended b s) = prev_st s"
  "length (rxbuf (appended b s)) = length (rxbuf s)"
  "updated (status s) \<Longrightarrow> updated (status (appended b s))"
  by (simp_all add: appended_def state_defs)

lemma appended_curr: "rxbuf_curr s \<le> RXBUF_CAPACITY \<Longrightarrow> rxbuf_curr (appended b s) \<le> RXBUF_CAPACITY"
  by (simp add: appended_def set_error_def)

section \<open>The platform\<close>

locale rtu_platform =
  fixes P :: "'p platform" and tmr :: "'p \<Rightarrow> timer_mode" and good :: "'p \<Rightarrow> bool" and app :: "'p \<Rightarrow> 'a"
  assumes start_1t5: "good (user_data s) \<Longrightarrow> tmr (user_data s) = Stopped \<Longrightarrow>
      \<exists>u. timer_start_1t5 P s = Inr (s\<lparr>user_data := u\<rparr>) \<and> tmr u = Running_1t5 \<and> good u \<and>
        app u = app (user_data s)"
    and start_3t5: "good (user_data s) \<Longrightarrow> tmr (user_data s) = Stopped \<Longrightarrow>
      \<exists>u. timer_start_3t5 P s = Inr (s\<lparr>user_data := u\<rparr>) \<and> tmr u = Running_3t5 \<and> good u \<and>
        app u = app (user_data s)"
    and stop: "good (user_data s) \<Longrightarrow>
      \<exists>u. timer_stop P s = Inr (s\<lparr>user_data := u\<rparr>) \<and> tmr u = Stopped \<and> good u \<and>
        app u = app (user_data s)"
    and reset: "good (user_data s) \<Longrightarrow> tmr (user_data s) \<noteq> Stopped \<Longrightarrow>
      \<exists>u. timer_reset P s = Inr (s\<lparr>user_data := u\<rparr>) \<and> tmr u = tmr (user_data s) \<and> good u \<and>
        app u = app (user_data s)"
    and suspend: "suspend_cb P = Some f \<Longrightarrow> good u \<Longrightarrow> good (f u) \<and> tmr (f u) = tmr u \<and> app (f u) = app u"
    and resume: "resume_cb P = Some f \<Longrightarrow> good u \<Longrightarrow> good (f u) \<and> tmr (f u) = tmr u \<and> app (f u) = app u"
    and pdu: "good (user_data s) \<Longrightarrow> length (rxbuf s) = RXBUF_CAPACITY \<Longrightarrow>
      length (txbuf s) = TXBUF_CAPACITY \<Longrightarrow> 4 \<le> rxbuf_curr s \<Longrightarrow> rxbuf_curr s \<le> RXBUF_CAPACITY \<Longrightarrow>
      pdu_cb P s (rxbuf s ! 0) (rxbuf s ! 1) 0 (rxbuf_curr s - 2) 2 0 (TXBUF_CAPACITY - 2) = Inr (s', dst) \<Longrightarrow>
      \<exists>u buf. s' = s\<lparr>user_data := u, txbuf := buf\<rparr> \<and> tmr u = tmr (user_data s) \<and> good u \<and>
        length buf = TXBUF_CAPACITY \<and> dst \<le> TXBUF_CAPACITY - 2"
    and send: "rtu_inv tmr good s \<Longrightarrow> curr_st s = RTU_STATE_BUSY \<Longrightarrow> 2 < txbuf_curr s \<Longrightarrow>
      serial_send P s = Inr s' \<Longrightarrow> rtu_inv tmr good s'"
begin

lemma event_restart_ok:
  assumes "good (user_data s)"
  shows "\<exists>u. event_restart P s =
      Inr (s\<lparr>rxbuf := replicate RXBUF_CAPACITY 0, rxbuf_curr := 0, txbuf := replicate TXBUF_CAPACITY 0,
             txbuf_curr := 0, timer_cb := Some Timer_silent_interval_cb, user_data := u\<rparr>)
    \<and> tmr u = Running_3t5 \<and> good u \<and> app u = app (user_data s)"
proof -
  let ?s = "reset_txbuf (reset_rxbuf s)"
  from stop [of ?s] assms obtain u where u: "timer_stop P ?s = Inr (?s\<lparr>user_data := u\<rparr>)"
      "tmr u = Stopped" "good u" "app u = app (user_data s)"
    by (auto simp: reset_rxbuf_def reset_txbuf_def)
  from start_3t5 [of "?s\<lparr>user_data := u, timer_cb := Some Timer_silent_interval_cb\<rparr>"] u(2-4)
  obtain v where v: "timer_start_3t5 P (?s\<lparr>user_data := u, timer_cb := Some Timer_silent_interval_cb\<rparr>)
      = Inr (?s\<lparr>timer_cb := Some Timer_silent_interval_cb, user_data := v\<rparr>)"
      "tmr v = Running_3t5" "good v" "app v = app (user_data s)"
    by auto
  have "event_restart P s = Inr (?s\<lparr>timer_cb := Some Timer_silent_interval_cb, user_data := v\<rparr>)"
    by (simp only: event_restart_def u(1) v(1) bind_res.simps)
  with v(2-4) show ?thesis
    by (intro exI [of _ v]) (simp add: reset_rxbuf_def reset_txbuf_def)
qed

lemma event_restart_inv:
  assumes "good (user_data s)" and "curr_st s = RTU_STATE_INIT" and "legal_edge (prev_st s) (curr_st s)"
    and "st_error (status s) \<longrightarrow> updated (status s)" and "event_restart P s = Inr s'"
  shows "rtu_inv tmr good s'"
  using event_restart_ok [OF assms(1)] assms(2-)
  by (auto simp: rtu_inv_def buffers_ok_def timer_agrees_def)

lemma event_error_ok:
  assumes "good (user_data s)" and "legal_edge (prev_st s) (curr_st s)"
  shows "\<exists>s'. event_error P s = Inr s' \<and> rtu_inv tmr good s' \<and> curr_st s' = RTU_STATE_INIT \<and>
      \<not> updated (status s') \<and> \<not> st_error (status s') \<and> err_cntr s' = err_cntr s + 1 \<and>
      app (user_data s') = app (user_data s)"
proof -
  let ?s = "s\<lparr>err_cntr := err_cntr s + 1, status :=
      \<lparr>updated = False, st_error = False, st_prev = curr_st s, st_curr = RTU_STATE_INIT\<rparr>\<rparr>"
  have eq: "event_error P s = event_restart P ?s"
    by (cases "status s") (simp add: event_error_def Let_def state_defs)
  have edge: "legal_edge (prev_st ?s) (curr_st ?s)"
    using assms(2) by (cases rule: legal_edge_cases) (simp_all add: legal_edge_def)
  from event_restart_ok [of ?s] assms(1) obtain u s' where
    s': "event_restart P ?s = Inr s'" and fields: "status s' = status ?s" "err_cntr s' = err_cntr ?s"
      "app (user_data s') = app (user_data s)"
    by auto
  moreover have "rtu_inv tmr good s'"
    by (rule event_restart_inv [OF _ _ edge _ s']) (simp_all add: assms(1))
  ultimately show ?thesis by (simp add: eq)
qed

end

context rtu_platform
begin

lemma append_updated:
  "rtu_inv tmr good s \<Longrightarrow> rxbuf_append (update_state c s) b = Inr (appended b (update_state c s))"
  by (intro rxbuf_append_eq) (simp add: rtu_inv_def buffers_ok_def update_state_def)

lemma recv_first:
  assumes inv: "rtu_inv tmr good s" and c: "curr_st s = RTU_STATE_IDLE"
  shows "\<exists>u. serial_recv_cb P s b = Inr ((appended b (update_state RTU_STATE_SOF s))
        \<lparr>timer_cb := Some Timer_inter_frame_timeout_cb, user_data := u\<rparr>) \<and>
      rtu_inv tmr good ((appended b (update_state RTU_STATE_SOF s))
        \<lparr>timer_cb := Some Timer_inter_frame_timeout_cb, user_data := u\<rparr>) \<and>
      app u = app (user_data s)"
proof -
  let ?s = "(appended b (update_state RTU_STATE_SOF s))\<lparr>timer_cb := Some Timer_inter_frame_timeout_cb\<rparr>"
  from start_1t5 [of ?s] inv c obtain u where u: "timer_start_1t5 P ?s = Inr (?s\<lparr>user_data := u\<rparr>)"
      "tmr u = Running_1t5" "good u" "app u = app (user_data s)"
    by (auto simp: rtu_inv_def timer_agrees_def update_state_def)
  have "serial_recv_cb P s b = Inr (?s\<lparr>user_data := u\<rparr>)"
    using c by (simp only: serial_recv_cb_def append_updated [OF inv] u(1) bind_res.simps if_True refl)
  moreover have "rtu_inv tmr good (?s\<lparr>user_data := u\<rparr>)"
    using inv c u(2,3) by (simp add: rtu_inv_defs state_defs appended_curr)
  ultimately show ?thesis using u(4) by blast
qed

lemma recv_next:
  assumes inv: "rtu_inv tmr good s" and c: "curr_st s = RTU_STATE_SOF \<or> curr_st s = RTU_STATE_RECV"
  shows "\<exists>u. serial_recv_cb P s b = Inr ((appended b (update_state RTU_STATE_RECV s))\<lparr>user_data := u\<rparr>) \<and>
      rtu_inv tmr good ((appended b (update_state RTU_STATE_RECV s))\<lparr>user_data := u\<rparr>) \<and>
      app u = app (user_data s)"
proof -
  let ?s = "appended b (update_state RTU_STATE_RECV s)"
  from reset [of ?s] inv c obtain u where u: "timer_reset P ?s = Inr (?s\<lparr>user_data := u\<rparr>)"
      "tmr u = Running_1t5" "good u" "app u = app (user_data s)"
    by (auto simp: rtu_inv_def timer_agrees_def update_state_def)
  have "curr_st s \<noteq> RTU_STATE_IDLE" using c by auto
  then have "serial_recv_cb P s b = Inr (?s\<lparr>user_data := u\<rparr>)"
    using c by (simp only: serial_recv_cb_def append_updated [OF inv] u(1) bind_res.simps if_True if_False)
  moreover have "rtu_inv tmr good (?s\<lparr>user_data := u\<rparr>)"
    using inv c u(2,3) by (auto simp: rtu_inv_defs state_defs appended_curr)
  ultimately show ?thesis using u(4) by blast
qed

lemma serial_recv_ok:
  assumes inv: "rtu_inv tmr good s"
  shows "\<exists>s'. serial_recv_cb P s b = Inr s' \<and> rtu_inv tmr good s'"
  using legal_rtu_inv [OF inv] recv_first [OF inv, of b] recv_next [OF inv, of b] set_error_inv [OF inv]
  by (cases rule: legal_edge_cases) (auto simp: serial_recv_cb_def [of P s b])

lemma stop_after:
  assumes "good (user_data s)"
  obtains u where "timer_stop P s = Inr (s\<lparr>user_data := u\<rparr>)" "tmr u = Stopped" "good u"
    "app u = app (user_data s)"
  using stop [OF assms] by blast

lemma silent_interval:
  assumes inv: "rtu_inv tmr good s"
    and c: "curr_st s = RTU_STATE_INIT \<or> prev_st s = RTU_STATE_RECV \<and> curr_st s = RTU_STATE_EOF"
  shows "\<exists>u. timer_silent_interval_cb P s = Inr ((update_state RTU_STATE_IDLE s)\<lparr>user_data := u\<rparr>) \<and>
      rtu_inv tmr good ((update_state RTU_STATE_IDLE s)\<lparr>user_data := u\<rparr>) \<and> app u = app (user_data s)"
proof -
  let ?s = "update_state RTU_STATE_IDLE s"
  from inv have "good (user_data ?s)" by (simp add: rtu_inv_def update_state_def)
  then obtain u where u: "timer_stop P ?s = Inr (?s\<lparr>user_data := u\<rparr>)" "tmr u = Stopped" "good u"
      "app u = app (user_data ?s)"
    by (rule stop_after)
  moreover have "rtu_inv tmr good (?s\<lparr>user_data := u\<rparr>)"
    using inv c u(2,3) by (auto simp: rtu_inv_defs state_defs)
  ultimately show ?thesis
    using c by (auto simp: timer_silent_interval_cb_def update_state_def)
qed

lemma timer_silent_interval_ok:
  assumes inv: "rtu_inv tmr good s"
  shows "\<exists>s'. timer_silent_interval_cb P s = Inr s' \<and> rtu_inv tmr good s'"
proof (cases "curr_st s = RTU_STATE_INIT \<or> prev_st s = RTU_STATE_RECV \<and> curr_st s = RTU_STATE_EOF")
  case True
  from silent_interval [OF inv True] show ?thesis by blast
next
  case False
  then show ?thesis using set_error_inv [OF inv] by (auto simp: timer_silent_interval_cb_def)
qed

lemma inter_frame_timeout:
  assumes inv: "rtu_inv tmr good s" and c: "curr_st s = RTU_STATE_RECV"
  shows "\<exists>u. timer_inter_frame_timeout_cb P s = Inr ((update_state RTU_STATE_EOF s)
        \<lparr>timer_cb := Some Timer_silent_interval_cb, user_data := u\<rparr>) \<and>
      rtu_inv tmr good ((update_state RTU_STATE_EOF s)
        \<lparr>timer_cb := Some Timer_silent_interval_cb, user_data := u\<rparr>) \<and> app u = app (user_data s)"
proof -
  let ?s = "update_state RTU_STATE_EOF s"
  from inv have "good (user_data ?s)" by (simp add: rtu_inv_def update_state_def)
  then obtain u where u: "timer_stop P ?s = Inr (?s\<lparr>user_data := u\<rparr>)" "tmr u = Stopped" "good u"
      "app u = app (user_data ?s)"
    by (rule stop_after)
  let ?t = "?s\<lparr>user_data := u, timer_cb := Some Timer_silent_interval_cb\<rparr>"
  let ?r = "\<lambda>v. ?s\<lparr>timer_cb := Some Timer_silent_interval_cb, user_data := v\<rparr>"
  from start_3t5 [of ?t] u(2-4) obtain v where v: "timer_start_3t5 P ?t = Inr (?r v)"
      "tmr v = Running_3t5" "good v" "app v = app (user_data ?s)"
    by auto
  have "rtu_inv tmr good (?r v)"
    using inv v(2,3) c by (auto simp: rtu_inv_defs state_defs)
  moreover have "timer_inter_frame_timeout_cb P s = Inr (?r v)"
    using c by (simp only: timer_inter_frame_timeout_cb_def u(1) v(1) bind_res.simps if_True refl)
  ultimately show ?thesis
    using v(4) by (auto simp: update_state_def)
qed

lemma timer_inter_frame_timeout_ok:
  assumes inv: "rtu_inv tmr good s"
  shows "\<exists>s'. timer_inter_frame_timeout_cb P s = Inr s' \<and> rtu_inv tmr good s'"
proof (cases "curr_st s = RTU_STATE_RECV")
  case True
  from inter_frame_timeout [OF inv True] show ?thesis by blast
next
  case False
  then show ?thesis using set_error_inv [OF inv] by (auto simp: timer_inter_frame_timeout_cb_def)
qed

lemma call_timer_ok:
  assumes inv: "rtu_inv tmr good s" and run: "tmr (user_data s) \<noteq> Stopped"
  shows "\<exists>s'. call_timer_cb P s = Inr s' \<and> rtu_inv tmr good s'"
proof -
  have "tmr (user_data s) = Running_3t5 \<and> timer_cb s = Some Timer_silent_interval_cb \<or>
      tmr (user_data s) = Running_1t5 \<and> timer_cb s = Some Timer_inter_frame_timeout_cb"
    using run inv by (simp add: rtu_inv_def timer_agrees_def split: if_split_asm)
  then show ?thesis
    using timer_silent_interval_ok [OF inv] timer_inter_frame_timeout_ok [OF inv]
    by (elim disjE) (simp_all add: call_timer_cb_def)
qed

end

section \<open>Frames\<close>

definition received :: "'p modbus_rtu_state \<Rightarrow> u8 list" where
  "received s = take (rxbuf_curr s) (rxbuf s)"

definition frame_ok :: "'p platform \<Rightarrow> u8 list \<Rightarrow> bool" where
  "frame_ok P f = (ADU_MIN_SIZE \<le> length f \<and> crc_frame_ok (\<lambda>bs. CRC_TO_WORD (calc_crc P bs)) f)"

lemma adu_check_eq:
  assumes "rxbuf_curr s \<le> length (rxbuf s)"
  shows "adu_check P s 0 (rxbuf_curr s) =
    Inr (if frame_ok P (received s) then (s, True)
         else (if ADU_MIN_SIZE \<le> rxbuf_curr s then s\<lparr>crc_err_cntr := crc_err_cntr s + 1\<rparr> else s, False))"
proof (cases "ADU_MIN_SIZE \<le> rxbuf_curr s")
  case True
  let ?n = "rxbuf_curr s"
  have "load_all Rxbuf (rxbuf s) 0 (?n - 2 - 0) = Inr (take (?n - 2) (received s))"
    using assms by (simp add: load_all_ok received_def min_def)
  moreover have "load Rxbuf (rxbuf s) (?n - 2) = Inr (received s ! (?n - 2))"
      "load Rxbuf (rxbuf s) (?n - 1) = Inr (received s ! (?n - 1))"
    using assms True by (simp_all add: load_ok received_def capacities)
  moreover have "length (received s) = ?n" using assms by (simp add: received_def)
  ultimately show ?thesis
    using True
    by (auto simp: adu_check_def frame_ok_def crc_frame_ok_def CRC_TO_WORD_def capacities)
next
  case False
  then show ?thesis
    using assms by (simp add: adu_check_def frame_ok_def received_def)
qed

text \<open>A fault of the functions a platform supplies for its application and its line.\<close>

definition client_fault :: "'p platform \<Rightarrow> ('p \<Rightarrow> timer_mode) \<Rightarrow> ('p \<Rightarrow> bool) \<Rightarrow> fault \<Rightarrow> bool" where
  "client_fault P tmr good e =
     ((\<exists>s a f b n c d d'. pdu_cb P s a f b n c d d' = Inl e) \<or>
      (\<exists>s. rtu_inv tmr good s \<and> curr_st s = RTU_STATE_BUSY \<and> serial_send P s = Inl e))"

text \<open>
  What \<open>modbus_rtu_event\<close> does in a state of the invariant: none of its consistency checks
  fails, so the error label is reached through the error flag only.
\<close>

definition event_live :: "'p platform \<Rightarrow> 'p modbus_rtu_state \<Rightarrow> 'p modbus_rtu_state res" where
  "event_live P s =
     (if \<not> updated (status s) then Inr s
      else let s = s\<lparr>status := (status s)\<lparr>updated := False\<rparr>\<rparr> in
        if st_error (status s) then event_error P s
        else if curr_st s = RTU_STATE_INIT then event_restart P s
        else if curr_st s = RTU_STATE_IDLE \<and> prev_st s = RTU_STATE_EOF
        then bind_res (adu_process P s) (\<lambda>s. Inr (call_opt (resume_cb P) s))
        else if curr_st s = RTU_STATE_SOF then Inr (call_opt (suspend_cb P) s)
        else Inr s)"

lemma event_is_live:
  assumes "rtu_inv tmr good s"
  shows "modbus_rtu_event P s = event_live P s"
  using legal_rtu_inv [OF assms] assms
proof (cases rule: legal_edge_cases)
  case 4
  moreover have "prev_st (call_opt f t) = prev_st t" for f and t :: "'a modbus_rtu_state"
    by (simp add: call_opt_def split: option.splits)
  ultimately show ?thesis
    by (simp add: modbus_rtu_event_def event_dispatch_def event_live_def Let_def)
qed (simp_all add: modbus_rtu_event_def event_dispatch_def event_live_def Let_def rtu_inv_def buffers_ok_def)

context rtu_platform
begin

lemma call_opt_inv:
  assumes "f = suspend_cb P \<or> f = resume_cb P" and "rtu_inv tmr good s"
  shows "rtu_inv tmr good (call_opt f s)"
proof (cases f)
  case (Some g)
  then have "good (g (user_data s)) \<and> tmr (g (user_data s)) = tmr (user_data s)"
    using assms suspend [of g "user_data s"] resume [of g "user_data s"] by (auto simp: rtu_inv_def)
  with assms(2) Some show ?thesis by (simp add: call_opt_def rtu_inv_user_data)
qed (simp add: call_opt_def assms)

text \<open>The frame that \<open>modbus_rtu_event\<close> hands to \<open>adu_process\<close>.\<close>

definition pending :: "'p modbus_rtu_state \<Rightarrow> bool" where
  "pending s = (good (user_data s) \<and> tmr (user_data s) = Stopped \<and>
     length (rxbuf s) = RXBUF_CAPACITY \<and> rxbuf_curr s \<le> RXBUF_CAPACITY \<and>
     length (txbuf s) = TXBUF_CAPACITY \<and> txbuf_curr s = 0 \<and>
     curr_st s = RTU_STATE_IDLE \<and> prev_st s = RTU_STATE_EOF \<and>
     \<not> updated (status s) \<and> \<not> st_error (status s))"

lemma pending_event:
  assumes "rtu_inv tmr good s" and "updated (status s)" and "\<not> st_error (status s)"
    and "curr_st s = RTU_STATE_IDLE" and "prev_st s = RTU_STATE_EOF"
  shows "pending (s\<lparr>status := (status s)\<lparr>updated := False\<rparr>\<rparr>)"
  using assms by (simp add: pending_def rtu_inv_def buffers_ok_def timer_agrees_def)

text \<open>The state in which a reply is handed to \<open>serial_send\<close>.\<close>

lemma adu_reply_inv:
  assumes "good (user_data s)" "tmr (user_data s) = Stopped" "length (rxbuf s) = RXBUF_CAPACITY"
    and "length (txbuf s) = TXBUF_CAPACITY" "0 < txbuf_curr s" "txbuf_curr s \<le> TXBUF_CAPACITY - 2"
    and "rxbuf_curr s = 0" "curr_st s = RTU_STATE_IDLE" "\<not> st_error (status s)"
  shows "\<exists>t. adu_reply P s = serial_send P t \<and> rtu_inv tmr good t \<and> curr_st t = RTU_STATE_BUSY \<and>
    2 < txbuf_curr t \<and> user_data t = user_data s \<and>
    take (txbuf_curr t) (txbuf t) = take (txbuf_curr s) (txbuf s) @
      [crc_low (calc_crc P (take (txbuf_curr s) (txbuf s))), crc_high (calc_crc P (take (txbuf_curr s) (txbuf s)))]"
proof -
  let ?n = "txbuf_curr s" and ?buf = "txbuf s"
  let ?crc = "calc_crc P (take ?n ?buf)"
  let ?t = "update_state RTU_STATE_BUSY
      (s\<lparr>txbuf := ?buf[?n := crc_low ?crc, Suc ?n := crc_high ?crc], txbuf_curr := Suc (Suc ?n)\<rparr>)"
  have n: "Suc ?n < length ?buf" using assms(4-6) by (simp add: capacities)
  have "adu_reply P s = serial_send P ?t"
    using n by (simp add: adu_reply_def load_all_ok store_ok Let_def)
  moreover have "rtu_inv tmr good ?t"
    using assms by (simp add: rtu_inv_defs state_defs capacities)
  moreover have "take (Suc (Suc ?n)) (?buf[?n := crc_low ?crc, Suc ?n := crc_high ?crc])
      = take ?n ?buf @ [crc_low ?crc, crc_high ?crc]"
    using n by (simp add: take_Suc_conv_app_nth)
  ultimately show ?thesis
    using assms(5) by (intro exI [of _ ?t]) (simp add: update_state_def RTU_STATE_UPDATE_def)
qed

lemma adu_process_inv:
  assumes pend: "pending s" and run: "adu_process P s = Inr s'"
  shows "rtu_inv tmr good s'"
proof (cases "frame_ok P (received s)")
  case False
  then have "s' = set_error s \<or> s' = set_error (s\<lparr>crc_err_cntr := crc_err_cntr s + 1\<rparr>)"
    using run pend by (simp add: adu_process_def adu_check_eq pending_def split: if_split_asm)
  then show ?thesis
    using pend by (elim disjE) (simp_all add: pending_def rtu_inv_defs state_defs)
next
  case True
  have len: "4 \<le> rxbuf_curr s" "rxbuf_curr s \<le> RXBUF_CAPACITY" "length (rxbuf s) = RXBUF_CAPACITY"
    using True pend by (simp_all add: frame_ok_def received_def pending_def capacities)
  then have loads: "load Rxbuf (rxbuf s) 0 = Inr (rxbuf s ! 0)" "load Rxbuf (rxbuf s) 1 = Inr (rxbuf s ! 1)"
    by (simp_all add: load_ok)
  from run True pend loads obtain t dst
    where t: "pdu_cb P s (rxbuf s ! 0) (rxbuf s ! 1) 0 (rxbuf_curr s - 2) 2 0 (TXBUF_CAPACITY - 2) = Inr (t, dst)"
      and s': "(let s = t\<lparr>txbuf_curr := dst, rxbuf_curr := 0\<rparr> in
        if txbuf_curr s \<noteq> 0 then adu_reply P s else Inr s) = Inr s'"
    by (auto simp: adu_process_def adu_check_eq pending_def bind_res_Inr_iff)
  from pdu [OF _ _ _ len(1) _ t] pend len obtain u buf
    where u: "t = s\<lparr>user_data := u, txbuf := buf\<rparr>" "tmr u = tmr (user_data s)" "good u"
      "length buf = TXBUF_CAPACITY" "dst \<le> TXBUF_CAPACITY - 2"
    by (auto simp: pending_def)
  let ?t = "t\<lparr>txbuf_curr := dst, rxbuf_curr := 0\<rparr>"
  show ?thesis
  proof (cases "dst = 0")
    case True
    then show ?thesis
      using s' u pend by (auto simp: pending_def rtu_inv_defs)
  next
    case False
    then have "\<exists>r. adu_reply P ?t = serial_send P r \<and> rtu_inv tmr good r \<and> curr_st r = RTU_STATE_BUSY \<and>
        2 < txbuf_curr r"
      using adu_reply_inv [of ?t] u pend len(3) by (auto simp: pending_def)
    with send s' False show ?thesis by auto
  qed
qed


lemma modbus_rtu_event_inv:
  assumes inv: "rtu_inv tmr good s" and run: "modbus_rtu_event P s = Inr s'"
  shows "rtu_inv tmr good s'"
proof -
  let ?t = "s\<lparr>status := (status s)\<lparr>updated := False\<rparr>\<rparr>"
  from run inv have run': "event_live P s = Inr s'" by (simp add: event_is_live)
  have good: "good (user_data ?t)" and edge: "legal_edge (prev_st ?t) (curr_st ?t)"
    using inv by (simp_all add: rtu_inv_def)
  consider "\<not> updated (status s)" | "updated (status s)" "st_error (status s)"
    | "updated (status s)" "\<not> st_error (status s)" "curr_st s = RTU_STATE_INIT"
    | "updated (status s)" "\<not> st_error (status s)" "curr_st s = RTU_STATE_IDLE" "prev_st s = RTU_STATE_EOF"
    | "updated (status s)" "\<not> st_error (status s)" "curr_st s \<noteq> RTU_STATE_INIT"
      "\<not> (curr_st s = RTU_STATE_IDLE \<and> prev_st s = RTU_STATE_EOF)"
    by blast
  then show ?thesis
  proof cases
    case 1
    with run' inv show ?thesis by (simp add: event_live_def)
  next
    case 2
    then have "event_error P ?t = Inr s'" using run' by (simp add: event_live_def Let_def)
    with event_error_ok [OF good edge] show ?thesis by auto
  next
    case 3
    then have "event_restart P ?t = Inr s'" using run' by (simp add: event_live_def Let_def)
    from event_restart_inv [OF good _ edge _ this] 3 show ?thesis by simp
  next
    case 4
    then obtain r where "adu_process P ?t = Inr r" and s': "s' = call_opt (resume_cb P) r"
      using run' by (auto simp: event_live_def Let_def bind_res_Inr_iff)
    from adu_process_inv [OF pending_event [OF inv 4] this(1)] show ?thesis
      unfolding s' by (simp add: call_opt_inv)
  next
    case 5
    have "rtu_inv tmr good ?t"
      using legal_rtu_inv [OF inv] inv 5
      by (cases rule: legal_edge_cases) (simp_all add: rtu_inv_defs)
    then have "rtu_inv tmr good (call_opt (suspend_cb P) ?t)" by (simp add: call_opt_inv)
    with \<open>rtu_inv tmr good ?t\<close> show ?thesis
      using run' 5 by (simp add: event_live_def Let_def split: if_split_asm)
  qed
qed

text \<open>In the state INIT the event restarts the machine.\<close>

lemma event_in_INIT_ok:
  assumes inv: "rtu_inv tmr good s" and c: "curr_st s = RTU_STATE_INIT"
  shows "\<exists>s'. modbus_rtu_event P s = Inr s' \<and> rtu_inv tmr good s' \<and> curr_st s' = RTU_STATE_INIT \<and>
    \<not> updated (status s') \<and> app (user_data s') = app (user_data s)"
proof -
  let ?t = "s\<lparr>status := (status s)\<lparr>updated := False\<rparr>\<rparr>"
  have "good (user_data ?t)" "legal_edge (prev_st ?t) (curr_st ?t)"
    using inv by (simp_all add: rtu_inv_def)
  with event_restart_ok [of ?t] event_error_ok [of ?t] c
  have "\<exists>s'. modbus_rtu_event P s = Inr s' \<and> curr_st s' = RTU_STATE_INIT \<and> \<not> updated (status s') \<and>
      app (user_data s') = app (user_data s)"
    by (cases "updated (status s)"; cases "st_error (status s)")
      (auto simp: event_is_live [OF inv] event_live_def Let_def)
  with modbus_rtu_event_inv [OF inv] show ?thesis by blast
qed

lemma adu_process_fault:
  assumes pend: "pending s" and run: "adu_process P s = Inl e"
  shows "client_fault P tmr good e"
proof -
  have len: "rxbuf_curr s \<le> length (rxbuf s)" using pend by (simp add: pending_def)
  have ok: "frame_ok P (received s)"
    using run by (auto simp: adu_process_def adu_check_eq [OF len] split: if_split_asm)
  then have len4: "4 \<le> rxbuf_curr s" by (simp add: frame_ok_def received_def capacities)
  with len have "load Rxbuf (rxbuf s) 0 = Inr (rxbuf s ! 0)" "load Rxbuf (rxbuf s) 1 = Inr (rxbuf s ! 1)"
    by (auto simp: load_def)
  with run ok consider
      "pdu_cb P s (rxbuf s ! 0) (rxbuf s ! 1) 0 (rxbuf_curr s - 2) 2 0 (TXBUF_CAPACITY - 2) = Inl e"
    | t dst where "pdu_cb P s (rxbuf s ! 0) (rxbuf s ! 1) 0 (rxbuf_curr s - 2) 2 0 (TXBUF_CAPACITY - 2) = Inr (t, dst)"
        "dst \<noteq> 0" "adu_reply P (t\<lparr>txbuf_curr := dst, rxbuf_curr := 0\<rparr>) = Inl e"
    by (auto simp: adu_process_def adu_check_eq [OF len] bind_res_Inl_iff Let_def split: if_split_asm)
  then show ?thesis
  proof cases
    case 1
    then show ?thesis unfolding client_fault_def by blast
  next
    case 2
    from pdu [OF _ _ _ len4 _ 2(1)] pend obtain u buf
      where "t = s\<lparr>user_data := u, txbuf := buf\<rparr>" "tmr u = tmr (user_data s)" "good u"
        "length buf = TXBUF_CAPACITY" "dst \<le> TXBUF_CAPACITY - 2"
      by (auto simp: pending_def)
    then have "\<exists>r. adu_reply P (t\<lparr>txbuf_curr := dst, rxbuf_curr := 0\<rparr>) = serial_send P r \<and>
        rtu_inv tmr good r \<and> curr_st r = RTU_STATE_BUSY"
      using adu_reply_inv [of "t\<lparr>txbuf_curr := dst, rxbuf_curr := 0\<rparr>"] pend 2(2)
      by (auto simp: pending_def)
    with 2(3) show ?thesis unfolding client_fault_def by metis
  qed
qed

lemma modbus_rtu_event_fault:
  assumes inv: "rtu_inv tmr good s" and run: "modbus_rtu_event P s = Inl e"
  shows "client_fault P tmr good e"
proof -
  let ?t = "s\<lparr>status := (status s)\<lparr>updated := False\<rparr>\<rparr>"
  have "good (user_data ?t)" "legal_edge (prev_st ?t) (curr_st ?t)"
    using inv by (simp_all add: rtu_inv_def)
  with event_restart_ok [of ?t] event_error_ok [of ?t] run inv
  have run': "adu_process P ?t = Inl e" and up: "updated (status s)" "\<not> st_error (status s)"
      and st: "curr_st s = RTU_STATE_IDLE" "prev_st s = RTU_STATE_EOF"
    by (auto simp: event_is_live event_live_def Let_def bind_res_Inl_iff split: if_split_asm)
  show ?thesis
    by (rule adu_process_fault [OF pending_event [OF inv up st] run'])
qed

lemma exec_inv:
  assumes "rtu_inv tmr good s" and "enabled tmr i s" and "exec P i s = Inr s'"
  shows "rtu_inv tmr good s'"
proof (cases i)
  case Timeout
  with assms call_timer_ok [of s] show ?thesis by auto
next
  case (Recv b)
  with assms serial_recv_ok [of s b] show ?thesis by auto
qed (use assms in \<open>auto intro: serial_recv_err_inv serial_sent_inv modbus_rtu_event_inv\<close>)

text \<open>The 3.5t timeout takes a machine that has restarted to IDLE.\<close>

lemma INIT_recovers:
  assumes inv: "rtu_inv tmr good s" and c: "curr_st s = RTU_STATE_INIT" and u: "\<not> updated (status s)"
  shows "\<exists>t s'. call_timer_cb P s = Inr t \<and> modbus_rtu_event P t = Inr s' \<and> rtu_inv tmr good s' \<and>
    curr_st s' = RTU_STATE_IDLE \<and> \<not> updated (status s') \<and> app (user_data s') = app (user_data s)"
proof -
  have cb: "timer_cb s = Some Timer_silent_interval_cb" and run: "tmr (user_data s) \<noteq> Stopped"
    using inv c u by (auto simp: rtu_inv_def timer_agrees_def)
  let ?s = "update_state RTU_STATE_IDLE s"
  from stop [of ?s] inv obtain v where v: "timer_stop P ?s = Inr (?s\<lparr>user_data := v\<rparr>)"
      "app v = app (user_data s)"
    by (auto simp: rtu_inv_def update_state_def)
  let ?t = "?s\<lparr>user_data := v\<rparr>"
  have t: "call_timer_cb P s = Inr ?t"
    using cb c v(1) by (simp add: call_timer_cb_def timer_silent_interval_cb_def)
  have inv_t: "rtu_inv tmr good ?t"
    using exec_inv [OF inv, of Timeout ?t] run t by simp
  obtain t where t_eq: "t = ?t" by simp
  have edge: "updated (status t)" "curr_st t = RTU_STATE_IDLE" "prev_st t = RTU_STATE_INIT"
      "\<not> st_error (status t)" "user_data t = v"
    using inv c u by (auto simp: state_defs rtu_inv_def t_eq)
  have inv_t': "rtu_inv tmr good t" using inv_t by (simp only: t_eq)
  have ev: "modbus_rtu_event P t = Inr (t\<lparr>status := (status t)\<lparr>updated := False\<rparr>\<rparr>)"
    using edge by (simp add: event_is_live [OF inv_t'] event_live_def Let_def)
  have "call_timer_cb P s = Inr t" using t by (simp only: t_eq)
  with ev modbus_rtu_event_inv [OF inv_t' ev] edge v(2) show ?thesis by auto
qed

lemma exec_fault:
  assumes "rtu_inv tmr good s" and "enabled tmr i s" and "exec P i s = Inl e"
  shows "i = Event \<and> client_fault P tmr good e"
proof (cases i)
  case Timeout
  with assms call_timer_ok [of s] show ?thesis by auto
next
  case (Recv b)
  with assms serial_recv_ok [of s b] show ?thesis by auto
qed (use assms in \<open>auto intro: modbus_rtu_event_fault\<close>)

lemma reachable_inv:
  assumes "reachable P tmr data s" and "good data" and "tmr data = Stopped"
  shows "rtu_inv tmr good s"
  using assms
proof (induction rule: reachable.induct)
  case start
  then show ?case by (simp add: rtu_inv_init)
next
  case (step s s')
  then show ?case by (auto elim!: rtu_stepE intro: exec_inv)
qed

end

end
