(* ===== verification/Rtu_Frames.thy ===== *)
theory Rtu_Frames
  imports Rtu_Invariant
begin

text \<open>
  How a frame travels through the slave state machine: from an idle slave through the bytes, the
  inter-frame timeout and the silent interval to the call of \<open>adu_process\<close>, with
  \<open>modbus_rtu_event\<close> called any number of times between the interrupts.
\<close>

section \<open>Runs of inputs\<close>

fun exec_all :: "'p platform \<Rightarrow> input list \<Rightarrow> 'p modbus_rtu_state \<Rightarrow> 'p modbus_rtu_state res" where
  "exec_all P [] s = Inr s"
| "exec_all P (i # is) s = bind_res (exec P i s) (exec_all P is)"

lemma exec_all_append: "exec_all P (is @ js) s = bind_res (exec_all P is s) (exec_all P js)"
  by (induction "is" arbitrary: s) (simp_all add: bind_res_assoc cong: bind_res_cong)

text \<open>The interrupts of a run, without the calls of the main loop.\<close>

definition interrupts :: "input list \<Rightarrow> input list" where
  "interrupts is = filter (\<lambda>i. i \<noteq> Event) is"

lemma interrupts_simps [simp]:
  "interrupts [] = []" "interrupts (Event # is) = interrupts is"
  "interrupts (Recv b # is) = Recv b # interrupts is"
  "interrupts (Timeout # is) = Timeout # interrupts is"
  by (simp_all add: interrupts_def)

lemma interrupts_map [simp]: "interrupts (map Recv bs) = map Recv bs"
  by (induction bs) simp_all

section \<open>The stages of a frame\<close>

datatype stage = Ready | Receiving | Ended | Complete

text \<open>
  \<open>Ready\<close>: idle with nothing pending. \<open>Receiving\<close>: the bytes so far are in the
  buffer. \<open>Ended\<close>: 1.5t of silence. \<open>Complete\<close>: the frame waits for its event.
\<close>

fun at_stage :: "stage \<Rightarrow> u8 list \<Rightarrow> 'p modbus_rtu_state \<Rightarrow> bool" where
  "at_stage Ready bs s = (bs = [] \<and> curr_st s = RTU_STATE_IDLE \<and> \<not> updated (status s))"
| "at_stage Receiving bs s =
     (bs \<noteq> [] \<and> curr_st s = (if length bs = 1 then RTU_STATE_SOF else RTU_STATE_RECV))"
| "at_stage Ended bs s = (curr_st s = RTU_STATE_EOF)"
| "at_stage Complete bs s =
     (curr_st s = RTU_STATE_IDLE \<and> prev_st s = RTU_STATE_EOF \<and> updated (status s))"

definition frame_at :: "('p \<Rightarrow> timer_mode) \<Rightarrow> ('p \<Rightarrow> bool) \<Rightarrow> ('p \<Rightarrow> 'a) \<Rightarrow> 'a \<Rightarrow> stage \<Rightarrow> u8 list
    \<Rightarrow> 'p modbus_rtu_state \<Rightarrow> bool" where
  "frame_at tmr good app a st bs s =
     (rtu_inv tmr good s \<and> \<not> st_error (status s) \<and> received s = bs \<and> app (user_data s) = a \<and>
      at_stage st bs s)"

lemma received_appended:
  assumes "rxbuf_curr s < RXBUF_CAPACITY" and "length (rxbuf s) = RXBUF_CAPACITY"
  shows "received (appended b s) = received s @ [b]"
  using assms by (simp add: received_def appended_def take_Suc_conv_app_nth)

lemma received_cong: "rxbuf s = rxbuf t \<Longrightarrow> rxbuf_curr s = rxbuf_curr t \<Longrightarrow> received s = received t"
  by (simp add: received_def)

lemma length_received: "rtu_inv tmr good s \<Longrightarrow> length (received s) = rxbuf_curr s"
  by (simp add: rtu_inv_def buffers_ok_def received_def)

lemma received_next:
  assumes "rtu_inv tmr good s" and "length (received s) < RXBUF_CAPACITY"
  shows "received (appended b (update_state c s)) = received s @ [b]"
    and "st_error (status (appended b (update_state c s))) = st_error (status s)"
proof -
  have room: "rxbuf_curr s < RXBUF_CAPACITY" using assms by (simp add: length_received)
  have "received (update_state c s) = received s"
    by (rule received_cong) (simp_all add: update_state_def)
  then show "received (appended b (update_state c s)) = received s @ [b]"
    using received_appended [of "update_state c s" b] assms(1) room
    by (simp add: update_state_def rtu_inv_def buffers_ok_def)
  show "st_error (status (appended b (update_state c s))) = st_error (status s)"
    using room by (simp add: appended_def state_defs)
qed

section \<open>Machines that take a frame\<close>

text \<open>
  What a frame needs of the executor of the inputs, whatever is around the calls of \<open>rtu.c\<close> in
  it: \<open>on st bs\<close> holds of the states at stage \<open>st\<close> of a frame that has the bytes
  \<open>bs\<close> so far.
\<close>

fun run_inputs :: "(input \<Rightarrow> 's \<Rightarrow> 's res) \<Rightarrow> input list \<Rightarrow> 's \<Rightarrow> 's res" where
  "run_inputs E [] s = Inr s"
| "run_inputs E (i # is) s = bind_res (E i s) (run_inputs E is)"

lemma run_inputs_append: "run_inputs E (is @ js) s = bind_res (run_inputs E is s) (run_inputs E js)"
  by (induction "is" arbitrary: s) (simp_all add: bind_res_assoc cong: bind_res_cong)

lemma exec_all_run: "exec_all P is s = run_inputs (exec P) is s"
  by (induction "is" arbitrary: s) (simp_all cong: bind_res_cong)

locale frame_machine =
  fixes E :: "input \<Rightarrow> 's \<Rightarrow> 's res" and on :: "stage \<Rightarrow> u8 list \<Rightarrow> 's \<Rightarrow> bool"
  assumes first_byte: "on Ready [] s \<Longrightarrow> \<exists>s'. E (Recv b) s = Inr s' \<and> on Receiving [b] s'"
    and next_byte: "on Receiving bs s \<Longrightarrow> length bs < RXBUF_CAPACITY \<Longrightarrow>
      \<exists>s'. E (Recv b) s = Inr s' \<and> on Receiving (bs @ [b]) s'"
    and silence_1t5: "on Receiving bs s \<Longrightarrow> 2 \<le> length bs \<Longrightarrow> \<exists>s'. E Timeout s = Inr s' \<and> on Ended bs s'"
    and silence_3t5: "on Ended bs s \<Longrightarrow> \<exists>s'. E Timeout s = Inr s' \<and> on Complete bs s'"
    and event: "on st bs s \<Longrightarrow> st \<noteq> Complete \<Longrightarrow> \<exists>s'. E Event s = Inr s' \<and> on st bs s'"
begin

lemma events:
  assumes "set is \<subseteq> {Event}" and "on st bs s" and "st \<noteq> Complete"
  shows "\<exists>s'. run_inputs E is s = Inr s' \<and> on st bs s'"
  using assms
proof (induction "is" arbitrary: s)
  case (Cons i "is")
  with event [of st bs s] show ?case by (auto simp: bind_res_Inr_iff)
qed simp

lemma more_bytes:
  assumes "interrupts is = map Recv cs" and "on Receiving bs s" and "length bs + length cs \<le> RXBUF_CAPACITY"
  shows "\<exists>s'. run_inputs E is s = Inr s' \<and> on Receiving (bs @ cs) s'"
  using assms
proof (induction "is" arbitrary: s bs cs)
  case (Cons i "is")
  show ?case
  proof (cases i)
    case Event
    with Cons.prems event [of Receiving bs s] obtain s' where
      "E i s = Inr s'" "on Receiving bs s'" by auto
    with Cons.IH [of cs bs s'] Cons.prems Event show ?thesis by auto
  next
    case (Recv b)
    with Cons.prems obtain cs' where cs: "cs = b # cs'" "interrupts is = map Recv cs'" by auto
    with Cons.prems next_byte [of bs s b] obtain s' where
      "E i s = Inr s'" "on Receiving (bs @ [b]) s'" by (auto simp: Recv)
    with Cons.IH [of cs' "bs @ [b]" s'] Cons.prems cs show ?thesis by auto
  qed (use Cons.prems in \<open>auto simp: interrupts_def\<close>)
qed simp

lemma all_bytes:
  assumes "interrupts is = map Recv bs" and "on Ready [] s" and "bs \<noteq> []" and "length bs \<le> RXBUF_CAPACITY"
  shows "\<exists>s'. run_inputs E is s = Inr s' \<and> on Receiving bs s'"
  using assms
proof (induction "is" arbitrary: s)
  case (Cons i "is")
  show ?case
  proof (cases i)
    case Event
    with Cons.prems event [of Ready "[]" s] obtain s' where "E i s = Inr s'" "on Ready [] s'" by auto
    with Cons Event show ?thesis by auto
  next
    case (Recv b)
    with Cons.prems obtain bs' where bs: "bs = b # bs'" "interrupts is = map Recv bs'" by auto
    from Cons.prems first_byte [of s b] obtain s' where "E i s = Inr s'" "on Receiving [b] s'" by (auto simp: Recv)
    with more_bytes [OF bs(2), of "[b]" s'] bs(1) Cons.prems(4) show ?thesis by auto
  qed (use Cons.prems in \<open>auto simp: interrupts_def\<close>)
qed simp

text \<open>From an idle slave to a complete frame, whatever the main loop does in between.\<close>

lemma whole_frame:
  assumes "on Ready [] s" and "interrupts is = map Recv bs" and "2 \<le> length bs" and "length bs \<le> RXBUF_CAPACITY"
    and "set es \<subseteq> {Event}"
  shows "\<exists>s'. run_inputs E (is @ Timeout # es @ [Timeout]) s = Inr s' \<and> on Complete bs s'"
proof -
  have "bs \<noteq> []" using assms(3) by auto
  from all_bytes [OF assms(2,1) this assms(4)] obtain s1 where s1: "run_inputs E is s = Inr s1" "on Receiving bs s1" by blast
  from silence_1t5 [OF s1(2) assms(3)] obtain s2 where s2: "E Timeout s1 = Inr s2" "on Ended bs s2" by blast
  from events [OF assms(5) s2(2)] obtain s3 where s3: "run_inputs E es s2 = Inr s3" "on Ended bs s3" by blast
  from silence_3t5 [OF s3(2)] obtain s4 where "E Timeout s3 = Inr s4" "on Complete bs s4" by blast
  with s1(1) s2(1) s3(1) show ?thesis by (simp add: run_inputs_append)
qed

end

context rtu_platform
begin

lemma frame_first_byte:
  assumes "frame_at tmr good app a Ready bs s"
  shows "\<exists>s'. exec P (Recv b) s = Inr s' \<and> frame_at tmr good app a Receiving (bs @ [b]) s'"
proof -
  have inv: "rtu_inv tmr good s" and c: "curr_st s = RTU_STATE_IDLE" and bs: "received s = []" "bs = []"
    using assms by (simp_all add: frame_at_def)
  let ?s = "appended b (update_state RTU_STATE_SOF s)"
  from recv_first [OF inv c, of b] obtain u where
    u: "serial_recv_cb P s b = Inr (?s\<lparr>timer_cb := Some Timer_inter_frame_timeout_cb, user_data := u\<rparr>)"
      "rtu_inv tmr good (?s\<lparr>timer_cb := Some Timer_inter_frame_timeout_cb, user_data := u\<rparr>)"
      "app u = app (user_data s)"
    by blast
  have "received (?s\<lparr>timer_cb := Some Timer_inter_frame_timeout_cb, user_data := u\<rparr>) = received ?s"
    by (rule received_cong) simp_all
  with u received_next [OF inv, of b RTU_STATE_SOF] assms bs show ?thesis
    by (auto simp: frame_at_def capacities) (simp add: update_state_def RTU_STATE_UPDATE_def)
qed

lemma frame_next_byte:
  assumes "frame_at tmr good app a Receiving bs s" and "length bs < RXBUF_CAPACITY"
  shows "\<exists>s'. exec P (Recv b) s = Inr s' \<and> frame_at tmr good app a Receiving (bs @ [b]) s'"
proof -
  have inv: "rtu_inv tmr good s" and c: "curr_st s = RTU_STATE_SOF \<or> curr_st s = RTU_STATE_RECV"
      and bs: "received s = bs"
    using assms by (auto simp: frame_at_def)
  let ?s = "appended b (update_state RTU_STATE_RECV s)"
  from recv_next [OF inv c, of b] obtain u where
    u: "serial_recv_cb P s b = Inr (?s\<lparr>user_data := u\<rparr>)" "rtu_inv tmr good (?s\<lparr>user_data := u\<rparr>)"
      "app u = app (user_data s)"
    by blast
  have "received (?s\<lparr>user_data := u\<rparr>) = received ?s"
    by (rule received_cong) simp_all
  with u received_next [OF inv, of b RTU_STATE_RECV] assms bs show ?thesis
    by (auto simp: frame_at_def) (simp_all add: update_state_def RTU_STATE_UPDATE_def)
qed

lemma frame_end:
  assumes "frame_at tmr good app a Receiving bs s" and "2 \<le> length bs"
  shows "\<exists>s'. exec P Timeout s = Inr s' \<and> frame_at tmr good app a Ended bs s'"
proof -
  have inv: "rtu_inv tmr good s" and c: "curr_st s = RTU_STATE_RECV"
    using assms by (auto simp: frame_at_def)
  from inv c have t: "timer_cb s = Some Timer_inter_frame_timeout_cb"
    by (simp add: rtu_inv_def timer_agrees_def)
  let ?s = "\<lambda>u. (update_state RTU_STATE_EOF s)\<lparr>timer_cb := Some Timer_silent_interval_cb, user_data := u\<rparr>"
  from inter_frame_timeout [OF inv c] obtain u where
    u: "timer_inter_frame_timeout_cb P s = Inr (?s u)" "rtu_inv tmr good (?s u)" "app u = app (user_data s)"
    by blast
  have "received (?s u) = received s" by (rule received_cong) (simp_all add: update_state_def)
  with u assms t show ?thesis
    by (auto simp: frame_at_def call_timer_cb_def) (simp_all add: state_defs)
qed

lemma frame_confirmed:
  assumes "frame_at tmr good app a Ended bs s"
  shows "\<exists>s'. exec P Timeout s = Inr s' \<and> frame_at tmr good app a Complete bs s'"
proof -
  have inv: "rtu_inv tmr good s" and c: "curr_st s = RTU_STATE_EOF"
    using assms by (auto simp: frame_at_def)
  then have t: "timer_cb s = Some Timer_silent_interval_cb" and p: "prev_st s = RTU_STATE_RECV"
    by (simp_all add: rtu_inv_def timer_agrees_def legal_edge_def)
  let ?s = "\<lambda>u. (update_state RTU_STATE_IDLE s)\<lparr>user_data := u\<rparr>"
  from silent_interval [OF inv] c p obtain u where
    u: "timer_silent_interval_cb P s = Inr (?s u)" "rtu_inv tmr good (?s u)" "app u = app (user_data s)"
    by blast
  have "received (?s u) = received s" by (rule received_cong) (simp_all add: update_state_def)
  with u assms t c show ?thesis
    by (auto simp: frame_at_def call_timer_cb_def) (simp_all add: state_defs)
qed

lemma frame_event:
  assumes "frame_at tmr good app a st bs s" and "st \<noteq> Complete"
  shows "\<exists>s'. exec P Event s = Inr s' \<and> frame_at tmr good app a st bs s'"
proof (cases "updated (status s)")
  case False
  then show ?thesis using assms by (simp add: modbus_rtu_event_def)
next
  case True
  let ?t = "s\<lparr>status := (status s)\<lparr>updated := False\<rparr>\<rparr>"
  have inv: "rtu_inv tmr good s" and err: "\<not> st_error (status s)"
    using assms by (simp_all add: frame_at_def)
  have st: "curr_st s = RTU_STATE_SOF \<or> curr_st s = RTU_STATE_RECV \<or> curr_st s = RTU_STATE_EOF"
    using assms True by (cases st) (auto simp: frame_at_def split: if_split_asm)
  have eq: "modbus_rtu_event P s
      = Inr (if curr_st s = RTU_STATE_SOF then call_opt (suspend_cb P) ?t else ?t)"
    using st True err by (auto simp: event_is_live [OF inv] event_live_def Let_def)
  moreover have "rtu_inv tmr good (if curr_st s = RTU_STATE_SOF then call_opt (suspend_cb P) ?t else ?t)"
    by (rule modbus_rtu_event_inv [OF inv eq])
  moreover have "app (user_data (call_opt (suspend_cb P) ?t)) = app (user_data s)"
    using suspend [of _ "user_data s"] inv by (auto simp: call_opt_def rtu_inv_def split: option.splits)
  moreover have "received (call_opt (suspend_cb P) ?t) = received s" "received ?t = received s"
      "status (call_opt (suspend_cb P) ?t) = status ?t"
    by (auto simp: received_def call_opt_def split: option.splits)
  moreover have "at_stage st bs ?t" "at_stage st bs (call_opt (suspend_cb P) ?t)"
    using assms by (cases st; auto simp: frame_at_def call_opt_def split: option.splits)+
  ultimately show ?thesis
    using assms by (auto simp: frame_at_def)
qed

text \<open>The event of a complete frame is the call of \<open>adu_process\<close> on it.\<close>

lemma frame_processed:
  assumes "frame_at tmr good app a Complete bs s"
  shows "\<exists>t. exec P Event s = bind_res (adu_process P t) (\<lambda>s. Inr (call_opt (resume_cb P) s)) \<and>
    pending t \<and> received t = bs \<and> app (user_data t) = a \<and> user_data t = user_data s"
proof -
  have inv: "rtu_inv tmr good s" and err: "\<not> st_error (status s)" and up: "updated (status s)"
    and st: "curr_st s = RTU_STATE_IDLE" "prev_st s = RTU_STATE_EOF"
    using assms by (simp_all add: frame_at_def)
  let ?t = "s\<lparr>status := (status s)\<lparr>updated := False\<rparr>\<rparr>"
  have "exec P Event s = bind_res (adu_process P ?t) (\<lambda>s. Inr (call_opt (resume_cb P) s))"
    using err up st by (simp add: event_is_live [OF inv] event_live_def Let_def)
  moreover have "received ?t = received s" by (rule received_cong) simp_all
  ultimately show ?thesis
    using pending_event [OF inv up err st] assms by (intro exI [of _ ?t]) (simp add: frame_at_def)
qed

end

sublocale rtu_platform \<subseteq> frame: frame_machine "exec P" "frame_at tmr good app a" for a
  by unfold_locales
    (use frame_first_byte frame_next_byte frame_end frame_confirmed frame_event in \<open>fastforce simp del: exec.simps\<close>)+

context rtu_platform
begin

lemmas frame_received = frame.whole_frame [folded exec_all_run]

end

end
