(* ===== verification/Linux_Invariant.thy ===== *)
theory Linux_Invariant
  imports Linux_Rtu Rtu_Frames Memory_Frame
begin

text \<open>
  The Linux slave keeps the contract \<open>rtu_platform\<close>, so the invariant of the state machine
  holds in it: its timers never fail their checks, and the depth 1 that \<open>linux_platform\<close>
  gives to the recursion of \<open>send_impl\<close> is enough.
\<close>

section \<open>The contract\<close>

text \<open>
  The two intervals are not the \<open>- 1\<close> of a timer that is off and they differ, as those of every
  supported rate do (shown below), and the timer is off or runs one of them.
\<close>

definition impl_ok :: "rtu_impl \<Rightarrow> bool" where
  "impl_ok i =
     (timeout_1t5_us i \<noteq> - 1 \<and> timeout_3t5_us i \<noteq> - 1 \<and> timeout_1t5_us i \<noteq> timeout_3t5_us i \<and>
      (timeout_us i = - 1 \<or> timeout_us i = timeout_1t5_us i \<or> timeout_us i = timeout_3t5_us i))"

definition impl_mode :: "rtu_impl \<Rightarrow> timer_mode" where
  "impl_mode i =
     (if timeout_us i = - 1 then Stopped
      else if timeout_us i = timeout_1t5_us i then Running_1t5 else Running_3t5)"

text \<open>What the timers do not touch: memory, rate and line.\<close>

definition impl_app :: "rtu_impl \<Rightarrow> rtu_memory_impl \<times> speed_t \<times> u8 list \<times> syscall list" where
  "impl_app i = (memory_impl i, rate i, wire (dev i), calls (dev i))"

lemmas impl_defs = impl_ok_def impl_mode_def impl_app_def

lemma platform_with_simps [simp]:
  "timer_start_1t5 (platform_with f) = impl_timer_start_1t5"
  "timer_start_3t5 (platform_with f) = impl_timer_start_3t5"
  "timer_stop (platform_with f) = impl_timer_stop"
  "timer_reset (platform_with f) = impl_timer_reset"
  "serial_send (platform_with f) = f"
  "pdu_cb (platform_with f) = pdu_cb_proxy"
  "suspend_cb (platform_with f) = None" "resume_cb (platform_with f) = None"
  "calc_crc (platform_with f) bs = modbus_rtu_calc_crc (Some bs)"
  by (simp_all add: platform_with_def)

lemma read_clock_simps [simp]:
  "timeout_us (snd (read_clock i)) = timeout_us i" "timeout_1t5_us (snd (read_clock i)) = timeout_1t5_us i"
  "timeout_3t5_us (snd (read_clock i)) = timeout_3t5_us i"
  "memory_impl (snd (read_clock i)) = memory_impl i" "rate (snd (read_clock i)) = rate i"
  "wire (dev (snd (read_clock i))) = wire (dev i)" "calls (dev (snd (read_clock i))) = calls (dev i)"
  by (simp_all add: read_clock_def timestamp_us_def)

text \<open>The data a timer operation leaves.\<close>

definition started :: "(rtu_impl \<Rightarrow> int) \<Rightarrow> rtu_impl \<Rightarrow> rtu_impl" where
  "started t i = (snd (read_clock i))\<lparr>timestamp := fst (read_clock i), timeout_us := t i,
     start_cntr := start_cntr (snd (read_clock i)) + 1\<rparr>"

definition restarted :: "rtu_impl \<Rightarrow> rtu_impl" where
  "restarted i = (snd (read_clock i))\<lparr>timestamp := fst (read_clock i),
     reset_cntr := reset_cntr (snd (read_clock i)) + 1\<rparr>"

definition stopped :: "rtu_impl \<Rightarrow> rtu_impl" where
  "stopped i = (if timeout_us i = - 1 then i else i\<lparr>timeout_us := - 1, stop_cntr := stop_cntr i + 1\<rparr>)"

lemma impl_start_eq:
  assumes "t (snd (read_clock (user_data s))) = t (user_data s)" and "timeout_us (user_data s) = - 1"
  shows "impl_start t s = Inr (s\<lparr>user_data := started t (user_data s)\<rparr>)"
  using assms by (simp add: impl_start_def Let_def split_beta started_def)

lemma impl_start_ok:
  assumes ok: "impl_ok (user_data s)" and off: "impl_mode (user_data s) = Stopped"
  shows "\<exists>u. impl_timer_start_1t5 s = Inr (s\<lparr>user_data := u\<rparr>) \<and> impl_mode u = Running_1t5 \<and> impl_ok u \<and>
      impl_app u = impl_app (user_data s)"
    and "\<exists>u. impl_timer_start_3t5 s = Inr (s\<lparr>user_data := u\<rparr>) \<and> impl_mode u = Running_3t5 \<and> impl_ok u \<and>
      impl_app u = impl_app (user_data s)"
proof -
  have off': "timeout_us (user_data s) = - 1" using off by (simp add: impl_mode_def split: if_split_asm)
  show "\<exists>u. impl_timer_start_1t5 s = Inr (s\<lparr>user_data := u\<rparr>) \<and> impl_mode u = Running_1t5 \<and> impl_ok u \<and>
      impl_app u = impl_app (user_data s)"
    using ok off'
    by (intro exI [of _ "started timeout_1t5_us (user_data s)"])
      (simp add: impl_timer_start_1t5_def impl_start_eq started_def impl_defs)
  show "\<exists>u. impl_timer_start_3t5 s = Inr (s\<lparr>user_data := u\<rparr>) \<and> impl_mode u = Running_3t5 \<and> impl_ok u \<and>
      impl_app u = impl_app (user_data s)"
    using ok off'
    by (intro exI [of _ "started timeout_3t5_us (user_data s)"])
      (simp add: impl_timer_start_3t5_def impl_start_eq started_def impl_defs)
qed

lemma impl_stop_ok:
  assumes "impl_ok (user_data s)"
  shows "\<exists>u. impl_timer_stop s = Inr (s\<lparr>user_data := u\<rparr>) \<and> impl_mode u = Stopped \<and> impl_ok u \<and>
      impl_app u = impl_app (user_data s)"
  using assms
  by (intro exI [of _ "stopped (user_data s)"])
    (simp add: impl_timer_stop_def stopped_def impl_defs Let_def)

lemma impl_reset_ok:
  assumes "impl_ok (user_data s)" and "impl_mode (user_data s) \<noteq> Stopped"
  shows "\<exists>u. impl_timer_reset s = Inr (s\<lparr>user_data := u\<rparr>) \<and> impl_mode u = impl_mode (user_data s) \<and>
      impl_ok u \<and> impl_app u = impl_app (user_data s)"
proof -
  have "timeout_us (user_data s) \<noteq> - 1" using assms(2) by (simp add: impl_mode_def split: if_split_asm)
  with assms(1) show ?thesis
    by (intro exI [of _ "restarted (user_data s)"])
      (simp add: impl_timer_reset_def restarted_def impl_defs Let_def split_beta)
qed

lemma memory_pdu_ok:
  assumes len: "length tx = TXBUF_CAPACITY"
    and h: "rtu_memory_impl_pdu_cb mi rx a f b e c (tx, 0) = Inr (mi', buf, dst)"
  shows "length buf = TXBUF_CAPACITY \<and> dst \<le> TXBUF_CAPACITY - 2"
proof (cases "self_addr mi = a")
  case False
  with h len show ?thesis by (simp add: rtu_memory_impl_pdu_cb_def)
next
  case True
  with h obtain c1 m' where put: "put Txbuf (tx, 0) a = Inr c1"
    and cb: "rtu_memory_pdu_cb (impl_memory mi) rx f (Suc b) e c c1 = Inr (m', buf, dst)"
    by (auto simp: rtu_memory_impl_pdu_cb_def bind_res_Inr_iff)
  from rtu_memory_pdu_cb_frame [of "impl_memory mi" c1 rx f "Suc b" e c] cb
  obtain n where "advances n c1 (buf, dst)" "n \<le> 253"
    unfolding handler_frame_def by blast
  with put_advances [OF put] len show ?thesis
    by (auto simp: advances_def TXBUF_CAPACITY_def ADU_CAPACITY_def)
qed

lemma impl_pdu_ok:
  assumes len: "length (txbuf s) = TXBUF_CAPACITY"
    and run: "pdu_cb_proxy s a f b e c 0 (TXBUF_CAPACITY - 2) = Inr (s', dst)"
  shows "\<exists>u buf. s' = s\<lparr>user_data := u, txbuf := buf\<rparr> \<and> impl_mode u = impl_mode (user_data s) \<and>
      (impl_ok (user_data s) \<longrightarrow> impl_ok u) \<and> length buf = TXBUF_CAPACITY \<and> dst \<le> TXBUF_CAPACITY - 2"
proof -
  let ?i = "user_data s"
  from run obtain mi buf where
    h: "rtu_memory_impl_pdu_cb (memory_impl ?i) (rxbuf s) a f b e c (txbuf s, 0) = Inr (mi, buf, dst)"
    and s': "s' = s\<lparr>user_data := ?i\<lparr>memory_impl := mi\<rparr>, txbuf := buf\<rparr>"
    by (auto simp: pdu_cb_proxy_def Let_def bind_res_Inr_iff)
  from memory_pdu_ok [OF len h] show ?thesis
    unfolding s' by (intro exI) (auto simp: impl_defs)
qed

section \<open>Transmission\<close>

lemma transmit_shape:
  "transmit s = Inr t \<Longrightarrow> \<exists>w. t = s\<lparr>user_data := (user_data s)\<lparr>dev := w\<rparr>\<rparr>"
  by (auto simp: transmit_def Let_def bind_res_Inr_iff split: if_splits)

text \<open>In the state INIT the event does not send, so it is the same for every \<open>serial_send\<close>.\<close>

lemma event_in_INIT:
  assumes "curr_st s = RTU_STATE_INIT"
  shows "modbus_rtu_event (platform_with f) s = modbus_rtu_event (platform_with g) s"
proof -
  have "event_restart (platform_with f) = event_restart (platform_with g)"
    by (simp add: event_restart_def fun_eq_iff)
  then show ?thesis
    using assms by (simp add: modbus_rtu_event_def event_dispatch_def event_error_def Let_def)
qed

lemma send_depth:
  assumes "curr_st s = RTU_STATE_BUSY"
  shows "send_impl (Suc n) s = send_impl 1 s"
proof -
  have "modbus_rtu_event (platform_with (send_impl n)) (serial_sent_cb t)
      = modbus_rtu_event (platform_with (send_impl 0)) (serial_sent_cb t)" if "transmit s = Inr t" for t
    using transmit_shape [OF that] assms
    by (intro event_in_INIT) (auto simp: serial_sent_cb_def state_defs)
  then show ?thesis by (auto intro!: bind_res_cong)
qed

lemma rtu_platform_with:
  assumes "\<And>s s'. rtu_inv impl_mode impl_ok s \<Longrightarrow> curr_st s = RTU_STATE_BUSY \<Longrightarrow> f s = Inr s' \<Longrightarrow>
    rtu_inv impl_mode impl_ok s'"
  shows "rtu_platform (platform_with f) impl_mode impl_ok impl_app"
proof (unfold_locales, goal_cases)
  case (7 s s' dst)
  from impl_pdu_ok [OF 7(3) 7(6) [simplified]] 7(1) show ?case by auto
qed (simp_all add: impl_start_ok impl_stop_ok impl_reset_ok assms)

lemma rtu_inv_dev:
  assumes "rtu_inv impl_mode impl_ok s"
  shows "rtu_inv impl_mode impl_ok (s\<lparr>user_data := (user_data s)\<lparr>dev := w\<rparr>\<rparr>)"
proof (rule rtu_inv_user_data [OF assms])
  show "impl_ok ((user_data s)\<lparr>dev := w\<rparr>)"
    using assms by (simp add: rtu_inv_def impl_ok_def)
qed (simp add: impl_mode_def)

lemma send_impl_inv:
  "rtu_inv impl_mode impl_ok s \<Longrightarrow> send_impl n s = Inr s' \<Longrightarrow> rtu_inv impl_mode impl_ok s'"
proof (induction n arbitrary: s s')
  case (Suc n)
  from Suc.prems(2) obtain t where t: "transmit s = Inr t"
    and run: "modbus_rtu_event (platform_with (send_impl n)) (serial_sent_cb t) = Inr s'"
    by (auto simp: bind_res_Inr_iff)
  from transmit_shape [OF t] obtain w where "t = s\<lparr>user_data := (user_data s)\<lparr>dev := w\<rparr>\<rparr>" ..
  with rtu_inv_dev [OF Suc.prems(1)] have "rtu_inv impl_mode impl_ok t" by simp
  from rtu_platform.modbus_rtu_event_inv [OF rtu_platform_with serial_sent_inv [OF this] run] Suc.IH
  show ?case by blast
qed simp

lemma linux_rtu_platform: "rtu_platform linux_platform impl_mode impl_ok impl_app"
  unfolding linux_platform_def by (rule rtu_platform_with) (rule send_impl_inv)

interpretation linux_rtu: rtu_platform linux_platform impl_mode impl_ok impl_app
  by (rule linux_rtu_platform)

end
