(* ===== verification/Adu.thy ===== *)
theory Adu
  imports Crc16
begin

text \<open>
  The frame of a PDU: the slave address in front of it and the CRC of both after it, low byte
  first. Master and slave build and check frames through the CRC of \<open>linux/crc.c\<close>.
\<close>

abbreviation linux_frame_ok :: "u8 list \<Rightarrow> bool" where
  "linux_frame_ok \<equiv> crc_frame_ok (\<lambda>bs. CRC_TO_WORD (modbus_rtu_calc_crc (Some bs)))"

definition crc_bytes :: "u8 list \<Rightarrow> u8 list" where
  "crc_bytes bs =
     [crc_low (modbus_rtu_calc_crc (Some bs)), crc_high (modbus_rtu_calc_crc (Some bs))]"

definition adu :: "u8 \<Rightarrow> u8 list \<Rightarrow> u8 list" where
  "adu addr pdu = addr # pdu @ crc_bytes (addr # pdu)"

lemma length_crc_bytes [simp]: "length (crc_bytes bs) = 2"
  by (simp add: crc_bytes_def)

lemma length_adu [simp]: "length (adu a pdu) = length pdu + 3"
  by (simp add: adu_def)

text \<open>Two bytes after \<open>bs\<close> are a good CRC exactly when they are \<open>crc_bytes bs\<close>.\<close>

lemma crc_word_iff: "CRC_TO_WORD (modbus_rtu_calc_crc (Some bs)) = MAKE_WORD l h \<longleftrightarrow> crc_bytes bs = [l, h]"
  by (simp add: CRC_TO_WORD_def crc_bytes_def)

lemma crc_frame_ok_snoc: "linux_frame_ok (bs @ [l, h]) \<longleftrightarrow> crc_bytes bs = [l, h]"
  using linux_crc.frame_ok_append [of bs l h] by (simp add: crc_word_iff)

lemma crc_frame_ok_crc_bytes: "linux_frame_ok (bs @ crc_bytes bs)"
  using crc_frame_ok_snoc [of bs "crc_low (modbus_rtu_calc_crc (Some bs))" "crc_high (modbus_rtu_calc_crc (Some bs))"]
  by (simp add: crc_bytes_def)

lemma crc_frame_ok_adu: "linux_frame_ok (adu a pdu)"
  using crc_frame_ok_crc_bytes [of "a # pdu"] by (simp add: adu_def)

lemma crc_frame_ok_split:
  assumes "2 \<le> length f"
  shows "linux_frame_ok f \<longleftrightarrow> crc_bytes (take (length f - 2) f) = drop (length f - 2) f"
proof -
  obtain bs h where f: "f = bs @ [h]" using assms by (cases f rule: rev_cases) auto
  with assms obtain as l where "bs = as @ [l]" by (cases bs rule: rev_cases) auto
  with f have "f = as @ [l, h]" by simp
  then show ?thesis by (simp add: crc_frame_ok_snoc)
qed

end
