(* ===== verification/Linux_Slave.thy ===== *)
theory Linux_Slave
  imports Linux_Invariant Adu
begin

text \<open>
  The Linux slave as a whole: a request on its line is answered as the server of \<open>Memory_Spec\<close>
  answers it, a damaged one is not answered, and the loop of \<open>modbus_rtu_run\<close> keeps the
  invariant whatever the operating system returns to it.
\<close>

section \<open>Frames on the line\<close>

lemma calc_crc_linux [simp]: "calc_crc linux_platform bs = modbus_rtu_calc_crc (Some bs)"
  by (simp add: linux_platform_def)

lemma frame_ok_linux:
  "frame_ok linux_platform f \<longleftrightarrow>
   ADU_MIN_SIZE \<le> length f \<and> crc_frame_ok (\<lambda>bs. CRC_TO_WORD (modbus_rtu_calc_crc (Some bs))) f"
  by (simp add: frame_ok_def)

lemma frame_ok_adu: "pdu \<noteq> [] \<Longrightarrow> frame_ok linux_platform (adu a pdu)"
  by (cases pdu) (simp_all add: frame_ok_linux crc_frame_ok_adu capacities)

text \<open>On any platform: a frame in the buffer whose handler replies is a call of \<open>serial_send\<close>.\<close>

context rtu_platform
begin

lemma process_reply:
  assumes pend: "pending s" and recv: "received s = adu a (f # pdu)"
    and crc: "\<And>bs. calc_crc P bs = modbus_rtu_calc_crc (Some bs)"
    and cb: "pdu_cb P s a f 0 (Suc (Suc (length pdu))) 2 0 (TXBUF_CAPACITY - 2) =
      Inr (s\<lparr>user_data := u, txbuf := buf\<rparr>, Suc (length rp))"
    and buf: "take (Suc (length rp)) buf = a # rp"
  shows "\<exists>r. adu_process P s = serial_send P r \<and> rtu_inv tmr good r \<and> curr_st r = RTU_STATE_BUSY \<and>
    2 < txbuf_curr r \<and> user_data r = u \<and> take (txbuf_curr r) (txbuf r) = adu a rp"
proof -
  let ?n = "rxbuf_curr s" and ?t = "s\<lparr>user_data := u, txbuf := buf, txbuf_curr := Suc (length rp), rxbuf_curr := 0\<rparr>"
  have lens: "?n \<le> length (rxbuf s)" "length (txbuf s) = TXBUF_CAPACITY" "length (rxbuf s) = RXBUF_CAPACITY"
    using pend by (simp_all add: pending_def)
  have n: "?n = length pdu + 4"
    using arg_cong [OF recv, of length] lens by (simp add: received_def)
  have "rxbuf s = adu a (f # pdu) @ drop ?n (rxbuf s)"
    using recv unfolding received_def by (metis append_take_drop_id)
  then have rx: "rxbuf s ! 0 = a" "rxbuf s ! 1 = f" "4 \<le> length (rxbuf s)"
    using n lens(1) by (simp_all add: adu_def) (metis append_Cons nth_Cons_0 nth_Cons_Suc)+
  then have loads: "load Rxbuf (rxbuf s) 0 = Inr a" "load Rxbuf (rxbuf s) 1 = Inr f"
    by (auto simp: load_def)
  have "frame_ok P (adu a (f # pdu))"
    by (simp add: frame_ok_def crc crc_frame_ok_adu capacities)
  then have check: "adu_check P s 0 ?n = Inr (s, True)"
    using lens(1) by (simp add: adu_check_eq recv)
  have cb': "pdu_cb P s a f 0 (?n - 2) 2 0 (TXBUF_CAPACITY - 2) = Inr (s\<lparr>user_data := u, txbuf := buf\<rparr>, Suc (length rp))"
    using cb n by simp
  have process: "adu_process P s = adu_reply P ?t"
    by (simp add: adu_process_def check loads [simplified] cb' Let_def)
  have "tmr u = tmr (user_data s) \<and> good u \<and> length buf = TXBUF_CAPACITY \<and> Suc (length rp) \<le> TXBUF_CAPACITY - 2"
    using pdu [of s "s\<lparr>user_data := u, txbuf := buf\<rparr>" "Suc (length rp)"] pend cb lens n rx
    by (auto simp: pending_def dest: arg_cong [where f = user_data] arg_cong [where f = txbuf])
  with adu_reply_inv [of ?t] pend buf crc show ?thesis
    unfolding process by (simp add: pending_def adu_def crc_bytes_def)
qed

end

section \<open>The reply to a request\<close>

lemma transmit_at_once:
  assumes "txbuf_curr s \<le> length (txbuf s)" and "0 < txbuf_curr s" and "rate (user_data s) \<noteq> B0"
    and "calls (dev (user_data s)) = Poll_ret 1 True False # Write_ret n # Drain_ret # cs"
    and "txbuf_curr s \<le> n"
  shows "\<exists>w. transmit s = Inr (s\<lparr>user_data := (user_data s)\<lparr>dev := w\<rparr>\<rparr>) \<and>
    wire w = wire (dev (user_data s)) @ take (txbuf_curr s) (txbuf s) \<and> calls w = cs \<and>
    clock w = stl (stl (clock (dev (user_data s))))"
proof -
  obtain t where t: "0 \<le> t" "calc_tmax_ms (rate (user_data s)) (txbuf_curr s) = Inr t"
    using tmax_nonneg [OF assms(3)] by blast
  let ?data = "take (txbuf_curr s) (txbuf s)"
  have "?data \<noteq> []" "length ?data = txbuf_curr s" using assms(1,2) by auto
  with tty_write_at_once [OF assms(4) _ _ t(1), of ?data] assms(5) obtain w where
    "tty_write (dev (user_data s)) ?data t False = Inr (w, int (txbuf_curr s), False)"
    "wire w = wire (dev (user_data s)) @ ?data" "calls w = Drain_ret # cs" "clock w = stl (stl (clock (dev (user_data s))))"
    by auto
  with t(2) assms(1) show ?thesis
    by (intro exI [of _ "w\<lparr>calls := cs\<rparr>"]) (simp add: transmit_def Let_def load_all_ok sys_tcdrain_def)
qed

text \<open>The timer of \<open>i'\<close> runs from \<open>t\<close>, and its clock goes on with \<open>c\<close>.\<close>

definition ticking :: "rtu_impl \<Rightarrow> int \<Rightarrow> int stream \<Rightarrow> rtu_impl \<Rightarrow> bool" where
  "ticking i t c i' =
     (timestamp i' = t \<and> clock (dev i') = c \<and> timeout_1t5_us i' = timeout_1t5_us i \<and>
      timeout_3t5_us i' = timeout_3t5_us i)"

lemma ticking_timers:
  "ticking i (shd (clock (dev i))) (stl (clock (dev i))) (started t i)"
  "ticking i (shd (clock (dev i))) (stl (clock (dev i))) (restarted i)"
  "ticking i (timestamp i) (clock (dev i)) (stopped i)"
  by (simp_all add: ticking_def started_def restarted_def stopped_def read_clock_def timestamp_us_def)

lemma event_restart_data:
  "event_restart (platform_with f) s = Inr s' \<Longrightarrow> user_data s' = started timeout_3t5_us (stopped (user_data s))"
  by (auto simp: event_restart_def bind_res_Inr_iff impl_timer_stop_def impl_timer_start_3t5_def impl_start_def Let_def
      split_beta started_def stopped_def reset_rxbuf_def reset_txbuf_def split: if_split_asm)

lemma restart_ticks:
  assumes "modbus_rtu_event (platform_with f) s = Inr s'" and "curr_st s = RTU_STATE_INIT"
    and "updated (status s)"
  shows "ticking (user_data s) (shd (clock (dev (user_data s)))) (stl (clock (dev (user_data s)))) (user_data s')"
proof -
  have "user_data s' = started timeout_3t5_us (stopped (user_data s))"
    using assms
    by (auto simp: modbus_rtu_event_def event_dispatch_def event_error_def update_state_def Let_def
        dest: event_restart_data split: if_split_asm)
  then show ?thesis
    using ticking_timers(1) [of "stopped (user_data s)" timeout_3t5_us] ticking_timers(3) [of "user_data s"]
    by (simp add: ticking_def)
qed

text \<open>After the transmission the event restarts the machine.\<close>

lemma send_impl_at_once:
  assumes inv: "rtu_inv impl_mode impl_ok s" and busy: "curr_st s = RTU_STATE_BUSY"
    and "0 < txbuf_curr s" and "rate (user_data s) \<noteq> B0"
    and "calls (dev (user_data s)) = Poll_ret 1 True False # Write_ret n # Drain_ret # cs" and "TXBUF_CAPACITY \<le> n"
  shows "\<exists>s'. send_impl 1 s = Inr s' \<and> curr_st s' = RTU_STATE_INIT \<and> rtu_inv impl_mode impl_ok s' \<and>
    impl_app (user_data s') = (memory_impl (user_data s), rate (user_data s),
      wire (dev (user_data s)) @ take (txbuf_curr s) (txbuf s), cs) \<and> \<not> updated (status s') \<and>
    ticking (user_data s) (clock (dev (user_data s)) !! 2) (sdrop 3 (clock (dev (user_data s)))) (user_data s')"
proof -
  have len: "txbuf_curr s \<le> length (txbuf s)" "length (txbuf s) \<le> n"
    using inv assms(6) by (simp_all add: rtu_inv_def buffers_ok_def)
  with transmit_at_once [of s n cs] assms obtain w where
    w: "transmit s = Inr (s\<lparr>user_data := (user_data s)\<lparr>dev := w\<rparr>\<rparr>)"
      "wire w = wire (dev (user_data s)) @ take (txbuf_curr s) (txbuf s)" "calls w = cs"
      "clock w = stl (stl (clock (dev (user_data s))))"
    by auto
  let ?t = "serial_sent_cb (s\<lparr>user_data := (user_data s)\<lparr>dev := w\<rparr>\<rparr>)"
  have "rtu_inv impl_mode impl_ok ?t" by (intro serial_sent_inv rtu_inv_dev inv)
  moreover have init: "curr_st ?t = RTU_STATE_INIT" "user_data ?t = (user_data s)\<lparr>dev := w\<rparr>" "updated (status ?t)"
    using busy by (simp_all add: serial_sent_cb_def state_defs)
  ultimately obtain s' where s': "modbus_rtu_event (platform_with (send_impl 0)) ?t = Inr s'"
      "rtu_inv impl_mode impl_ok s'" "curr_st s' = RTU_STATE_INIT" "\<not> updated (status s')"
      "impl_app (user_data s') = impl_app ((user_data s)\<lparr>dev := w\<rparr>)"
    using rtu_platform.event_in_INIT_ok [OF rtu_platform_with, of "send_impl 0" ?t] by auto
  have "ticking (user_data s) (clock (dev (user_data s)) !! 2) (sdrop 3 (clock (dev (user_data s)))) (user_data s')"
    using restart_ticks [OF s'(1) init(1,3)] w(4) by (simp add: init(2) ticking_def eval_nat_numeral)
  with w s' show ?thesis by (simp add: impl_app_def)
qed

text \<open>The handler on a frame in the buffer: the reply is address and PDU.\<close>

lemma memory_pdu_request:
  assumes tx: "length tx = TXBUF_CAPACITY" and mi: "self_addr mi = a" and wf: "mem_wf (impl_memory mi)"
    and q: "request_wf q" "write_in_window (impl_memory mi) q"
  defines "m \<equiv> impl_memory mi"
  shows "\<exists>m' buf. rtu_memory_impl_pdu_cb mi (a # request_pdu q @ rest) a (request_fcode q) 0
      (Suc (length (request_pdu q))) 2 (tx, 0) =
      Inr (mi\<lparr>impl_memory := m'\<rparr>, buf, Suc (length (reply_pdu (snd (serve (mem_abs m) q))))) \<and>
    take (Suc (length (reply_pdu (snd (serve (mem_abs m) q))))) buf = a # reply_pdu (snd (serve (mem_abs m) q)) \<and>
    mem_abs m' = fst (serve (mem_abs m) q) \<and> mem_wf m' \<and> same_shape m m'"
proof -
  let ?rp = "reply_pdu (snd (serve (mem_abs m) q))"
  let ?tx = "tx[0 := a]"
  have put: "put Txbuf (tx, 0) a = Inr (?tx, 1)"
    using tx by (simp add: put_ok capacities)
  have "1 + length ?rp \<le> length ?tx"
    using reply_size [of "mem_abs m" q] tx by (simp add: capacities)
  with rtu_memory_pdu_cb_serves [OF wf q, of "(?tx, 1)" "[a]" rest] obtain m' where
    m': "rtu_memory_pdu_cb m (a # request_pdu q @ rest) (request_fcode q) (Suc 0)
        (Suc (length (request_pdu q))) 2 (?tx, 1) = Inr (m', overwrite ?tx 1 ?rp, 1 + length ?rp)"
      "mem_abs m' = fst (serve (mem_abs m) q)" "mem_wf m'" "addr_begin m' = addr_begin m" "addr_end m' = addr_end m"
    unfolding m_def [symmetric] by (auto simp: serves_def answer_ok numeral_2_eq_2)
  have "take (1 + length ?rp) (overwrite ?tx 1 ?rp) = a # ?rp"
    using \<open>1 + length ?rp \<le> length ?tx\<close> tx
    by (subst take_overwrite_end) (auto simp: take_Suc_conv_app_nth capacities)
  moreover have "length (mem_bytes m') = length (mem_bytes m)"
    using m'(3-5) wf unfolding m_def by (simp add: mem_wf_def)
  ultimately show ?thesis
    using mi put m'
    by (intro exI [of _ m'] exI [of _ "overwrite ?tx 1 ?rp"])
      (simp add: rtu_memory_impl_pdu_cb_def m_def same_shape_def)
qed

lemma pdu_cb_proxy_request:
  assumes rx: "rxbuf s = a # request_pdu q @ rest" and tx: "length (txbuf s) = TXBUF_CAPACITY"
    and mi: "self_addr (memory_impl (user_data s)) = a" and wf: "mem_wf (impl_memory (memory_impl (user_data s)))"
    and q: "request_wf q" "write_in_window (impl_memory (memory_impl (user_data s))) q"
  defines "m \<equiv> impl_memory (memory_impl (user_data s))"
  shows "\<exists>m' buf. pdu_cb_proxy s a (request_fcode q) 0 (Suc (length (request_pdu q))) 2 0 k =
      Inr (s\<lparr>user_data := (user_data s)\<lparr>memory_impl := (memory_impl (user_data s))\<lparr>impl_memory := m'\<rparr>\<rparr>,
             txbuf := buf\<rparr>, Suc (length (reply_pdu (snd (serve (mem_abs m) q))))) \<and>
    take (Suc (length (reply_pdu (snd (serve (mem_abs m) q))))) buf = a # reply_pdu (snd (serve (mem_abs m) q)) \<and>
    mem_abs m' = fst (serve (mem_abs m) q) \<and> mem_wf m' \<and> same_shape m m'"
proof -
  from memory_pdu_request [OF tx mi wf q, of rest, folded rx m_def] obtain m' buf where
    "rtu_memory_impl_pdu_cb (memory_impl (user_data s)) (rxbuf s) a (request_fcode q) 0
      (Suc (length (request_pdu q))) 2 (txbuf s, 0) =
      Inr ((memory_impl (user_data s))\<lparr>impl_memory := m'\<rparr>, buf, Suc (length (reply_pdu (snd (serve (mem_abs m) q)))))"
    "take (Suc (length (reply_pdu (snd (serve (mem_abs m) q))))) buf = a # reply_pdu (snd (serve (mem_abs m) q))"
    "mem_abs m' = fst (serve (mem_abs m) q)" "mem_wf m'" "same_shape m m'"
    by blast
  then show ?thesis
    by (intro exI [of _ m'] exI [of _ buf]) (simp add: pdu_cb_proxy_def Let_def)
qed

lemma impl_memory_keeps: "impl_ok (i\<lparr>memory_impl := x\<rparr>) = impl_ok i" "impl_mode (i\<lparr>memory_impl := x\<rparr>) = impl_mode i"
  by (simp_all add: impl_ok_def impl_mode_def)

lemma process_request:
  assumes pend: "linux_rtu.pending s" and recv: "received s = adu a (request_pdu q)"
    and mi: "self_addr (memory_impl (user_data s)) = a" and wf: "mem_wf (impl_memory (memory_impl (user_data s)))"
    and q: "request_wf q" "write_in_window (impl_memory (memory_impl (user_data s))) q"
    and line: "rate (user_data s) \<noteq> B0" "calls (dev (user_data s)) = Poll_ret 1 True False # Write_ret n # Drain_ret # cs"
      "TXBUF_CAPACITY \<le> n"
  defines "m \<equiv> impl_memory (memory_impl (user_data s))"
  shows "\<exists>s' m'. adu_process linux_platform s = Inr s' \<and> curr_st s' = RTU_STATE_INIT \<and>
    rtu_inv impl_mode impl_ok s' \<and>
    impl_app (user_data s') = ((memory_impl (user_data s))\<lparr>impl_memory := m'\<rparr>, rate (user_data s),
      wire (dev (user_data s)) @ adu a (reply_pdu (snd (serve (mem_abs m) q))), cs) \<and>
    mem_abs m' = fst (serve (mem_abs m) q) \<and> mem_wf m' \<and> same_shape m m' \<and> \<not> updated (status s') \<and>
    ticking (user_data s) (clock (dev (user_data s)) !! 2) (sdrop 3 (clock (dev (user_data s)))) (user_data s')"
proof -
  let ?rp = "reply_pdu (snd (serve (mem_abs m) q))"
  obtain pdu where pdu: "request_pdu q = request_fcode q # pdu" by (simp add: request_pdu_def)
  have "rxbuf s = adu a (request_pdu q) @ drop (rxbuf_curr s) (rxbuf s)"
    using recv unfolding received_def by (metis append_take_drop_id)
  then obtain rest where rx: "rxbuf s = a # request_pdu q @ (crc_bytes (a # request_pdu q) @ rest)"
    by (simp add: adu_def)
  have tx: "length (txbuf s) = TXBUF_CAPACITY" using pend by (simp add: linux_rtu.pending_def)
  from pdu_cb_proxy_request [OF rx tx mi wf q, folded m_def] obtain m' buf where
    cb: "pdu_cb_proxy s a (request_fcode q) 0 (Suc (length (request_pdu q))) 2 0 (TXBUF_CAPACITY - 2) =
      Inr (s\<lparr>user_data := (user_data s)\<lparr>memory_impl := (memory_impl (user_data s))\<lparr>impl_memory := m'\<rparr>\<rparr>,
             txbuf := buf\<rparr>, Suc (length ?rp))"
    and buf: "take (Suc (length ?rp)) buf = a # ?rp"
    and m': "mem_abs m' = fst (serve (mem_abs m) q)" "mem_wf m'" "same_shape m m'"
    by blast
  from linux_rtu.process_reply [OF pend recv [unfolded pdu] _ _ buf] cb pdu obtain r where
    r: "adu_process linux_platform s = send_impl 1 r" "rtu_inv impl_mode impl_ok r"
      "curr_st r = RTU_STATE_BUSY" "2 < txbuf_curr r"
      "user_data r = (user_data s)\<lparr>memory_impl := (memory_impl (user_data s))\<lparr>impl_memory := m'\<rparr>\<rparr>"
      "take (txbuf_curr r) (txbuf r) = adu a ?rp"
    by (auto simp: linux_platform_def)
  from send_impl_at_once [OF r(2,3), of n cs] r(4,5) line obtain s' where
    "send_impl 1 r = Inr s'" "curr_st s' = RTU_STATE_INIT" "rtu_inv impl_mode impl_ok s'" "\<not> updated (status s')"
    "impl_app (user_data s') = ((memory_impl (user_data s))\<lparr>impl_memory := m'\<rparr>, rate (user_data s),
      wire (dev (user_data s)) @ adu a ?rp, cs)"
    "ticking (user_data s) (clock (dev (user_data s)) !! 2) (sdrop 3 (clock (dev (user_data s)))) (user_data s')"
    by (auto simp: r(6) ticking_def)
  with r(1) m' show ?thesis by auto
qed

section \<open>Idle slaves and frames\<close>

definition idle_slave :: "rtu_impl modbus_rtu_state \<Rightarrow> bool" where
  "idle_slave s =
     (rtu_inv impl_mode impl_ok s \<and> curr_st s = RTU_STATE_IDLE \<and> \<not> updated (status s))"

lemma idle_slave_ready:
  "idle_slave s \<Longrightarrow> frame_at impl_mode impl_ok impl_app (impl_app (user_data s)) Ready [] s"
  by (auto simp: idle_slave_def frame_at_def rtu_inv_def buffers_ok_def received_def)

text \<open>A frame, with calls of the main loop in between, is one call of \<open>adu_process\<close>.\<close>

lemma exec_all_single [simp]: "exec_all P [i] s = exec P i s"
  by (cases "exec P i s") simp_all

lemma idle_slave_frame:
  assumes "idle_slave s" and "interrupts is = map Recv f" and "2 \<le> length f"
    and "length f \<le> RXBUF_CAPACITY" and "set es \<subseteq> {Event}"
  shows "\<exists>t. exec_all linux_platform (is @ Timeout # es @ [Timeout, Event]) s = adu_process linux_platform t \<and>
    linux_rtu.pending t \<and> received t = f \<and> impl_app (user_data t) = impl_app (user_data s)"
proof -
  have call: "bind_res r (\<lambda>s. Inr (call_opt (resume_cb linux_platform) s)) = r" for r
    by (cases r) (simp_all add: call_opt_def linux_platform_def)
  from linux_rtu.frame_received [OF idle_slave_ready [OF assms(1)] assms(2-5)] obtain s1 where
    s1: "exec_all linux_platform (is @ Timeout # es @ [Timeout]) s = Inr s1"
      "frame_at impl_mode impl_ok impl_app (impl_app (user_data s)) Complete f s1"
    by blast
  have "exec_all linux_platform (is @ Timeout # es @ [Timeout, Event]) s = exec linux_platform Event s1"
    using exec_all_append [of linux_platform "is @ Timeout # es @ [Timeout]" "[Event]" s] s1(1)
    by (simp del: exec.simps exec_all.simps(2))
  moreover from linux_rtu.frame_processed [OF s1(2)] obtain t where
    "exec linux_platform Event s1 = adu_process linux_platform t" "linux_rtu.pending t" "received t = f"
      "impl_app (user_data t) = impl_app (user_data s)"
    unfolding call by blast
  ultimately show ?thesis by auto
qed

text \<open>A frame that \<open>adu_check\<close> refuses sets the error flag and changes nothing else.\<close>

lemma damaged_frame:
  assumes "idle_slave s" and "interrupts is = map Recv f" and "2 \<le> length f"
    and "length f \<le> RXBUF_CAPACITY" and "set es \<subseteq> {Event}" and "\<not> frame_ok linux_platform f"
  shows "\<exists>s'. exec_all linux_platform (is @ Timeout # es @ [Timeout, Event]) s = Inr s' \<and>
    rtu_inv impl_mode impl_ok s' \<and> curr_st s' = RTU_STATE_IDLE \<and> st_error (status s') \<and>
    impl_app (user_data s') = impl_app (user_data s) \<and> received s' = f"
proof -
  from idle_slave_frame [OF assms(1-5)] obtain t where
    t: "exec_all linux_platform (is @ Timeout # es @ [Timeout, Event]) s = adu_process linux_platform t"
      "linux_rtu.pending t" "received t = f" "impl_app (user_data t) = impl_app (user_data s)"
    by blast
  let ?r = "if ADU_MIN_SIZE \<le> rxbuf_curr t then t\<lparr>crc_err_cntr := crc_err_cntr t + 1\<rparr> else t"
  have "rxbuf_curr t \<le> length (rxbuf t)" using t(2) by (simp add: linux_rtu.pending_def)
  then have run: "adu_process linux_platform t = Inr (set_error ?r)"
    using t(3) assms(6) by (simp add: adu_process_def adu_check_eq)
  moreover have "curr_st (set_error ?r) = RTU_STATE_IDLE" "st_error (status (set_error ?r))"
      "user_data (set_error ?r) = user_data t" "received (set_error ?r) = received t"
    using t(2) by (simp_all add: linux_rtu.pending_def state_defs received_def)
  ultimately show ?thesis
    using t linux_rtu.adu_process_inv [OF t(2) run] by auto
qed

lemma request_answered:
  assumes idle: "idle_slave s" and "is": "interrupts is = map Recv (adu a (request_pdu q))"
    and es: "set es \<subseteq> {Event}"
    and mi: "self_addr (memory_impl (user_data s)) = a" and wf: "mem_wf (impl_memory (memory_impl (user_data s)))"
    and q: "request_wf q" "write_in_window (impl_memory (memory_impl (user_data s))) q"
    and len: "length (request_pdu q) \<le> 253"
    and line: "rate (user_data s) \<noteq> B0" "calls (dev (user_data s)) = Poll_ret 1 True False # Write_ret n # Drain_ret # cs"
      "TXBUF_CAPACITY \<le> n"
  defines "m \<equiv> impl_memory (memory_impl (user_data s))"
  shows "\<exists>s' m'. exec_all linux_platform (is @ Timeout # es @ [Timeout, Event]) s = Inr s' \<and>
    curr_st s' = RTU_STATE_INIT \<and> rtu_inv impl_mode impl_ok s' \<and>
    impl_app (user_data s') = ((memory_impl (user_data s))\<lparr>impl_memory := m'\<rparr>, rate (user_data s),
      wire (dev (user_data s)) @ adu a (reply_pdu (snd (serve (mem_abs m) q))), cs) \<and>
    mem_abs m' = fst (serve (mem_abs m) q) \<and> mem_wf m' \<and> same_shape m m' \<and> \<not> updated (status s')"
proof -
  have "2 \<le> length (adu a (request_pdu q))" "length (adu a (request_pdu q)) \<le> RXBUF_CAPACITY"
    using len by (simp_all add: capacities)
  from idle_slave_frame [OF idle "is" this es] obtain t where
    t: "exec_all linux_platform (is @ Timeout # es @ [Timeout, Event]) s = adu_process linux_platform t"
      "linux_rtu.pending t" "received t = adu a (request_pdu q)"
      "memory_impl (user_data t) = memory_impl (user_data s)" "rate (user_data t) = rate (user_data s)"
      "wire (dev (user_data t)) = wire (dev (user_data s))" "calls (dev (user_data t)) = calls (dev (user_data s))"
    by (auto simp: impl_app_def)
  from process_request [OF t(2,3), unfolded t(4-7), OF mi wf q line] show ?thesis
    unfolding t(1) m_def by blast
qed

text \<open>A good frame with another address is dropped.\<close>

lemma process_other:
  assumes pend: "linux_rtu.pending s" and ok: "frame_ok linux_platform (received s)"
    and other: "hd (received s) \<noteq> self_addr (memory_impl (user_data s))"
  shows "\<exists>s'. adu_process linux_platform s = Inr s' \<and> idle_slave s' \<and> user_data s' = user_data s"
proof -
  let ?n = "rxbuf_curr s" and ?s' = "s\<lparr>txbuf_curr := 0, rxbuf_curr := 0\<rparr>"
  have lens: "?n \<le> length (rxbuf s)" using pend by (simp add: linux_rtu.pending_def)
  moreover have "4 \<le> ?n" using ok lens by (simp add: frame_ok_def received_def capacities)
  ultimately have loads: "load Rxbuf (rxbuf s) 0 = Inr (hd (received s))" "\<exists>f. load Rxbuf (rxbuf s) 1 = Inr f"
    by (auto simp: load_def received_def hd_conv_nth intro!: exI)
  have "pdu_cb linux_platform s (hd (received s)) f 0 (?n - 2) 2 0 (TXBUF_CAPACITY - 2) = Inr (s, 0)" for f
    using other by (simp add: linux_platform_def pdu_cb_proxy_def rtu_memory_impl_pdu_cb_def Let_def)
  then have run: "adu_process linux_platform s = Inr ?s'"
    using loads ok by (auto simp: adu_process_def adu_check_eq [OF lens] Let_def)
  then have "rtu_inv impl_mode impl_ok ?s'" by (rule linux_rtu.adu_process_inv [OF pend])
  then have "idle_slave ?s'" using pend by (simp add: idle_slave_def linux_rtu.pending_def)
  with run show ?thesis by auto
qed

lemma other_frame:
  assumes "idle_slave s" and "interrupts is = map Recv f" and "length f \<le> RXBUF_CAPACITY"
    and "set es \<subseteq> {Event}" and ok: "frame_ok linux_platform f"
    and "hd f \<noteq> self_addr (memory_impl (user_data s))"
  shows "\<exists>s'. exec_all linux_platform (is @ Timeout # es @ [Timeout, Event]) s = Inr s' \<and>
    idle_slave s' \<and> impl_app (user_data s') = impl_app (user_data s)"
proof -
  have "2 \<le> length f" using ok by (simp add: frame_ok_def capacities)
  from idle_slave_frame [OF assms(1,2) this assms(3,4)] obtain t where
    t: "exec_all linux_platform (is @ Timeout # es @ [Timeout, Event]) s = adu_process linux_platform t"
      "linux_rtu.pending t" "received t = f" "impl_app (user_data t) = impl_app (user_data s)"
    by blast
  then have "hd (received t) \<noteq> self_addr (memory_impl (user_data t))"
    using assms(6) by (simp add: impl_app_def)
  with process_other [OF t(2), unfolded t(3), OF ok] t show ?thesis by auto
qed

section \<open>The loop of \<open>modbus_rtu_run\<close>\<close>

lemma linux_step_inv:
  "rtu_inv impl_mode impl_ok s \<Longrightarrow> enabled impl_mode i s \<Longrightarrow> exec linux_platform i s = Inr s' \<Longrightarrow>
   rtu_inv impl_mode impl_ok s'"
  by (rule linux_rtu.exec_inv)

lemma recv_bytes_inv:
  "rtu_inv impl_mode impl_ok s \<Longrightarrow> recv_bytes s bs = Inr s' \<Longrightarrow> rtu_inv impl_mode impl_ok s'"
proof (induction bs arbitrary: s)
  case (Cons b bs)
  then obtain s1 s2 where "exec linux_platform (Recv b) s = Inr s1" "exec linux_platform Event s1 = Inr s2"
      "recv_bytes s2 bs = Inr s'"
    by (auto simp: bind_res_Inr_iff)
  moreover from this Cons.prems(1) have "rtu_inv impl_mode impl_ok s1"
    using linux_step_inv [of s "Recv b" s1] by simp
  ultimately show ?case
    using Cons.IH linux_step_inv [of s1 Event s2] by simp
qed simp

lemma recv_impl_inv:
  assumes "rtu_inv impl_mode impl_ok s" and "recv_impl ue s = Inr (s', stop)"
  shows "rtu_inv impl_mode impl_ok s'"
  using assms recv_bytes_inv [OF rtu_inv_dev [OF assms(1)]]
  by (auto simp: recv_impl_def Let_def bind_res_Inr_iff split: if_split_asm)

lemma impl_clock_keeps: "impl_ok (snd (read_clock i)) = impl_ok i" "impl_mode (snd (read_clock i)) = impl_mode i"
  by (simp_all add: impl_ok_def impl_mode_def)

lemma timeout_impl_inv:
  assumes inv: "rtu_inv impl_mode impl_ok s" and run: "timeout_impl s = Inr s'"
  shows "rtu_inv impl_mode impl_ok s'"
proof (cases "timeout_us (user_data s) = - 1")
  case True
  with assms show ?thesis by (simp add: timeout_impl_def)
next
  case False
  let ?s = "s\<lparr>user_data := snd (read_clock (user_data s))\<rparr>"
  have "impl_ok (user_data s)" using inv by (simp only: rtu_inv_def)
  then have inv': "rtu_inv impl_mode impl_ok ?s"
    using rtu_inv_user_data [OF inv, of "snd (read_clock (user_data s))"] by (simp add: impl_clock_keeps)
  have on: "enabled impl_mode Timeout ?s" using False by (simp add: impl_mode_def)
  from run False consider "s' = ?s"
    | t where "exec linux_platform Timeout ?s = Inr t" "exec linux_platform Event t = Inr s'"
    by (auto simp: timeout_impl_def Let_def split_beta bind_res_Inr_iff split: if_split_asm)
  then show ?thesis
  proof cases
    case 2
    with linux_step_inv [OF inv' on] linux_step_inv [of t Event s'] show ?thesis by simp
  qed (use inv' in simp)
qed

lemma run_rounds_inv:
  "rtu_inv impl_mode impl_ok s \<Longrightarrow> run_rounds n ue s = Inr (s', stop) \<Longrightarrow> rtu_inv impl_mode impl_ok s'"
proof (induction n arbitrary: s)
  case (Suc n)
  then obtain s1 st s2 where "recv_impl ue s = Inr (s1, st)" "timeout_impl s1 = Inr s2"
      "s' = s2 \<or> run_rounds n ue s2 = Inr (s', stop)"
    by (auto simp: bind_res_Inr_iff split: if_split_asm)
  with Suc.IH [of s2] Suc.prems(1) recv_impl_inv timeout_impl_inv show ?case by blast
qed simp

lemma default_timeouts:
  "r \<noteq> B0 \<Longrightarrow> \<exists>t1 t3. calc_1t5_us r = Inr t1 \<and> calc_3t5_us r = Inr t3 \<and> 0 < t1 \<and> t1 < t3"
  by (cases r) (simp_all add: calc_1t5_us_def calc_3t5_us_def signed_divide_int_def)

text \<open>Intervals with which the timer of 1.5t can be told from that of 3.5t.\<close>

definition intervals_differ :: "speed_t \<Rightarrow> int \<Rightarrow> int \<Rightarrow> bool" where
  "intervals_differ r o1 o3 = (case run_intervals r o1 o3 of Inl e \<Rightarrow> False | Inr (t1, t3) \<Rightarrow> t1 \<noteq> t3)"

lemma default_intervals: "calc_1t5_us r = Inr t1 \<Longrightarrow> calc_3t5_us r = Inr t3 \<Longrightarrow> run_intervals r (- 1) (- 1) = Inr (t1, t3)"
  by (simp add: run_intervals_def)

lemma default_intervals_differ [simp]: "r \<noteq> B0 \<Longrightarrow> intervals_differ r (- 1) (- 1)"
  using default_timeouts [of r] by (auto simp: intervals_differ_def default_intervals)

lemma intervals_differE:
  assumes "intervals_differ r o1 o3"
  obtains t1 t3 where "run_intervals r o1 o3 = Inr (t1, t3)" and "t1 \<noteq> t3"
  using assms by (auto simp: intervals_differ_def split: sum.splits)

lemma run_intervals_on:
  assumes "run_intervals r o1 o3 = Inr (t1, t3)"
  shows "t1 \<noteq> - 1 \<and> t3 \<noteq> - 1"
proof -
  have "calc_1t5_us r \<noteq> Inr (- 1)" "calc_3t5_us r \<noteq> Inr (- 1)"
    by (cases r; simp add: calc_1t5_us_def calc_3t5_us_def signed_divide_int_def)+
  with assms show ?thesis by (auto simp: run_intervals_def bind_res_Inr_iff split: if_split_asm)
qed

lemma initial_inv:
  assumes "run_intervals r o1 o3 = Inr (t1, t3)" and "t1 \<noteq> t3"
  shows "rtu_inv impl_mode impl_ok (modbus_rtu_init (initial_impl w r t1 t3 mi))"
  using assms(2) run_intervals_on [OF assms(1)]
  by (intro rtu_inv_init) (simp_all add: impl_ok_def impl_mode_def initial_impl_def split_beta)

lemma run_start_inv:
  assumes "intervals_differ r o1 o3" and "run_start w r o1 o3 mi = Inr s"
  shows "rtu_inv impl_mode impl_ok s"
proof -
  from assms(1) obtain t1 t3 where t: "run_intervals r o1 o3 = Inr (t1, t3)" "t1 \<noteq> t3" by (rule intervals_differE)
  then have "exec linux_platform Event (modbus_rtu_init (initial_impl w r t1 t3 mi)) = Inr s"
    using assms(2) by (simp add: run_start_def)
  with linux_step_inv [OF initial_inv [OF t], of Event] show ?thesis by simp
qed

section \<open>After a damaged frame\<close>

text \<open>A machine that has restarted: in INIT, with its event handled.\<close>

definition restarted_slave :: "rtu_impl modbus_rtu_state \<Rightarrow> bool" where
  "restarted_slave s =
     (rtu_inv impl_mode impl_ok s \<and> curr_st s = RTU_STATE_INIT \<and> \<not> updated (status s))"

definition byte_events :: "u8 list \<Rightarrow> input list" where
  "byte_events bs = concat (map (\<lambda>b. [Recv b, Event]) bs)"

lemma byte_events_Cons: "byte_events (b # bs) = [Recv b, Event] @ byte_events bs"
  by (simp add: byte_events_def)

text \<open>In the state INIT a byte is an error, and the event of an error stays in INIT.\<close>

lemma INIT_byte:
  assumes "restarted_slave s"
  shows "\<exists>s'. exec_all linux_platform [Recv b, Event] s = Inr s' \<and> restarted_slave s' \<and>
    impl_app (user_data s') = impl_app (user_data s)"
proof -
  have inv: "rtu_inv impl_mode impl_ok s" and c: "curr_st s = RTU_STATE_INIT"
    using assms by (simp_all add: restarted_slave_def)
  have "serial_recv_cb linux_platform s b = Inr (set_error s)"
    using c by (simp add: serial_recv_cb_def)
  moreover have "curr_st (set_error s) = RTU_STATE_INIT" "user_data (set_error s) = user_data s"
    using c by (simp_all add: state_defs)
  ultimately show ?thesis
    using linux_rtu.event_in_INIT_ok [OF set_error_inv [OF inv]] by (auto simp: restarted_slave_def)
qed

lemma INIT_bytes:
  assumes "restarted_slave s"
  shows "\<exists>s'. exec_all linux_platform (byte_events bs) s = Inr s' \<and> restarted_slave s' \<and>
    impl_app (user_data s') = impl_app (user_data s)"
  using assms
proof (induction bs arbitrary: s)
  case Nil
  then show ?case by (simp add: byte_events_def)
next
  case (Cons b bs)
  from INIT_byte [OF Cons.prems, of b] obtain t where
    t: "exec_all linux_platform [Recv b, Event] s = Inr t" "restarted_slave t"
      "impl_app (user_data t) = impl_app (user_data s)"
    by blast
  from Cons.IH [OF t(2)] t show ?case
    by (simp only: byte_events_Cons exec_all_append bind_res.simps)
qed

text \<open>The first byte after a damaged frame makes the machine restart.\<close>

lemma first_byte_after_error:
  assumes inv: "rtu_inv impl_mode impl_ok s" and c: "curr_st s = RTU_STATE_IDLE" and err: "st_error (status s)"
  shows "\<exists>s'. exec_all linux_platform [Recv b, Event] s = Inr s' \<and> restarted_slave s' \<and>
    impl_app (user_data s') = impl_app (user_data s)"
proof -
  from linux_rtu.recv_first [OF inv c, of b] obtain t where
    t: "serial_recv_cb linux_platform s b = Inr t" "rtu_inv impl_mode impl_ok t"
      "impl_app (user_data t) = impl_app (user_data s)" "st_error (status t)"
    using err by (auto simp: appended_def state_defs)
  then have up: "updated (status t)" by (simp add: rtu_inv_def)
  let ?t = "t\<lparr>status := (status t)\<lparr>updated := False\<rparr>\<rparr>"
  have "impl_ok (user_data ?t)" "legal_edge (prev_st ?t) (curr_st ?t)"
    using t(2) by (simp_all add: rtu_inv_def)
  from linux_rtu.event_error_ok [OF this] t up show ?thesis
    by (auto simp: event_is_live [OF t(2)] event_live_def Let_def restarted_slave_def)
qed

lemma bytes_after_error:
  assumes "rtu_inv impl_mode impl_ok s" and "curr_st s = RTU_STATE_IDLE" and "st_error (status s)"
    and "bs \<noteq> []"
  shows "\<exists>s'. exec_all linux_platform (byte_events bs) s = Inr s' \<and> restarted_slave s' \<and>
    impl_app (user_data s') = impl_app (user_data s)"
proof -
  obtain b bs' where bs: "bs = b # bs'" using assms(4) by (cases bs) auto
  from first_byte_after_error [OF assms(1-3), of b] obtain t where
    t: "exec_all linux_platform [Recv b, Event] s = Inr t" "restarted_slave t"
      "impl_app (user_data t) = impl_app (user_data s)"
    by blast
  from INIT_bytes [OF t(2), of bs'] t show ?thesis
    by (simp only: bs byte_events_Cons exec_all_append bind_res.simps)
qed

lemma restarted_recovers:
  assumes "restarted_slave s"
  shows "\<exists>s'. exec_all linux_platform [Timeout, Event] s = Inr s' \<and> idle_slave s' \<and>
    impl_app (user_data s') = impl_app (user_data s)"
  using assms linux_rtu.INIT_recovers [of s]
  by (auto simp: restarted_slave_def idle_slave_def)

text \<open>A damaged frame, the frame after it, and a silence: all that is left is an idle slave.\<close>

lemma damaged_then_lost:
  assumes "idle_slave s" and "interrupts is = map Recv f" and "2 \<le> length f"
    and "length f \<le> RXBUF_CAPACITY" and "set es \<subseteq> {Event}" and "\<not> frame_ok linux_platform f"
    and "f2 \<noteq> []"
  shows "\<exists>s'. exec_all linux_platform
      ((is @ Timeout # es @ [Timeout, Event]) @ byte_events f2 @ [Timeout, Event]) s = Inr s' \<and>
    idle_slave s' \<and> impl_app (user_data s') = impl_app (user_data s)"
proof -
  from damaged_frame [OF assms(1-6)] obtain s1 where
    s1: "exec_all linux_platform (is @ Timeout # es @ [Timeout, Event]) s = Inr s1"
      "rtu_inv impl_mode impl_ok s1" "curr_st s1 = RTU_STATE_IDLE" "st_error (status s1)"
      "impl_app (user_data s1) = impl_app (user_data s)"
    by blast
  from bytes_after_error [OF s1(2-4) assms(7)] obtain s2 where
    s2: "exec_all linux_platform (byte_events f2) s1 = Inr s2" "restarted_slave s2"
      "impl_app (user_data s2) = impl_app (user_data s1)"
    by blast
  from restarted_recovers [OF s2(2)] obtain s3 where
    s3: "exec_all linux_platform [Timeout, Event] s2 = Inr s3" "idle_slave s3"
      "impl_app (user_data s3) = impl_app (user_data s2)"
    by blast
  have "exec_all linux_platform
      ((is @ Timeout # es @ [Timeout, Event]) @ byte_events f2 @ [Timeout, Event]) s = Inr s3"
    using exec_all_append [of linux_platform "is @ Timeout # es @ [Timeout, Event]" "byte_events f2 @ [Timeout, Event]" s]
      exec_all_append [of linux_platform "byte_events f2" "[Timeout, Event]" s1] s1(1) s2(1) s3(1)
    by (simp only: bind_res.simps)
  then show ?thesis using s1(5) s2(3) s3(2,3) by (simp only:) blast
qed

end
