(* ===== verification/Linux_Faults.thy ===== *)
theory Linux_Faults
  imports Linux_Slave
begin

text \<open>
  Which faults the Linux slave can run into: those of the PDU handler, of the system calls and of
  its script, but never a check of a timer.
\<close>

section \<open>Faults of the timers\<close>

definition timer_fault :: "fault \<Rightarrow> bool" where
  "timer_fault e =
     (e \<in> {CheckFailed ''-1 == impl->timer.timeout_us'', CheckFailed ''-1 != impl->timer.timeout_us'',
           CheckFailed ''state->timer_cb'', NullCall})"

definition harmless :: "'a res \<Rightarrow> bool" where
  "harmless r = (\<forall>e. r = Inl e \<longrightarrow> \<not> timer_fault e)"

lemma harmless_simps [simp]:
  "harmless (Inr x)" "harmless (Inl (BadRead r i))" "harmless (Inl (BadWrite r i))" "harmless (Inl OutOfFuel)"
  "harmless (Inl (CheckFailed ''0 != r''))" "harmless (Inl (CheckFailed ''end == curr''))"
  "harmless (Inl (CheckFailed ''poll''))" "harmless (Inl (CheckFailed ''read''))"
  "harmless (Inl (CheckFailed ''write''))" "harmless (Inl (CheckFailed ''usleep''))"
  "harmless (Inl (CheckFailed ''unsupported rate''))" "harmless (Inl (CheckFailed ''tcdrain''))"
  by (simp_all add: harmless_def timer_fault_def)

lemma harmless_bind: "harmless r \<Longrightarrow> (\<And>x. r = Inr x \<Longrightarrow> harmless (f x)) \<Longrightarrow> harmless (bind_res r f)"
  by (cases r) (simp_all add: harmless_def)

lemma harmless_if: "(b \<Longrightarrow> harmless x) \<Longrightarrow> (\<not> b \<Longrightarrow> harmless y) \<Longrightarrow> harmless (if b then x else y)"
  by simp

lemma harmless_prim [simp]:
  "harmless (load r xs i)" "harmless (store r xs i v)" "harmless (put r c v)" "harmless (mem_load m k)"
  "harmless (mem_store m k v)"
  by (simp_all add: load_def store_def put_def mem_load_def mem_store_def)

lemma harmless_put_all [simp]: "harmless (put_all r c vs)"
  by (induction vs arbitrary: c) (simp_all add: harmless_bind)

lemma harmless_load_all [simp]: "harmless (load_all r xs i n)"
  by (induction n arbitrary: i) (simp_all add: harmless_bind)

lemma harmless_fields [simp]: "harmless (rd16 rx i)" "harmless (wr16 c w)" "harmless (except f e c)"
    "harmless (return_except m f e c)" "harmless (return_echo m rx from n c)"
  by (simp_all add: rd16_def wr16_eq except_def return_except_def return_echo_def memcpy_def
      harmless_bind del: return_except_answer)

lemma harmless_loops [simp]:
  "harmless (read_n16_loop m a e c)" "harmless (read_n8_loop m a e c)"
  "harmless (write_n8_loop m rx a e at)" "harmless (write_n16_loop m rx a e at c)"
proof -
  show "harmless (read_n16_loop m a e c)"
    by (induction m a e c rule: read_n16_loop.induct, subst read_n16_loop.simps)
      (simp add: harmless_bind)
  show "harmless (read_n8_loop m a e c)"
    by (induction m a e c rule: read_n8_loop.induct, subst read_n8_loop.simps)
      (simp add: harmless_bind)
  show "harmless (write_n8_loop m rx a e at)"
    by (induction m rx a e at rule: write_n8_loop.induct, subst write_n8_loop.simps)
      (simp add: harmless_bind)
  show "harmless (write_n16_loop m rx a e at c)"
    by (induction m rx a e at c rule: write_n16_loop.induct, subst write_n16_loop.simps)
      (simp add: harmless_bind)
qed

lemma harmless_answer [simp]: "harmless (answer m c rep)"
  by (simp add: answer_def harmless_bind)

lemma harmless_memcpy [simp]: "harmless (memcpy r c r' xs i n)"
  by (simp add: memcpy_def harmless_bind)

lemma harmless_option [simp]:
  "harmless (case x of None \<Rightarrow> return_echo m rx from n c | Some c' \<Rightarrow> Inr (m, c'))"
  by (cases x) simp_all

lemma harmless_handlers [simp]:
  "harmless (read_n16 m rx from to at c)" "harmless (read_n8 m rx from to at c)"
  "harmless (write_16 m rx from to at c)" "harmless (write_n8 m rx from to at c)"
  "harmless (write_n16 m rx from to at c)"
  unfolding read_n16_def read_n8_def write_16_def write_n8_def write_n16_def Let_def split_beta
  by (intro harmless_if harmless_bind harmless_simps harmless_prim harmless_fields harmless_loops
      harmless_memcpy harmless_option)+

lemma harmless_pdu_cb [simp]: "harmless (rtu_memory_pdu_cb m rx f from to at c)"
  by (simp add: rtu_memory_pdu_cb_def)

lemma harmless_proxy [simp]: "harmless (pdu_cb_proxy s a f b n c d d')"
  by (auto simp: pdu_cb_proxy_def rtu_memory_impl_pdu_cb_def Let_def intro!: harmless_bind)

section \<open>Faults of the line\<close>

lemma harmless_from [simp]: "harmless (load_from buf i n)" "harmless (store_from buf i vs)"
proof -
  show "harmless (load_from buf i n)"
    by (induction n arbitrary: i) (simp_all add: harmless_bind)
  show "harmless (store_from buf i vs)"
    by (induction vs arbitrary: buf i) (simp_all add: harmless_bind)
qed

lemma harmless_sys [simp]:
  "harmless (sys_poll w a b)" "harmless (sys_read w buf k)" "harmless (sys_write w buf k)" "harmless (sys_usleep w)"
  "harmless (sys_tcdrain w)"
  by (auto simp: sys_poll_def sys_read_def sys_write_def sys_usleep_def sys_tcdrain_def validate_syscall_result_def Let_def
      intro!: harmless_bind split: list.splits syscall.splits)

lemma harmless_ready [simp]: "harmless (tty_read_ready w buf k)" "harmless (tty_write_ready w buf k)"
  by (auto simp: tty_read_ready_def tty_write_ready_def intro!: harmless_bind)

lemma calls_decrease:
  "sys_poll w a b = Inr x \<Longrightarrow> length (calls (fst x)) < length (calls w)"
  "sys_usleep w = Inr w' \<Longrightarrow> length (calls w') < length (calls w)"
  "sys_read w buf k = Inr y \<Longrightarrow> length (calls (fst y)) < length (calls w)"
  "tty_read_ready w buf k = Inr y \<Longrightarrow> length (calls (fst y)) < length (calls w)"
  "tty_write_ready w buf k = Inr z \<Longrightarrow> length (calls (fst z)) < length (calls w)"
proof -
  show "sys_poll w a b = Inr x \<Longrightarrow> length (calls (fst x)) < length (calls w)"
    by (cases x) (simp add: sys_poll_calls)
  show "sys_usleep w = Inr w' \<Longrightarrow> length (calls w') < length (calls w)"
    by (rule sys_usleep_calls)
  show "sys_read w buf k = Inr y \<Longrightarrow> length (calls (fst y)) < length (calls w)"
    by (cases y) (simp add: sys_read_calls)
  show "tty_read_ready w buf k = Inr y \<Longrightarrow> length (calls (fst y)) < length (calls w)"
    by (auto simp: tty_read_ready_def bind_res_Inr_iff split: if_split_asm dest: sys_read_calls)
  show "tty_write_ready w buf k = Inr z \<Longrightarrow> length (calls (fst z)) < length (calls w)"
    by (auto simp: tty_write_ready_def bind_res_Inr_iff split: if_split_asm dest: sys_write_calls)
qed

lemma harmless_tty_write [simp]: "harmless (tty_write w buf t aux)"
proof -
  have "harmless (tty_write_loop w buf k t s e aux r0 r1)" for w k s e r0 r1
  proof (induction "length (calls w)" arbitrary: w k s e r0 r1 rule: less_induct)
    case less
    show ?case
      by (subst tty_write_loop.simps, unfold Let_def split_beta, intro harmless_if harmless_bind)
        (auto intro!: less dest!: calls_decrease split: if_split_asm)
  qed
  then show ?thesis by (simp add: tty_write_def split_beta)
qed

lemma harmless_tty_read [simp]: "harmless (tty_read w buf t aux)"
proof -
  have "harmless (tty_read_loop w buf k t s e aux r0 r1)" for w buf k s e r0 r1
  proof (induction "length (calls w)" arbitrary: w buf k s e r0 r1 rule: less_induct)
    case less
    show ?case
      by (subst tty_read_loop.simps, unfold Let_def split_beta, intro harmless_if harmless_bind)
        (auto intro!: less dest!: calls_decrease)
  qed
  then show ?thesis by (simp add: tty_read_def split_beta)
qed

lemma harmless_tty_read_ll [simp]: "harmless (tty_read_ll w buf t)"
proof -
  have "harmless (tty_read_ll_loop w buf t s e)" for w buf s e
  proof (induction "length (calls w)" arbitrary: w buf s e rule: less_induct)
    case less
    show ?case
      by (subst tty_read_ll_loop.simps, unfold Let_def split_beta, intro harmless_if harmless_bind)
        (auto intro!: less dest!: calls_decrease split: if_split_asm)
  qed
  then show ?thesis by (simp add: tty_read_ll_def split_beta)
qed

section \<open>Faults of the slave\<close>

lemma harmless_transmit [simp]: "harmless (transmit s)"
  unfolding transmit_def calc_tmax_ms_def calc_tmin_ms_def Let_def split_beta
  by (intro harmless_bind harmless_if; cases "rate (user_data s)"; simp)

lemma send_impl_harmless:
  assumes inv: "rtu_inv impl_mode impl_ok s" and busy: "curr_st s = RTU_STATE_BUSY"
  shows "harmless (send_impl 1 s)"
proof -
  have "harmless (modbus_rtu_event (platform_with (send_impl 0)) (serial_sent_cb t))"
    if t: "transmit s = Inr t" for t
  proof -
    from transmit_shape [OF t] obtain w where "t = s\<lparr>user_data := (user_data s)\<lparr>dev := w\<rparr>\<rparr>" ..
    with rtu_inv_dev [OF inv] busy have "rtu_inv impl_mode impl_ok (serial_sent_cb t)"
        "curr_st (serial_sent_cb t) = RTU_STATE_INIT"
      by (auto intro!: serial_sent_inv) (simp add: serial_sent_cb_def state_defs)
    with rtu_platform.event_in_INIT_ok [OF rtu_platform_with, of "send_impl 0" "serial_sent_cb t"]
    show ?thesis by auto
  qed
  then show ?thesis by (simp add: harmless_bind)
qed

lemma exec_harmless:
  assumes "rtu_inv impl_mode impl_ok s" and "enabled impl_mode i s"
  shows "harmless (exec linux_platform i s)"
proof (cases "exec linux_platform i s")
  case (Inl e)
  from linux_rtu.exec_fault [OF assms Inl] have "client_fault linux_platform impl_mode impl_ok e" ..
  then consider s a f b n c d d' where "pdu_cb_proxy s a f b n c d d' = Inl e"
    | s where "rtu_inv impl_mode impl_ok s" "curr_st s = RTU_STATE_BUSY" "send_impl 1 s = Inl e"
    by (auto simp: client_fault_def linux_platform_def)
  then show ?thesis
  proof cases
    case 1
    then show ?thesis using harmless_proxy [of s a f b n c d d'] by (simp add: Inl harmless_def)
  next
    case 2
    then show ?thesis using send_impl_harmless [OF 2(1,2)] 2(3) by (simp add: Inl harmless_def)
  qed
qed simp

lemma recv_bytes_harmless: "rtu_inv impl_mode impl_ok s \<Longrightarrow> harmless (recv_bytes s bs)"
proof (induction bs arbitrary: s)
  case (Cons b bs)
  have "harmless (exec linux_platform (Recv b) s)" by (rule exec_harmless [OF Cons.prems]) simp
  moreover have "rtu_inv impl_mode impl_ok t" "harmless (exec linux_platform Event t)"
    if "exec linux_platform (Recv b) s = Inr t" for t
    using linux_step_inv [OF Cons.prems _ that] exec_harmless [of t Event] by simp_all
  ultimately show ?case
    using Cons.IH linux_step_inv [of _ Event] by (auto intro!: harmless_bind)
qed simp

lemma recv_impl_harmless:
  assumes "rtu_inv impl_mode impl_ok s"
  shows "harmless (recv_impl ue s)"
  unfolding recv_impl_def Let_def split_beta
  by (intro harmless_bind harmless_if) (simp_all add: recv_bytes_harmless rtu_inv_dev [OF assms])

lemma timeout_impl_harmless:
  assumes inv: "rtu_inv impl_mode impl_ok s"
  shows "harmless (timeout_impl s)"
proof (cases "timeout_us (user_data s) = - 1")
  case False
  let ?s = "s\<lparr>user_data := snd (read_clock (user_data s))\<rparr>"
  have "impl_ok (user_data s)" using inv by (simp only: rtu_inv_def)
  then have inv': "rtu_inv impl_mode impl_ok ?s"
    using rtu_inv_user_data [OF inv, of "snd (read_clock (user_data s))"] by (simp add: impl_clock_keeps)
  have on: "impl_mode (user_data ?s) \<noteq> Stopped" using False by (simp add: impl_mode_def)
  then have cb: "timer_cb ?s \<noteq> None"
    using inv' by (auto simp: rtu_inv_def timer_agrees_def split: if_split_asm)
  from linux_rtu.call_timer_ok [OF inv' on] obtain t where
    t: "call_timer_cb linux_platform ?s = Inr t" "rtu_inv impl_mode impl_ok t" by blast
  have "harmless (exec linux_platform Event t)" by (rule exec_harmless [OF t(2)]) simp
  with False cb t(1) show ?thesis by (auto simp: timeout_impl_def split_beta Let_def)
qed (simp add: timeout_impl_def)

lemma run_rounds_harmless: "rtu_inv impl_mode impl_ok s \<Longrightarrow> harmless (run_rounds n ue s)"
proof (induction n arbitrary: s)
  case (Suc n)
  have inv: "rtu_inv impl_mode impl_ok t" if "recv_impl ue s = Inr (t, st)" for t st
    by (rule recv_impl_inv [OF Suc.prems that])
  show ?case
    using inv timeout_impl_inv Suc
    by (auto intro!: harmless_bind recv_impl_harmless timeout_impl_harmless)
qed simp

lemma run_start_harmless:
  assumes "intervals_differ r o1 o3"
  shows "harmless (run_start w r o1 o3 mi)"
proof -
  from assms obtain t1 t3 where t: "run_intervals r o1 o3 = Inr (t1, t3)" "t1 \<noteq> t3" by (rule intervals_differE)
  from exec_harmless [OF initial_inv [OF t], of Event] t(1) show ?thesis by (simp add: run_start_def)
qed

lemma modbus_rtu_run_harmless: "intervals_differ r o1 o3 \<Longrightarrow> harmless (modbus_rtu_run n w r o1 o3 mi ue)"
  unfolding modbus_rtu_run_def
  by (intro harmless_bind run_start_harmless run_rounds_harmless run_start_inv)

section \<open>Interrupted calls\<close>

text \<open>
  A \<open>tcdrain\<close> that fails ends the process when the reply has been written, and one that was interrupted
  by a signal is such a failure, unlike \<open>poll\<close>, \<open>read\<close> and \<open>write\<close>.
\<close>

lemma failing_drain_aborts:
  assumes "txbuf_curr s \<le> length (txbuf s)" and "0 < txbuf_curr s" and "rate (user_data s) \<noteq> B0"
    and "calls (dev (user_data s)) = Poll_ret 1 True False # Write_ret n # Drain_err # cs" and "txbuf_curr s \<le> n"
  shows "transmit s = Inl (CheckFailed ''tcdrain'')"
proof -
  obtain t where t: "0 \<le> t" "calc_tmax_ms (rate (user_data s)) (txbuf_curr s) = Inr t"
    using tmax_nonneg [OF assms(3)] by blast
  let ?data = "take (txbuf_curr s) (txbuf s)"
  have "?data \<noteq> []" "length ?data = txbuf_curr s" using assms(1,2) by auto
  with tty_write_at_once [OF assms(4) _ _ t(1), of ?data] assms(5) obtain w where
    "tty_write (dev (user_data s)) ?data t False = Inr (w, int (txbuf_curr s), False)" "calls w = Drain_err # cs"
    by auto
  with t(2) assms(1) show ?thesis
    by (simp add: transmit_def Let_def load_all_ok sys_tcdrain_def)
qed

text \<open>
  A \<open>read\<close> or \<open>write\<close> that fails with \<open>EINTR\<close> is not a failure, but its \<open>- 1\<close> is added to
  the offset: at the start of the buffer the next call goes in front of it.
\<close>

lemma interrupted_read_steps_back:
  assumes "calls w = Poll_ret 1 True False # Read_err True # Poll_ret 1 True False # Read_ret (b # bs) # cs"
    and "0 \<le> timeout" and "buf \<noteq> []" and "(clock w !! 1 - clock w !! 0) sdiv 1000 \<le> timeout"
  shows "tty_read w buf timeout False = Inl (BadWrite Data (- 1))"
proof -
  have "min (length bs) n \<le> length bs" for n by simp
  then show ?thesis
    using assms
    by (simp add: tty_read_def Let_def split_beta timestamp_us_def tty_read_loop.simps [of _ _ 0]
        tty_read_loop.simps [of _ _ "- 1"] sys_poll_def tty_read_ready_def sys_read_def validate_syscall_result_def
        nat_add_distrib)
qed

lemma interrupted_write_steps_back:
  assumes "calls w = Poll_ret 1 True False # Write_err True # Poll_ret 1 True False # Write_ret (Suc n) # cs"
    and "0 \<le> timeout" and "buf \<noteq> []" and "(clock w !! 1 - clock w !! 0) sdiv 1000 \<le> timeout"
  shows "tty_write w buf timeout False = Inl (BadRead Data (- 1))"
  using assms
  by (simp add: tty_write_def Let_def split_beta timestamp_us_def tty_write_loop.simps [of _ _ 0]
      tty_write_loop.simps [of _ _ "- 1"] sys_poll_def tty_write_ready_def sys_write_def validate_syscall_result_def
      nat_add_distrib)

text \<open>
  \<open>tty_read_ll\<close> adds the time since its start again in every round: with two empty reads at
  \<open>d\<close> and \<open>2 * d\<close> it has given up a delay of \<open>3 * d\<close> after \<open>2 * d\<close>.
\<close>

lemma read_ll_gives_up_early:
  assumes "calls w = Read_ret [] # Usleep_ret # Read_ret [] # cs" and "0 < d"
    and "clock w !! 1 = clock w !! 0 + d" and "clock w !! 2 = clock w !! 0 + 2 * d"
  shows "\<exists>w'. tty_read_ll w buf (3 * d) = Inr (w', buf, 0) \<and> calls w' = cs \<and> clock w' = sdrop 3 (clock w)"
  using assms
  by (simp add: tty_read_ll_def Let_def split_beta timestamp_us_def tty_read_ll_loop.simps [of _ _ _ _ "0"]
      tty_read_ll_loop.simps [of _ _ _ _ "d"] tty_read_ll_loop.simps [of _ _ _ _ "3 * d"]
      sys_usleep_def sys_read_def numeral_2_eq_2 numeral_3_eq_3)

end
