(* ===== verification/Linux_Properties.thy ===== *)
theory Linux_Properties
  imports Linux_Faults
begin

text \<open>
  The properties of the state machine of \<open>rtu.c\<close> and of the Linux slave built on it, each
  with an instance on a small slave: address 7, four bytes of memory at 0x1000, 19200 bps.
\<close>

section \<open>The slave of the instances\<close>

definition demo_os :: "int stream \<Rightarrow> syscall list \<Rightarrow> os" where
  "demo_os c cs = \<lparr>clock = c, calls = cs, wire = []\<rparr>"

definition demo_memory :: rtu_memory_impl where
  "demo_memory =
     \<lparr>self_addr = 7, impl_memory = \<lparr>addr_begin = 0x1000, addr_end = 0x1004, mem_bytes = [1, 2, 3, 4]\<rparr>\<rparr>"

definition demo_impl :: rtu_impl where
  "demo_impl =
     \<lparr>dev = demo_os (sconst 0) [Poll_ret 1 True False, Write_ret 256, Drain_ret], rate = B19200,
      timeout_1t5_us = 750, timeout_3t5_us = 1750, timestamp = 0, timeout_us = - 1,
      start_cntr = 0, stop_cntr = 0, reset_cntr = 0, memory_impl = demo_memory\<rparr>"

definition demo_idle :: "rtu_impl modbus_rtu_state" where
  "demo_idle = (modbus_rtu_init demo_impl)\<lparr>status :=
     \<lparr>updated = False, st_error = False, st_prev = RTU_STATE_INIT, st_curr = RTU_STATE_IDLE\<rparr>\<rparr>"

lemma demo_idle_idle: "idle_slave demo_idle"
  by (simp add: idle_slave_def demo_idle_def modbus_rtu_init_def rtu_inv_defs demo_impl_def impl_defs)

lemma demo_idle_simps [simp]:
  "user_data demo_idle = demo_impl" "memory_impl demo_impl = demo_memory" "self_addr demo_memory = 7"
  "rate demo_impl = B19200" "calls (dev demo_impl) = [Poll_ret 1 True False, Write_ret 256, Drain_ret]"
  "wire (dev demo_impl) = []"
  by (simp_all add: demo_idle_def modbus_rtu_init_def demo_impl_def demo_memory_def demo_os_def)

lemma demo_memory_wf: "mem_wf (impl_memory demo_memory)"
  by (simp add: demo_memory_def mem_wf_def)

text \<open>The slave after its first event, and a round in which nothing arrives for 2 ms.\<close>

definition demo_started :: "int stream \<Rightarrow> syscall list \<Rightarrow> rtu_impl modbus_rtu_state" where
  "demo_started c cs = (modbus_rtu_init (demo_impl\<lparr>dev := demo_os c cs, timeout_us := 1750, start_cntr := 1\<rparr>))
     \<lparr>timer_cb := Some Timer_silent_interval_cb,
      status := \<lparr>updated = False, st_error = False, st_prev = RTU_STATE_INIT, st_curr = RTU_STATE_INIT\<rparr>\<rparr>"

lemma demo_run_start:
  "run_start (demo_os (0 ## 0 ## c) cs) B19200 (- 1) (- 1) demo_memory = Inr (demo_started c cs)"
  by (simp add: run_start_def run_intervals_def initial_impl_def calc_1t5_us_def calc_3t5_us_def timestamp_us_def demo_os_def
      modbus_rtu_event_def event_dispatch_def event_restart_def modbus_rtu_init_def reset_rxbuf_def
      reset_txbuf_def linux_platform_def impl_timer_stop_def impl_timer_start_3t5_def impl_start_def
      read_clock_def demo_started_def demo_impl_def)

lemma demo_read_fails: "recv_impl False (demo_started c [Read_err False]) = Inl (CheckFailed ''read'')"
  by (simp add: recv_impl_def demo_started_def modbus_rtu_init_def demo_impl_def demo_os_def tty_read_ll_def
     timestamp_us_def tty_read_ll_loop.simps [of _ _ _ _ 0] sys_read_def validate_syscall_result_def Let_def)

lemma demo_silence: "recv_impl False (demo_started (0 ## 2000 ## c) [Read_ret []]) = Inr (demo_started c [], False)"
proof -
  have "tty_read_ll \<lparr>clock = 0 ## 2000 ## c, calls = [Read_ret []], wire = []\<rparr> buf 1750
      = Inr (\<lparr>clock = c, calls = [], wire = []\<rparr>, buf, 0)" for buf
    by (simp add: tty_read_ll_def timestamp_us_def tty_read_ll_loop.simps [of _ _ _ _ 0]
        tty_read_ll_loop.simps [of _ _ _ _ 2000] sys_read_def Let_def)
  then show ?thesis
    by (simp add: recv_impl_def demo_started_def modbus_rtu_init_def demo_impl_def demo_os_def Let_def)
qed

lemma demo_timeout: "\<exists>s. timeout_impl (demo_started (2000 ## c) []) = Inr s \<and> curr_st s = RTU_STATE_IDLE"
  by (simp add: timeout_impl_def demo_started_def modbus_rtu_init_def demo_impl_def demo_os_def
      read_clock_def timestamp_us_def call_timer_cb_def timer_silent_interval_cb_def linux_platform_def
      impl_timer_stop_def state_defs modbus_rtu_event_def event_dispatch_def)

section \<open>The invariant\<close>

text \<open>
  C2: whatever the operating system returns, after any number of rounds of \<open>modbus_rtu_run\<close>, with the
  intervals of its rate (\<open>- 1\<close>, \<open>- 1\<close>) or custom ones that differ, the state of the slave satisfies
  the invariant: buffers of 256 bytes with their cursors inside, a transition of the state diagram, and
  exactly the timer running that the state calls for.
\<close>

theorem linux_run_invariant:
  assumes "intervals_differ r o1 o3" and "modbus_rtu_run n w r o1 o3 mi user_event = Inr (s, stop)"
  shows "rtu_inv impl_mode impl_ok s"
proof -
  from assms(2) obtain t where "run_start w r o1 o3 mi = Inr t" "run_rounds n user_event t = Inr (s, stop)"
    by (auto simp: modbus_rtu_run_def bind_res_Inr_iff)
  then show ?thesis using run_rounds_inv run_start_inv [OF assms(1)] by blast
qed

theorem linux_run_invariant_witness:
  "\<exists>s. modbus_rtu_run 1 (demo_os (0 ## 0 ## 0 ## 2000 ## 2000 ## sconst 2000) [Read_ret []]) B19200 (- 1) (- 1)
      demo_memory False = Inr (s, False) \<and> curr_st s = RTU_STATE_IDLE \<and> rtu_inv impl_mode impl_ok s"
proof -
  from demo_timeout obtain s where "timeout_impl (demo_started (2000 ## sconst 2000) []) = Inr s"
      "curr_st s = RTU_STATE_IDLE" by blast
  then have run: "modbus_rtu_run 1 (demo_os (0 ## 0 ## 0 ## 2000 ## 2000 ## sconst 2000) [Read_ret []]) B19200
      (- 1) (- 1) demo_memory False = Inr (s, False)" and "curr_st s = RTU_STATE_IDLE"
    by (simp_all add: modbus_rtu_run_def demo_run_start demo_silence)
  with linux_run_invariant [OF _ run] show ?thesis by simp
qed

section \<open>Faults\<close>

text \<open>
  C7: no check of a timer ever fails in the Linux slave, with the intervals of its rate or custom ones
  that differ, and no null callback is called: a fault of \<open>modbus_rtu_run\<close> comes from the PDU handler, from a system call, or from the end of the
  script.
\<close>

theorem linux_timers_never_abort:
  assumes "intervals_differ r o1 o3" and "modbus_rtu_run n w r o1 o3 mi user_event = Inl e"
  shows "\<not> timer_fault e"
  using modbus_rtu_run_harmless [OF assms(1), of n w mi user_event] assms(2) by (simp add: harmless_def)

theorem linux_timers_never_abort_witness:
  "modbus_rtu_run 1 (demo_os (sconst 0) [Read_err False]) B19200 (- 1) (- 1) demo_memory False = Inl (CheckFailed ''read'') \<and>
   \<not> timer_fault (CheckFailed ''read'')"
proof -
  have "sconst 0 = 0 ## 0 ## sconst 0" by (metis siterate.code id_apply)
  then have "run_start (demo_os (sconst 0) [Read_err False]) B19200 (- 1) (- 1) demo_memory = Inr (demo_started (sconst 0) [Read_err False])"
    by (metis demo_run_start)
  then have run: "modbus_rtu_run 1 (demo_os (sconst 0) [Read_err False]) B19200 (- 1) (- 1) demo_memory False = Inl (CheckFailed ''read'')"
    by (simp add: modbus_rtu_run_def demo_read_fails)
  with linux_timers_never_abort [OF _ run] show ?thesis by simp
qed

text \<open>
  C8: on the states the slave can reach, none of the consistency checks of \<open>modbus_rtu_event\<close>
  fails: its error label is reached through the error flag only.
\<close>

theorem event_checks_never_fail:
  assumes "reachable linux_platform impl_mode i s" and "impl_ok i" and "timeout_us i = - 1"
  shows "modbus_rtu_event linux_platform s = event_live linux_platform s"
proof -
  have "impl_mode i = Stopped" using assms(3) by (simp add: impl_mode_def)
  from linux_rtu.reachable_inv [OF assms(1,2) this] show ?thesis by (rule event_is_live)
qed

theorem event_checks_never_fail_witness:
  "modbus_rtu_event linux_platform (serial_recv_err_cb (modbus_rtu_init demo_impl) 0)
   = event_live linux_platform (serial_recv_err_cb (modbus_rtu_init demo_impl) 0)"
proof (rule event_checks_never_fail)
  show "reachable linux_platform impl_mode demo_impl (serial_recv_err_cb (modbus_rtu_init demo_impl) 0)"
    by (rule reachable.step [OF reachable.start rtu_step.step [where i = "Recv_err 0"]]) simp_all
qed (simp_all add: demo_impl_def impl_defs)

text \<open>
  C31: \<open>send_impl\<close> calls \<open>modbus_rtu_event\<close>, which could call \<open>send_impl\<close> again,
  but never does: from the state BUSY any bound on the depth gives the result of depth 1.
\<close>

theorem send_never_nests:
  assumes "curr_st s = RTU_STATE_BUSY"
  shows "send_impl (Suc n) s = serial_send linux_platform s"
  using send_depth [OF assms] by (simp add: linux_platform_def)

theorem send_never_nests_witness:
  "send_impl 3 (demo_idle\<lparr>status := \<lparr>updated = True, st_error = False, st_prev = RTU_STATE_IDLE,
     st_curr = RTU_STATE_BUSY\<rparr>\<rparr>)
   = serial_send linux_platform (demo_idle\<lparr>status := \<lparr>updated = True, st_error = False,
     st_prev = RTU_STATE_IDLE, st_curr = RTU_STATE_BUSY\<rparr>\<rparr>)"
  using send_never_nests [of "demo_idle\<lparr>status := \<lparr>updated = True, st_error = False,
    st_prev = RTU_STATE_IDLE, st_curr = RTU_STATE_BUSY\<rparr>\<rparr>" 2]
  by (simp add: numeral_3_eq_3 numeral_2_eq_2 del: send_impl.simps)

text \<open>
  At every supported rate the two intervals exist, 1.5t is positive and shorter than 3.5t,
  and above 9600 bps they are the fixed 750 and 1750 microseconds.
\<close>

lemma intervals_of_rates:
  assumes "tty_bps r = Inr bps"
  shows "\<exists>t1 t3. calc_1t5_us r = Inr t1 \<and> calc_3t5_us r = Inr t3 \<and> 0 < t1 \<and> t1 < t3 \<and>
    (9600 < bps \<longrightarrow> t1 = 750 \<and> t3 = 1750) \<and> (bps \<le> 9600 \<longrightarrow> t1 = 8250000 div bps \<and> t3 = 19250000 div bps)"
  using assms by (cases r) (simp_all add: calc_1t5_us_def calc_3t5_us_def signed_divide_int_def)

section \<open>Requests and replies\<close>

text \<open>
  C3: an idle slave that receives the frame of a request to its address whose write, if it is one,
  stays in its memory (\<open>write_in_window\<close>: the whole run of addresses, and registers with the
  values of bytes), with the main loop calling \<open>modbus_rtu_event\<close> any number of times between the
  bytes and the two timeouts, puts on the line, which takes it at once and drains, exactly the frame of the
  reply the abstract server gives, and its memory becomes the server's. Reads and unknown functions need no
  condition; what the code does with other writes is in \<open>Memory_Properties\<close>.
\<close>

theorem slave_answers_request:
  assumes "idle_slave s" and "interrupts is = map Recv (adu a (request_pdu q))" and "set es \<subseteq> {Event}"
    and "self_addr (memory_impl (user_data s)) = a"
    and "impl_memory (memory_impl (user_data s)) = m" and "mem_wf m"
    and "request_wf q" and "write_in_window m q" and "length (request_pdu q) \<le> 253"
    and "rate (user_data s) \<noteq> B0"
    and "calls (dev (user_data s)) = Poll_ret 1 True False # Write_ret n # Drain_ret # cs" and "256 \<le> n"
  shows "\<exists>s'. exec_all linux_platform (is @ Timeout # es @ [Timeout, Event]) s = Inr s' \<and>
    wire (dev (user_data s')) =
      wire (dev (user_data s)) @ adu a (reply_pdu (snd (serve (mem_abs m) q))) \<and>
    mem_abs (impl_memory (memory_impl (user_data s'))) = fst (serve (mem_abs m) q) \<and>
    self_addr (memory_impl (user_data s')) = a \<and> rtu_inv impl_mode impl_ok s'"
proof -
  have n: "TXBUF_CAPACITY \<le> n" using assms(12) by (simp add: capacities)
  note run = request_answered [OF assms(1-4) _ assms(7) _ assms(9-11) n, unfolded assms(5), OF assms(6,8)]
  then show ?thesis using assms(4) by (auto simp: impl_app_def)
qed

theorem slave_answers_request_witness:
  "\<exists>s'. exec_all linux_platform
      (map Recv (adu 7 (request_pdu (Wr_bytes 0x1001 [8, 9]))) @ Timeout # [Event] @ [Timeout, Event]) demo_idle
      = Inr s' \<and>
    wire (dev (user_data s')) = adu 7 [FCODE_WR_BYTES, 0x10, 0x01, 2] \<and>
    mem_abs (impl_memory (memory_impl (user_data s'))) 0x1002 = Some 9"
proof -
  let ?m = "impl_memory demo_memory" and ?q = "Wr_bytes 0x1001 [8, 9]"
  have s: "serve (mem_abs ?m) ?q = ((mem_abs ?m)(0x1001 \<mapsto> 8, 0x1002 \<mapsto> 9), Bytes_written 0x1001 2)"
    by (simp add: mapped_mem_abs demo_memory_def) (simp add: mem_abs_def)
  have rep: "reply_pdu (Bytes_written 0x1001 2) = [FCODE_WR_BYTES, 0x10, 0x01, 2]"
    by (simp add: be16_def HIGH_BYTE_def LOW_BYTE_def)
  have "\<exists>s'. exec_all linux_platform
      (map Recv (adu 7 (request_pdu ?q)) @ Timeout # [Event] @ [Timeout, Event]) demo_idle = Inr s' \<and>
    wire (dev (user_data s')) = wire (dev (user_data demo_idle)) @ adu 7 (reply_pdu (snd (serve (mem_abs ?m) ?q))) \<and>
    mem_abs (impl_memory (memory_impl (user_data s'))) = fst (serve (mem_abs ?m) ?q) \<and>
    self_addr (memory_impl (user_data s')) = 7 \<and> rtu_inv impl_mode impl_ok s'"
    by (rule slave_answers_request [where n = 256 and cs = "[]"])
      (simp_all add: demo_idle_idle demo_memory_wf length_request_pdu,
       simp_all add: demo_memory_def)
  then show ?thesis unfolding s fst_conv snd_conv rep by auto
qed

section \<open>Frames that are not answered\<close>

text \<open>
  C10: a frame in which two adjacent bytes arrived wrong, in any way and anywhere in it, is
  never answered and changes no memory; the slave only sets its error flag.
\<close>

theorem slave_rejects_burst:
  assumes "idle_slave s" and "adu a pdu = pre @ [x, y] @ post" and "(x, y) \<noteq> (x', y')"
    and "pdu \<noteq> []" and "length pdu \<le> 253"
    and "interrupts is = map Recv (pre @ [x', y'] @ post)" and "set es \<subseteq> {Event}"
  shows "\<exists>s'. exec_all linux_platform (is @ Timeout # es @ [Timeout, Event]) s = Inr s' \<and>
    wire (dev (user_data s')) = wire (dev (user_data s)) \<and>
    memory_impl (user_data s') = memory_impl (user_data s) \<and> st_error (status s')"
proof -
  have len: "length (pre @ [x', y'] @ post) = length pdu + 3"
    using arg_cong [OF assms(2), of length] by simp
  have "crc_frame_ok (\<lambda>bs. CRC_TO_WORD (modbus_rtu_calc_crc (Some bs))) (pre @ [x, y] @ post)"
    using frame_ok_adu [OF assms(4), of a] unfolding assms(2) frame_ok_linux by blast
  then have "\<not> frame_ok linux_platform (pre @ [x', y'] @ post)"
    using linux_crc.burst_detected [OF _ assms(3)] by (simp add: frame_ok_linux)
  from damaged_frame [OF assms(1,6) _ _ assms(7) this] show ?thesis
    using len assms(5) by (auto simp: impl_app_def capacities)
qed

theorem slave_rejects_burst_witness:
  "\<exists>s'. exec_all linux_platform
      (map Recv ([7, FCODE_RD_BYTES] @ [0x11, 0x12] @ [2] @ crc_bytes [7, FCODE_RD_BYTES, 0x10, 0x02, 2])
        @ Timeout # [] @ [Timeout, Event]) demo_idle = Inr s' \<and> wire (dev (user_data s')) = []"
  using slave_rejects_burst [of demo_idle 7 "[FCODE_RD_BYTES, 0x10, 0x02, 2]" "[7, FCODE_RD_BYTES]" "0x10" "0x02"
      "[2] @ crc_bytes [7, FCODE_RD_BYTES, 0x10, 0x02, 2]" "0x11" "0x12"
      "map Recv ([7, FCODE_RD_BYTES] @ [0x11, 0x12] @ [2] @ crc_bytes [7, FCODE_RD_BYTES, 0x10, 0x02, 2])" "[]"]
  by (simp add: demo_idle_idle adu_def del: exec_all.simps) blast

text \<open>
  C13: a good frame to another address is not answered and changes no memory, and the slave is
  idle again at once.
\<close>

theorem slave_ignores_others:
  assumes "idle_slave s" and "self_addr (memory_impl (user_data s)) \<noteq> a"
    and "pdu \<noteq> []" and "length pdu \<le> 253"
    and "interrupts is = map Recv (adu a pdu)" and "set es \<subseteq> {Event}"
  shows "\<exists>s'. exec_all linux_platform (is @ Timeout # es @ [Timeout, Event]) s = Inr s' \<and> idle_slave s' \<and>
    wire (dev (user_data s')) = wire (dev (user_data s)) \<and>
    memory_impl (user_data s') = memory_impl (user_data s)"
proof -
  have "length (adu a pdu) \<le> RXBUF_CAPACITY" using assms(4) by (simp add: capacities)
  moreover have "hd (adu a pdu) \<noteq> self_addr (memory_impl (user_data s))"
    using assms(2) by (simp add: adu_def)
  ultimately show ?thesis
    using other_frame [OF assms(1,5) _ assms(6) frame_ok_adu [OF assms(3)]] by (auto simp: impl_app_def)
qed

theorem slave_ignores_others_witness:
  "\<exists>s'. exec_all linux_platform (map Recv (adu 9 [FCODE_RD_BYTES, 0x10, 0x00, 2]) @ Timeout # [] @ [Timeout, Event])
      demo_idle = Inr s' \<and> idle_slave s' \<and> wire (dev (user_data s')) = []"
  using slave_ignores_others [of demo_idle 9 "[FCODE_RD_BYTES, 0x10, 0x00, 2]"
      "map Recv (adu 9 [FCODE_RD_BYTES, 0x10, 0x00, 2])" "[]"]
  by (simp add: demo_idle_idle del: exec_all.simps) blast

text \<open>
  C11: the error flag of a damaged frame is seen by \<open>modbus_rtu_event\<close> only with the first byte
  of the next frame, so that frame is lost too, whatever it holds; a silence of 3.5t then makes the
  slave idle again, with its memory and the line as they were.
\<close>

theorem frame_after_damaged_is_lost:
  assumes "idle_slave s" and "interrupts is = map Recv (bs @ [l, h])" and "set es \<subseteq> {Event}"
    and "CRC_TO_WORD (modbus_rtu_calc_crc (Some bs)) \<noteq> MAKE_WORD l h" and "length bs \<le> 254"
    and "f2 \<noteq> []"
  shows "\<exists>s'. exec_all linux_platform
      ((is @ Timeout # es @ [Timeout, Event]) @ byte_events f2 @ [Timeout, Event]) s = Inr s' \<and>
    idle_slave s' \<and> wire (dev (user_data s')) = wire (dev (user_data s)) \<and>
    memory_impl (user_data s') = memory_impl (user_data s)"
proof -
  have "\<not> frame_ok linux_platform (bs @ [l, h])"
    using linux_crc.frame_ok_append [of bs l h] assms(4) by (simp add: frame_ok_linux)
  then show ?thesis
    using damaged_then_lost [OF assms(1,2) _ _ assms(3) _ assms(6)] assms(5)
    by (auto simp: impl_app_def capacities)
qed

theorem frame_after_damaged_is_lost_witness:
  "\<exists>s'. exec_all linux_platform
      ((map Recv ([] @ [0, 0]) @ Timeout # [] @ [Timeout, Event])
        @ byte_events (adu 7 [FCODE_RD_BYTES, 0x10, 0x00, 2]) @ [Timeout, Event]) demo_idle = Inr s' \<and>
    idle_slave s' \<and> wire (dev (user_data s')) = []"
proof -
  have "CRC_TO_WORD (modbus_rtu_calc_crc (Some [])) \<noteq> MAKE_WORD 0 0"
    by (simp add: modbus_rtu_calc_crc_def CRC_TO_WORD_def)
  then show ?thesis
    using frame_after_damaged_is_lost [of demo_idle "map Recv ([] @ [0, 0])" "[]" 0 0 "[]"
        "adu 7 [FCODE_RD_BYTES, 0x10, 0x00, 2]"]
    by (simp add: demo_idle_idle adu_def del: exec_all.simps) blast
qed

end
