(* ===== verification/Master.thy ===== *)
theory Master
  imports Adu Rtu_Codes
begin

text \<open>
  The requests and replies of a master, \<open>master.c\<close> and the packed structs of \<open>master.h\<close>.

  A pointer that may be NULL is an option: an argument \<open>dst\<close> or \<open>data\<close> the code tests, the
  offset of a returned pointer, or the reply it points to, read through its struct. A function that
  writes into \<open>dst\<close> returns what is there afterwards as well, also when it returns NULL. A struct is a record, and \<open>..._bytes\<close> is its packed layout.
\<close>

section \<open>The CRC in place\<close>

text \<open>
  \<open>modbus_rtu_calc_crc(begin, begin + e)\<close>; with a negative \<open>e\<close> its loop would miss
  \<open>end\<close> and run past the buffer.
\<close>

definition crc_of_range :: "u8 list \<Rightarrow> int \<Rightarrow> modbus_rtu_crc res" where
  "crc_of_range buf e =
     (if 0 \<le> e then bind_res (load_all Adu buf 0 (nat e)) (\<lambda>bs. Inr (modbus_rtu_calc_crc (Some bs)))
      else Inl (BadRead Adu (int (length buf))))"

text \<open>\<open>e\<close> is \<open>end - begin\<close>; the sum is one of \<open>size_t\<close>.\<close>

definition implace_crc_impl :: "u8 list \<Rightarrow> int \<Rightarrow> nat \<Rightarrow> (u8 list \<times> nat option) res" where
  "implace_crc_impl buf e max_size =
     (if (e + 2) mod 2 ^ 64 > int max_size then Inr (buf, None)
      else bind_res (crc_of_range buf e) (\<lambda>crc.
           bind_res (put Adu (buf, nat e) (crc_low crc)) (\<lambda>c.
           bind_res (put Adu c (crc_high crc)) (\<lambda>(buf, curr). Inr (buf, Some curr)))))"

definition implace_crc :: "u8 list \<Rightarrow> nat \<Rightarrow> (u8 list \<times> nat option) res" where
  "implace_crc buf adu_size = implace_crc_impl buf (int adu_size - 2) adu_size"

definition valid_crc_impl :: "u8 list \<Rightarrow> nat \<Rightarrow> nat option res" where
  "valid_crc_impl buf e =
     (if e \<le> 2 then Inr None
      else bind_res (crc_of_range buf (int e - 2)) (\<lambda>crc.
           bind_res (load Adu buf (e - 2)) (\<lambda>low.
           bind_res (load Adu buf (e - 1)) (\<lambda>high.
           if low \<noteq> crc_low crc \<or> high \<noteq> crc_high crc then Inr None else Inr (Some (e - 2))))))"

definition valid_crc :: "u8 list \<Rightarrow> nat \<Rightarrow> nat option res" where
  "valid_crc buf adu_size = valid_crc_impl buf adu_size"

section \<open>Structs (\<open>master.h\<close>)\<close>

abbreviation data16_bytes :: "modbus_rtu_data16 \<Rightarrow> u8 list" where
  "data16_bytes d \<equiv> [d16_high d, d16_low d]"

abbreviation crc_struct_bytes :: "modbus_rtu_crc \<Rightarrow> u8 list" where
  "crc_struct_bytes c \<equiv> [crc_low c, crc_high c]"

abbreviation no_crc :: modbus_rtu_crc where
  "no_crc \<equiv> \<lparr>crc_low = 0, crc_high = 0\<rparr>"

record modbus_rtu_mem_access_request =
  acc_addr :: u8
  acc_fcode :: u8
  acc_mem_addr :: modbus_rtu_mem_addr
  acc_count :: modbus_rtu_count
  acc_crc :: modbus_rtu_crc

definition mem_access_bytes :: "modbus_rtu_mem_access_request \<Rightarrow> u8 list" where
  "mem_access_bytes r = [acc_addr r, acc_fcode r] @ data16_bytes (acc_mem_addr r)
     @ data16_bytes (acc_count r) @ crc_struct_bytes (acc_crc r)"

record modbus_rtu_wr_register =
  wreg_addr :: u8
  wreg_fcode :: u8
  wreg_mem_addr :: modbus_rtu_mem_addr
  wreg_data :: modbus_rtu_data16
  wreg_crc :: modbus_rtu_crc

definition wr_register_bytes :: "modbus_rtu_wr_register \<Rightarrow> u8 list" where
  "wr_register_bytes r = [wreg_addr r, wreg_fcode r] @ data16_bytes (wreg_mem_addr r)
     @ data16_bytes (wreg_data r) @ crc_struct_bytes (wreg_crc r)"

record modbus_rtu_wr_registers_request_header =
  wregs_addr :: u8
  wregs_fcode :: u8
  wregs_mem_addr :: modbus_rtu_mem_addr
  wregs_count :: modbus_rtu_count
  wregs_byte_count :: u8

definition wr_registers_header_bytes :: "modbus_rtu_wr_registers_request_header \<Rightarrow> u8 list" where
  "wr_registers_header_bytes r = [wregs_addr r, wregs_fcode r] @ data16_bytes (wregs_mem_addr r)
     @ data16_bytes (wregs_count r) @ [wregs_byte_count r]"

record modbus_rtu_wr_registers_reply =
  wregs_rep_addr :: u8
  wregs_rep_fcode :: u8
  wregs_rep_mem_addr :: modbus_rtu_mem_addr
  wregs_rep_count :: modbus_rtu_count
  wregs_rep_crc :: modbus_rtu_crc

text \<open>The headers of \<open>wr_bytes\<close> requests and of \<open>rd_bytes\<close> replies have the same fields.\<close>

record modbus_rtu_bytes_header =
  bytes_addr :: u8
  bytes_fcode :: u8
  bytes_mem_addr :: modbus_rtu_mem_addr
  bytes_count :: u8

definition bytes_header_bytes :: "modbus_rtu_bytes_header \<Rightarrow> u8 list" where
  "bytes_header_bytes r = [bytes_addr r, bytes_fcode r] @ data16_bytes (bytes_mem_addr r) @ [bytes_count r]"

text \<open>So have \<open>rd_bytes\<close> requests and \<open>wr_bytes\<close> replies, with a CRC.\<close>

record modbus_rtu_bytes_frame = modbus_rtu_bytes_header +
  bytes_crc :: modbus_rtu_crc

definition bytes_frame_bytes :: "modbus_rtu_bytes_frame \<Rightarrow> u8 list" where
  "bytes_frame_bytes r = [bytes_addr r, bytes_fcode r] @ data16_bytes (bytes_mem_addr r)
     @ [bytes_count r] @ crc_struct_bytes (bytes_crc r)"

record modbus_rtu_rd_holding_registers_reply =
  rhr_addr :: u8
  rhr_fcode :: u8
  rhr_byte_count :: u8
  rhr_data :: "u8 list"

record modbus_rtu_rd_bytes_reply =
  rdb_header :: modbus_rtu_bytes_header
  rdb_bytes :: "u8 list"

section \<open>Requests\<close>

type_synonym request_out = "u8 list option \<times> nat option"

text \<open>
  The ends of the functions below: the CRC of a local \<open>req\<close> by \<open>implace_crc\<close> and the copy of
  \<open>req\<close> to \<open>dst\<close>, or the CRC after the \<open>n\<close> bytes that are in \<open>dst\<close> already.
\<close>

definition send_struct :: "u8 list \<Rightarrow> u8 list option \<Rightarrow> request_out res" where
  "send_struct req dst =
     bind_res (implace_crc req (length req)) (\<lambda>(req, curr).
     if curr = None then Inr (dst, None)
     else case dst of
         None \<Rightarrow> Inl (NullDeref Dst)
       | Some dst \<Rightarrow> bind_res (put_all Dst (dst, 0) req) (\<lambda>(dst, n). Inr (Some dst, Some n)))"

definition finish_in_place :: "nat \<Rightarrow> cursor \<Rightarrow> request_out res" where
  "finish_in_place max_size c =
     bind_res (implace_crc_impl (fst c) (int (snd c)) max_size) (\<lambda>(dst, curr). Inr (Some dst, curr))"

definition make_request_rd_coils :: "u8 \<Rightarrow> modbus_rtu_mem_addr \<Rightarrow> u8 \<Rightarrow> u8 list option \<Rightarrow> nat
    \<Rightarrow> request_out res" where
  "make_request_rd_coils slave_addr mem_addr count dst max_size =
     (case dst of None \<Rightarrow> Inr (None, None) | Some buf \<Rightarrow>
      if 0x7D < count then Inr (dst, None)
      else let req = [slave_addr, FCODE_RD_COILS, d16_high mem_addr, d16_low mem_addr, 0, count] in
        if length req > max_size then Inr (dst, None)
        else bind_res (put_all Dst (buf, 0) req) (finish_in_place max_size))"

definition make_request_rd_holding_registers :: "u8 \<Rightarrow> modbus_rtu_mem_addr \<Rightarrow> modbus_rtu_count
    \<Rightarrow> u8 list option \<Rightarrow> nat \<Rightarrow> request_out res" where
  "make_request_rd_holding_registers slave_addr mem_addr count dst max_size =
     (case dst of None \<Rightarrow> Inr (None, None) | Some buf \<Rightarrow>
      if 0x7D < DATA16_TO_WORD count then Inr (dst, None)
      else let req = mem_access_bytes \<lparr>acc_addr = slave_addr, acc_fcode = FCODE_RD_HOLDING_REGISTERS,
             acc_mem_addr = mem_addr, acc_count = count, acc_crc = no_crc\<rparr> in
        if length req > max_size then Inr (dst, None)
        else send_struct req dst)"

definition make_request_wr_coil :: "u8 \<Rightarrow> modbus_rtu_mem_addr \<Rightarrow> u8 \<Rightarrow> u8 list option \<Rightarrow> nat
    \<Rightarrow> request_out res" where
  "make_request_wr_coil slave_addr mem_addr data dst max_size =
     (case dst of None \<Rightarrow> Inr (None, None) | Some buf \<Rightarrow>
      if data \<noteq> 0x00 \<and> data \<noteq> 0xFF then Inr (dst, None)
      else let req = [slave_addr, FCODE_WR_COIL, d16_high mem_addr, d16_low mem_addr, data, 0] in
        if length req > max_size then Inr (dst, None)
        else bind_res (put_all Dst (buf, 0) req) (finish_in_place max_size))"

definition make_request_wr_register :: "u8 \<Rightarrow> modbus_rtu_mem_addr \<Rightarrow> modbus_rtu_data16
    \<Rightarrow> u8 list option \<Rightarrow> nat \<Rightarrow> request_out res" where
  "make_request_wr_register slave_addr mem_addr data dst max_size =
     (let req = wr_register_bytes \<lparr>wreg_addr = slave_addr, wreg_fcode = FCODE_WR_REGISTER,
             wreg_mem_addr = mem_addr, wreg_data = data, wreg_crc = no_crc\<rparr> in
      if length req > max_size then Inr (dst, None)
      else send_struct req dst)"

text \<open>\<open>data\<close> is the array of \<open>modbus_rtu_data16_t\<close> it points to, or NULL.\<close>

definition make_request_wr_registers :: "u8 \<Rightarrow> modbus_rtu_mem_addr \<Rightarrow> modbus_rtu_data16 list option
    \<Rightarrow> modbus_rtu_count \<Rightarrow> u8 list option \<Rightarrow> nat \<Rightarrow> request_out res" where
  "make_request_wr_registers slave_addr mem_addr data count dst max_size =
     (case (data, dst) of
        (Some data, Some buf) \<Rightarrow>
          if 0x7B < DATA16_TO_WORD count then Inr (dst, None)
          else let data_size = unat (DATA16_TO_WORD count) * 2; expected_size = 7 + data_size + 2 in
            if expected_size > max_size then Inr (dst, None)
            else bind_res (put_all Dst (buf, 0) (wr_registers_header_bytes
                   \<lparr>wregs_addr = slave_addr, wregs_fcode = FCODE_WR_REGISTERS, wregs_mem_addr = mem_addr,
                    wregs_count = count, wregs_byte_count = ucast (push_bit 1 (DATA16_TO_WORD count))\<rparr>)) (\<lambda>c.
                 bind_res (memcpy Dst c Data (concat (map data16_bytes data)) 0 data_size) (finish_in_place max_size))
      | _ \<Rightarrow> Inr (dst, None))"

definition make_request_wr_bytes :: "u8 \<Rightarrow> modbus_rtu_mem_addr \<Rightarrow> u8 list option \<Rightarrow> u8
    \<Rightarrow> u8 list option \<Rightarrow> nat \<Rightarrow> request_out res" where
  "make_request_wr_bytes slave_addr mem_addr data count dst max_size =
     (case (dst, data) of
        (Some buf, Some data) \<Rightarrow>
          if 249 < count then Inr (dst, None)
          else let expected_size = 5 + unat count + 2 in
            if expected_size > max_size then Inr (dst, None)
            else bind_res (put_all Dst (buf, 0) (bytes_header_bytes
                   \<lparr>bytes_addr = slave_addr, bytes_fcode = FCODE_WR_BYTES, bytes_mem_addr = mem_addr,
                    bytes_count = count\<rparr>)) (\<lambda>c.
                 bind_res (memcpy Dst c Data data 0 (unat count)) (finish_in_place max_size))
      | _ \<Rightarrow> Inr (dst, None))"

definition make_request_rd_bytes :: "u8 \<Rightarrow> modbus_rtu_mem_addr \<Rightarrow> u8 \<Rightarrow> u8 list option \<Rightarrow> nat
    \<Rightarrow> request_out res" where
  "make_request_rd_bytes slave_addr mem_addr count dst max_size =
     (case dst of None \<Rightarrow> Inr (None, None) | Some buf \<Rightarrow>
      if 249 < count then Inr (dst, None)
      else let req = bytes_frame_bytes \<lparr>bytes_addr = slave_addr, bytes_fcode = FCODE_RD_BYTES,
             bytes_mem_addr = mem_addr, bytes_count = count, bytes_crc = no_crc\<rparr> in
        if length req > max_size then Inr (dst, None)
        else send_struct req dst)"

section \<open>Replies\<close>

definition data16_at :: "u8 list \<Rightarrow> nat \<Rightarrow> modbus_rtu_data16" where
  "data16_at buf i = \<lparr>d16_high = buf ! i, d16_low = buf ! Suc i\<rparr>"

definition crc_at :: "u8 list \<Rightarrow> nat \<Rightarrow> modbus_rtu_crc" where
  "crc_at buf i = \<lparr>crc_low = buf ! i, crc_high = buf ! Suc i\<rparr>"

text \<open>\<open>if (!valid_crc(buf, adu_size)) return NULL; return reply;\<close>\<close>

definition if_valid :: "u8 list \<Rightarrow> nat \<Rightarrow> 'a \<Rightarrow> 'a option res" where
  "if_valid buf adu_size reply =
     bind_res (valid_crc buf adu_size) (\<lambda>v. Inr (if v = None then None else Some reply))"

definition parse_reply_rd_holding_registers :: "u8 list \<Rightarrow> nat
    \<Rightarrow> modbus_rtu_rd_holding_registers_reply option res" where
  "parse_reply_rd_holding_registers buf adu_size =
     (if 3 + 2 > adu_size then Inr None
      else bind_res (load Adu buf 2) (\<lambda>byte_count.
           if 3 + 2 + unat byte_count \<noteq> adu_size then Inr None
           else if_valid buf adu_size
             \<lparr>rhr_addr = buf ! 0, rhr_fcode = buf ! 1, rhr_byte_count = byte_count,
              rhr_data = take (unat byte_count) (drop 3 buf)\<rparr>))"

definition parse_reply_wr_register :: "u8 list \<Rightarrow> nat \<Rightarrow> modbus_rtu_wr_register option res" where
  "parse_reply_wr_register buf adu_size =
     (if 8 \<noteq> adu_size then Inr None
      else if_valid buf adu_size
        \<lparr>wreg_addr = buf ! 0, wreg_fcode = buf ! 1, wreg_mem_addr = data16_at buf 2,
         wreg_data = data16_at buf 4, wreg_crc = crc_at buf 6\<rparr>)"

definition parse_reply_wr_registers :: "u8 list \<Rightarrow> nat \<Rightarrow> modbus_rtu_wr_registers_reply option res" where
  "parse_reply_wr_registers buf adu_size =
     (if 1 + 1 + 2 + 2 + 2 \<noteq> adu_size then Inr None
      else if_valid buf adu_size
        \<lparr>wregs_rep_addr = buf ! 0, wregs_rep_fcode = buf ! 1, wregs_rep_mem_addr = data16_at buf 2,
         wregs_rep_count = data16_at buf 4, wregs_rep_crc = crc_at buf 6\<rparr>)"

definition parse_reply_wr_bytes :: "u8 list \<Rightarrow> nat \<Rightarrow> modbus_rtu_bytes_frame option res" where
  "parse_reply_wr_bytes buf adu_size =
     (if 1 + 1 + 2 + 1 + 2 \<noteq> adu_size then Inr None
      else if_valid buf adu_size
        \<lparr>bytes_addr = buf ! 0, bytes_fcode = buf ! 1, bytes_mem_addr = data16_at buf 2,
         bytes_count = buf ! 4, bytes_crc = crc_at buf 5\<rparr>)"

definition parse_reply_rd_bytes :: "u8 list \<Rightarrow> nat \<Rightarrow> modbus_rtu_rd_bytes_reply option res" where
  "parse_reply_rd_bytes buf adu_size =
     (if 5 + 2 > adu_size then Inr None
      else bind_res (load Adu buf 4) (\<lambda>count.
           if 5 + 2 + unat count \<noteq> adu_size then Inr None
           else if_valid buf adu_size
             \<lparr>rdb_header = \<lparr>bytes_addr = buf ! 0, bytes_fcode = buf ! 1, bytes_mem_addr = data16_at buf 2,
                bytes_count = count\<rparr>, rdb_bytes = take (unat count) (drop 5 buf)\<rparr>))"

text \<open>The result is the offset of the exception code.\<close>

definition find_ecode :: "u8 list \<Rightarrow> nat \<Rightarrow> nat option res" where
  "find_ecode buf adu_size =
     (if adu_size \<noteq> 1 + 1 + 1 + 2 then Inr None
      else bind_res (valid_crc buf adu_size) (\<lambda>v. Inr (if v = None then None else Some (1 + 1))))"

end
