(* ===== verification/Master_Correct.thy ===== *)
theory Master_Correct
  imports Master Memory_Correct
begin

text \<open>
  What the functions of \<open>master.c\<close> compute, in terms of the frames of \<open>Adu\<close> and the
  requests and replies of \<open>Memory_Spec\<close>.
\<close>

section \<open>The CRC in place\<close>

lemma crc_of_range_ok: "n \<le> length buf \<Longrightarrow> crc_of_range buf (int n) = Inr (modbus_rtu_calc_crc (Some (take n buf)))"
  by (simp add: crc_of_range_def load_all_ok)

lemma put_put:
  "Suc n < length buf \<Longrightarrow> bind_res (put r (buf, n) a) (\<lambda>c. put r c b) = Inr (overwrite buf n [a, b], n + 2)"
  using put_all_ok [of n "[a, b]" buf r] by simp

lemma implace_crc_impl_eq:
  assumes "n + 2 \<le> length buf" and "n + 2 < 2 ^ 64"
  shows "implace_crc_impl buf (int n) max_size =
    Inr (if max_size < n + 2 then (buf, None)
         else (overwrite buf n (crc_bytes (take n buf)), Some (n + 2)))"
proof -
  have "(int n + 2) mod 2 ^ 64 = int (n + 2)" using assms(2) by simp
  moreover have "bind_res (put Adu (buf, n) a) (\<lambda>c. bind_res (put Adu c b) f) = f (overwrite buf n [a, b], n + 2)"
    for a b and f :: "cursor \<Rightarrow> (u8 list \<times> nat option) res"
    using put_put [of n buf Adu a b] assms(1) by (simp flip: bind_res_assoc)
  ultimately show ?thesis
    using assms(1) by (simp add: implace_crc_impl_def crc_of_range_ok crc_bytes_def)
qed

lemma valid_crc_eq:
  assumes "n \<le> length buf"
  shows "valid_crc buf n = Inr (if 2 < n \<and> linux_frame_ok (take n buf) then Some (n - 2) else None)"
proof (cases "2 < n")
  case True
  have "crc_of_range buf (int n - 2) = Inr (modbus_rtu_calc_crc (Some (take (n - 2) buf)))"
    using crc_of_range_ok [of "n - 2" buf] assms True by (simp add: of_nat_diff)
  moreover have "load Adu buf (n - 2) = Inr (take n buf ! (n - 2))" "load Adu buf (n - 1) = Inr (take n buf ! (n - 1))"
    using assms True by (simp_all add: load_ok)
  moreover have "linux_frame_ok (take n buf) \<longleftrightarrow>
      crc_bytes (take (n - 2) buf) = [take n buf ! (n - 2), take n buf ! (n - 1)]"
    using assms True by (simp add: crc_frame_ok_def min_def crc_word_iff)
  ultimately show ?thesis
    using True by (auto simp: valid_crc_def valid_crc_impl_def crc_bytes_def)
next
  case False
  then show ?thesis by (simp add: valid_crc_def valid_crc_impl_def)
qed

section \<open>Requests\<close>

lemma overwrite_0: "overwrite buf 0 vs = vs @ drop (length vs) buf"
  by (simp add: overwrite_def)

lemma overwrite_0_append:
  "length us + length vs \<le> length buf \<Longrightarrow>
   overwrite (overwrite buf 0 us) (length us) vs = overwrite buf 0 (us @ vs)"
  using overwrite_overwrite [of 0 us vs buf] by simp

lemma implace_struct:
  assumes "length body < 256"
  shows "implace_crc (body @ [0, 0]) (length body + 2) = Inr (body @ crc_bytes body, Some (length body + 2))"
  using implace_crc_impl_eq [of "length body" "body @ [0, 0]" "length body + 2"] assms
  by (simp add: implace_crc_def overwrite_def crc_bytes_def)

lemma send_struct_eq:
  assumes "length body + 2 \<le> length buf" and "length body < 256"
  shows "send_struct (body @ [0, 0]) (Some buf) =
    Inr (Some (overwrite buf 0 (body @ crc_bytes body)), Some (length body + 2))"
  using implace_struct [OF assms(2)] assms(1) put_all_ok [of 0 "body @ crc_bytes body" buf Dst]
  by (simp add: send_struct_def)

lemma finish_in_place_eq:
  assumes "length body + 2 \<le> length buf" and "length body < 65536"
  shows "finish_in_place max_size (overwrite buf 0 body, length body) =
    Inr (if max_size < length body + 2 then (Some (overwrite buf 0 body), None)
         else (Some (overwrite buf 0 (body @ crc_bytes body)), Some (length body + 2)))"
proof -
  have "take (length body) (overwrite buf 0 body) = body"
    by (simp add: overwrite_0)
  moreover have "length (overwrite buf 0 body) = length buf" using assms(1) by simp
  ultimately show ?thesis
    using implace_crc_impl_eq [of "length body" "overwrite buf 0 body" max_size] assms
      overwrite_0_append [of body "crc_bytes body" buf]
    by (simp add: finish_in_place_def)
qed

lemma struct_bytes [simp]:
  "mem_access_bytes \<lparr>acc_addr = a, acc_fcode = f, acc_mem_addr = word_to_modbus_rtu_data16 w,
     acc_count = word_to_modbus_rtu_data16 n, acc_crc = no_crc\<rparr> = (a # f # be16 w @ be16 n) @ [0, 0]"
  "wr_register_bytes \<lparr>wreg_addr = a, wreg_fcode = f, wreg_mem_addr = word_to_modbus_rtu_data16 w,
     wreg_data = word_to_modbus_rtu_data16 n, wreg_crc = no_crc\<rparr> = (a # f # be16 w @ be16 n) @ [0, 0]"
  "wr_registers_header_bytes \<lparr>wregs_addr = a, wregs_fcode = f, wregs_mem_addr = word_to_modbus_rtu_data16 w,
     wregs_count = word_to_modbus_rtu_data16 n, wregs_byte_count = b\<rparr> = a # f # be16 w @ be16 n @ [b]"
  "bytes_header_bytes \<lparr>bytes_addr = a, bytes_fcode = f, bytes_mem_addr = word_to_modbus_rtu_data16 w,
     bytes_count = c\<rparr> = a # f # be16 w @ [c]"
  "bytes_frame_bytes \<lparr>bytes_addr = a, bytes_fcode = f, bytes_mem_addr = word_to_modbus_rtu_data16 w,
     bytes_count = c, bytes_crc = no_crc\<rparr> = (a # f # be16 w @ [c]) @ [0, 0]"
  by (simp_all add: mem_access_bytes_def wr_register_bytes_def wr_registers_header_bytes_def
      bytes_header_bytes_def bytes_frame_bytes_def word_to_modbus_rtu_data16_def be16_def)

text \<open>
  The builder of \<open>master.c\<close> for a request \<open>q\<close> of the memory handler, and the limits it checks.
  This is a specification, to speak of the five builders at once: for a function that the handler does not
  know there is no builder, and the last case stands for that. The two builders for coils are not among them.
\<close>

fun master_request :: "u8 \<Rightarrow> request \<Rightarrow> u8 list option \<Rightarrow> nat \<Rightarrow> request_out res" where
  "master_request slave (Rd_registers a n) =
     make_request_rd_holding_registers slave (word_to_modbus_rtu_data16 a) (word_to_modbus_rtu_data16 n)"
| "master_request slave (Wr_register a w) =
     make_request_wr_register slave (word_to_modbus_rtu_data16 a) (word_to_modbus_rtu_data16 w)"
| "master_request slave (Wr_registers a ws) =
     make_request_wr_registers slave (word_to_modbus_rtu_data16 a)
       (Some (map word_to_modbus_rtu_data16 ws)) (word_to_modbus_rtu_data16 (word_of_nat (length ws)))"
| "master_request slave (Rd_bytes a n) = make_request_rd_bytes slave (word_to_modbus_rtu_data16 a) n"
| "master_request slave (Wr_bytes a bs) =
     make_request_wr_bytes slave (word_to_modbus_rtu_data16 a) (Some bs) (word_of_nat (length bs))"
| "master_request slave (Unsupported f body) = (\<lambda>dst max_size. Inr (dst, None))"

fun within_limits :: "request \<Rightarrow> bool" where
  "within_limits (Rd_registers a n) = (n \<le> 125)"
| "within_limits (Wr_register a w) = True"
| "within_limits (Wr_registers a ws) = (length ws \<le> 123)"
| "within_limits (Rd_bytes a n) = (n \<le> 249)"
| "within_limits (Wr_bytes a bs) = (length bs \<le> 249)"
| "within_limits (Unsupported f body) = False"

lemma be16_data16: "data16_bytes (word_to_modbus_rtu_data16 w) = be16 w"
  by (simp add: word_to_modbus_rtu_data16_def be16_def)

lemma length_concat_be16: "length (concat (map be16 ws)) = 2 * length ws"
  by (induction ws) simp_all

text \<open>Header, then data, then the CRC: the shape of the two requests that carry data.\<close>

lemma header_then_data:
  assumes "length head + length data + 2 \<le> max_size" and "max_size \<le> length buf"
    and "length head + length data < 256"
  shows "bind_res (put_all Dst (buf, 0) head) (\<lambda>c.
      bind_res (memcpy Dst c Data data 0 (length data)) (finish_in_place max_size)) =
    Inr (Some (overwrite buf 0 (head @ data @ crc_bytes (head @ data))), Some (length head + length data + 2))"
proof -
  have "memcpy Dst (overwrite buf 0 head, length head) Data data 0 (length data)
      = Inr (overwrite buf 0 (head @ data), length (head @ data))"
    using assms overwrite_0_append [of head data buf] by (simp add: memcpy_ok)
  then show ?thesis
    using assms finish_in_place_eq [of "head @ data" buf max_size] put_all_ok [of 0 head buf Dst]
    by simp
qed

lemma send_request:
  assumes "length pdu + 3 \<le> length buf" and "length pdu < 255"
  shows "send_struct ((a # pdu) @ [0, 0]) (Some buf) = Inr (Some (overwrite buf 0 (adu a pdu)), Some (length pdu + 3))"
  using send_struct_eq [of "a # pdu" buf] assms by (simp add: adu_def)

definition request_sent :: "u8 \<Rightarrow> request \<Rightarrow> u8 list \<Rightarrow> nat \<Rightarrow> request_out" where
  "request_sent slave q buf max_size =
     (if within_limits q \<and> length (request_pdu q) + 3 \<le> max_size
      then (Some (overwrite buf 0 (adu slave (request_pdu q))), Some (length (request_pdu q) + 3))
      else (Some buf, None))"

lemma master_request_rd_registers:
  assumes "max_size \<le> length buf"
  shows "master_request slave (Rd_registers a n) (Some buf) max_size = Inr (request_sent slave (Rd_registers a n) buf max_size)"
  using assms send_request [of "request_pdu (Rd_registers a n)" buf slave]
  by (auto simp: make_request_rd_holding_registers_def request_sent_def request_pdu_def not_less)

lemma master_request_wr_register:
  assumes "max_size \<le> length buf"
  shows "master_request slave (Wr_register a w) (Some buf) max_size = Inr (request_sent slave (Wr_register a w) buf max_size)"
  using assms send_request [of "request_pdu (Wr_register a w)" buf slave]
  by (auto simp: make_request_wr_register_def request_sent_def request_pdu_def not_less)

lemma master_request_rd_bytes:
  assumes "max_size \<le> length buf"
  shows "master_request slave (Rd_bytes a n) (Some buf) max_size = Inr (request_sent slave (Rd_bytes a n) buf max_size)"
  using assms send_request [of "request_pdu (Rd_bytes a n)" buf slave]
  by (auto simp: make_request_rd_bytes_def request_sent_def request_pdu_def not_less)

lemma master_request_wr_bytes:
  assumes "max_size \<le> length buf" and "length bs < 256"
  shows "master_request slave (Wr_bytes a bs) (Some buf) max_size = Inr (request_sent slave (Wr_bytes a bs) buf max_size)"
proof -
  have n: "unat (word_of_nat (length bs) :: u8) = length bs"
    using assms(2) by (simp add: unsigned_of_nat take_bit_eq_mod)
  then have lim: "249 < (word_of_nat (length bs) :: u8) \<longleftrightarrow> 249 < length bs"
    by (simp add: word_less_nat_alt)
  show ?thesis
  proof (cases "length bs \<le> 249 \<and> length bs + 7 \<le> max_size")
    case True
    with header_then_data [of "slave # FCODE_WR_BYTES # be16 a @ [word_of_nat (length bs)]" bs max_size buf] assms(1)
    show ?thesis
      by (simp add: make_request_wr_bytes_def lim n request_sent_def request_pdu_def adu_def add.commute)
  next
    case False
    then show ?thesis
      by (auto simp: make_request_wr_bytes_def lim n request_sent_def request_pdu_def)
  qed
qed

lemma master_request_wr_registers:
  assumes "max_size \<le> length buf" and "length ws < 128"
  shows "master_request slave (Wr_registers a ws) (Some buf) max_size = Inr (request_sent slave (Wr_registers a ws) buf max_size)"
proof -
  let ?n = "word_of_nat (length ws) :: u16"
  have n: "unat ?n = length ws"
    using assms(2) by (simp add: unsigned_of_nat take_bit_eq_mod)
  then have lim: "0x7B < ?n \<longleftrightarrow> 123 < length ws"
    by (simp add: word_less_nat_alt)
  have bc: "ucast (push_bit 1 ?n) = (word_of_nat (2 * length ws) :: u8)"
  proof -
    have "push_bit 1 ?n = word_of_nat (2 * length ws)" by (simp add: push_bit_eq_mult mult.commute)
    moreover have "take_bit 16 (2 * length ws) = 2 * length ws"
      using assms(2) by (simp add: take_bit_eq_mod)
    ultimately show ?thesis by (simp add: unsigned_of_nat del: of_nat_mult)
  qed
  have data: "concat (map data16_bytes (map word_to_modbus_rtu_data16 ws)) = concat (map be16 ws)"
    by (simp add: comp_def be16_data16)
  show ?thesis
  proof (cases "length ws \<le> 123 \<and> 2 * length ws + 9 \<le> max_size")
    case True
    let ?head = "slave # FCODE_WR_REGISTERS # be16 a @ be16 ?n @ [word_of_nat (2 * length ws)]"
    have c: "(123 < length ws) = False" "(max_size < 7 + length ws * 2 + 2) = False"
        "length (concat (map be16 ws)) = length ws * 2"
      using True by (simp_all add: length_concat_be16)
    have "bind_res (put_all Dst (buf, 0) ?head) (\<lambda>c. bind_res (memcpy Dst c Data (concat (map be16 ws)) 0
        (length ws * 2)) (finish_in_place max_size)) =
      Inr (Some (overwrite buf 0 (adu slave (request_pdu (Wr_registers a ws)))),
        Some (length (request_pdu (Wr_registers a ws)) + 3))"
      using header_then_data [of ?head "concat (map be16 ws)" max_size buf] True assms(1)
      unfolding c(3) by (simp add: request_pdu_def adu_def length_concat_be16 mult.commute)
    then have "master_request slave (Wr_registers a ws) (Some buf) max_size =
      Inr (Some (overwrite buf 0 (adu slave (request_pdu (Wr_registers a ws)))),
        Some (length (request_pdu (Wr_registers a ws)) + 3))"
      by (simp only: master_request.simps make_request_wr_registers_def prod.case option.case Let_def
          DATA16_TO_WORD_of_word lim n bc data struct_bytes c(1,2) if_False)
    then show ?thesis
      using True by (simp add: request_sent_def request_pdu_def length_concat_be16 del: master_request.simps)
  next
    case False
    then show ?thesis
      by (auto simp: make_request_wr_registers_def lim n request_sent_def request_pdu_def length_concat_be16)
  qed
qed

lemma master_request_eq:
  assumes "request_wf q" and "max_size \<le> length buf"
  shows "master_request slave q (Some buf) max_size = Inr (request_sent slave q buf max_size)"
  using assms master_request_rd_registers master_request_wr_register master_request_rd_bytes
    master_request_wr_bytes master_request_wr_registers
  by (cases q) (simp_all add: request_sent_def)

section \<open>Replies\<close>

lemma if_valid_eq:
  "n \<le> length buf \<Longrightarrow> if_valid buf n r = Inr (if 2 < n \<and> linux_frame_ok (take n buf) then Some r else None)"
  by (simp add: if_valid_def valid_crc_eq)

lemma if_valid_adu:
  "n = length pdu + 3 \<Longrightarrow> if_valid (adu a pdu) n r = Inr (Some r)"
  by (simp add: if_valid_eq crc_frame_ok_adu)

lemma find_ecode_eq:
  "n \<le> length buf \<Longrightarrow> find_ecode buf n = Inr (if n = 5 \<and> linux_frame_ok (take n buf) then Some 2 else None)"
  by (auto simp: find_ecode_def valid_crc_eq)

text \<open>The bytes of a frame, by position.\<close>

lemma adu_nth:
  "adu a pdu ! 0 = a" "i < length pdu \<Longrightarrow> adu a pdu ! Suc i = pdu ! i"
  "adu a pdu ! (length pdu + 1) = crc_low (modbus_rtu_calc_crc (Some (a # pdu)))"
  "adu a pdu ! (length pdu + 2) = crc_high (modbus_rtu_calc_crc (Some (a # pdu)))"
  by (simp_all add: adu_def crc_bytes_def nth_append)

text \<open>A good frame is the address, what follows it up to the CRC, and the CRC of both.\<close>

lemma frame_is_adu:
  assumes "n \<le> length buf" and "2 < n" and "linux_frame_ok (take n buf)"
  shows "take n buf = adu (buf ! 0) (take (n - 3) (drop 1 buf))"
proof -
  have "crc_bytes (take (n - 2) buf) = drop (n - 2) (take n buf)"
    using crc_frame_ok_split [of "take n buf"] assms by (simp add: min.absorb1 min.absorb2)
  then have "take n buf = take (n - 2) buf @ crc_bytes (take (n - 2) buf)"
    using append_take_drop_id [of "n - 2" "take n buf"] assms(1,2) by (simp add: min.absorb1)
  moreover have "take (n - 2) buf = buf ! 0 # take (n - 3) (drop 1 buf)"
  proof -
    obtain b bs where buf: "buf = b # bs" using assms(1,2) by (cases buf) auto
    have "n - 2 = Suc (n - 3)" using assms(2) by simp
    then show ?thesis by (simp add: buf)
  qed
  ultimately show ?thesis by (simp add: adu_def)
qed

text \<open>When the parsers accept what a buffer starts with.\<close>

lemma parse_rd_bytes_accepts:
  assumes "n \<le> length buf" and "7 \<le> n" and "n = 7 + unat (buf ! 4)" and "linux_frame_ok (take n buf)"
  shows "\<exists>r. parse_reply_rd_bytes buf n = Inr (Some r)"
  using assms by (simp add: parse_reply_rd_bytes_def load_ok if_valid_eq)

lemma parse_rd_registers_accepts:
  assumes "n \<le> length buf" and "5 \<le> n" and "n = 5 + unat (buf ! 2)" and "linux_frame_ok (take n buf)"
  shows "\<exists>r. parse_reply_rd_holding_registers buf n = Inr (Some r)"
  using assms by (simp add: parse_reply_rd_holding_registers_def load_ok if_valid_eq)

lemma parse_fixed_accepts:
  "linux_frame_ok f \<Longrightarrow> length f = 7 \<Longrightarrow> \<exists>r. parse_reply_wr_bytes f 7 = Inr (Some r)"
  "linux_frame_ok f \<Longrightarrow> length f = 8 \<Longrightarrow> \<exists>r. parse_reply_wr_registers f 8 = Inr (Some r)"
  by (simp_all add: parse_reply_wr_bytes_def parse_reply_wr_registers_def if_valid_eq)

end
