(* ===== verification/Master_Properties.thy ===== *)
theory Master_Properties
  imports Master_Correct
begin

text \<open>
  The properties of \<open>master.c\<close>: requests are the frames a slave understands, replies are read
  back, damaged frames are refused, and what the functions do not check.
\<close>

text \<open>
  C15: \<open>valid_crc\<close> accepts what \<open>implace_crc\<close> made of any buffer of more than two bytes, and
  \<open>implace_crc\<close> changes the last two bytes of the frame only.
\<close>

theorem implace_crc_is_valid:
  assumes "2 < n" and "n \<le> length buf" and "n < 2 ^ 64"
  shows "\<exists>buf'. implace_crc buf n = Inr (buf', Some n) \<and> valid_crc buf' n = Inr (Some (n - 2)) \<and>
    length buf' = length buf \<and> take (n - 2) buf' = take (n - 2) buf \<and> drop n buf' = drop n buf"
proof -
  obtain k where n: "n = k + 2" using assms(1) by (metis le_add_diff_inverse2 less_imp_le_nat)
  let ?buf = "overwrite buf k (crc_bytes (take k buf))"
  have run: "implace_crc buf n = Inr (?buf, Some n)"
    using implace_crc_impl_eq [of k buf n] assms by (simp add: implace_crc_def n)
  have "take n ?buf = take k buf @ crc_bytes (take k buf)"
    using take_overwrite_end [of k "crc_bytes (take k buf)" buf] assms by (simp add: n)
  then have "linux_frame_ok (take n ?buf)" by (simp add: crc_frame_ok_crc_bytes)
  then have "valid_crc ?buf n = Inr (Some (n - 2))"
    using valid_crc_eq [of n ?buf] assms by (simp add: n)
  with run show ?thesis using assms by (simp add: overwrite_def n)
qed

theorem implace_crc_is_valid_witness:
  "\<exists>buf'. implace_crc [7, 1, 0, 0] 4 = Inr (buf', Some 4) \<and> valid_crc buf' 4 = Inr (Some 2)"
  using implace_crc_is_valid [of 4 "[7, 1, 0, 0]"] by auto

text \<open>
  C9: each of the five builders of a request that the memory handler knows (bytes, registers and one
  register; those of coils are in \<open>coil_requests\<close>) writes exactly the frame of that request at the start of
  \<open>dst\<close> and returns its end, when the count is within its limit and \<open>max_size\<close> is enough;
  otherwise it returns NULL and writes nothing. A count of 0 is within the limits.
\<close>

theorem requests_are_frames:
  assumes "request_wf q" and "max_size \<le> length buf"
  shows "master_request slave q (Some buf) max_size =
    Inr (if within_limits q \<and> length (request_pdu q) + 3 \<le> max_size
         then (Some (overwrite buf 0 (adu slave (request_pdu q))), Some (length (request_pdu q) + 3))
         else (Some buf, None))"
  using master_request_eq [OF assms] by (simp add: request_sent_def)

theorem requests_are_frames_witness:
  "master_request 7 (Rd_bytes 0x1000 0) (Some (replicate 8 0)) 8 =
     Inr (Some (overwrite (replicate 8 0) 0 (adu 7 [FCODE_RD_BYTES, 0x10, 0, 0])), Some 7)"
  using requests_are_frames [of "Rd_bytes 0x1000 0" 8 "replicate 8 0" 7]
  by (simp add: request_pdu_def be16_def HIGH_BYTE_def LOW_BYTE_def del: master_request.simps)

text \<open>
  The builders of coil requests refuse what their checks name and otherwise write the frame
  of the request; with room for the request and not for its CRC they return NULL after they have
  written the request.
\<close>

lemma coil_requests:
  assumes "8 \<le> length buf" and "6 \<le> max_size" and "max_size \<le> length buf"
  shows "make_request_rd_coils slave (word_to_modbus_rtu_data16 a) count (Some buf) max_size =
      Inr (if 125 < count then (Some buf, None)
           else if max_size < 8 then (Some (overwrite buf 0 (slave # FCODE_RD_COILS # be16 a @ [0, count])), None)
           else (Some (overwrite buf 0 (adu slave (FCODE_RD_COILS # be16 a @ [0, count]))), Some 8)) \<and>
    make_request_wr_coil slave (word_to_modbus_rtu_data16 a) data (Some buf) max_size =
      Inr (if data \<notin> {0, 0xFF} then (Some buf, None)
           else if max_size < 8 then (Some (overwrite buf 0 (slave # FCODE_WR_COIL # be16 a @ [data, 0])), None)
           else (Some (overwrite buf 0 (adu slave (FCODE_WR_COIL # be16 a @ [data, 0]))), Some 8))"
proof -
  have step: "bind_res (put_all Dst (buf, 0) (slave # pdu)) (finish_in_place max_size) =
      Inr (if max_size < 8 then (Some (overwrite buf 0 (slave # pdu)), None)
           else (Some (overwrite buf 0 (adu slave pdu)), Some 8))" if "length pdu = 5" for pdu
    using put_all_ok [of 0 "slave # pdu" buf Dst] finish_in_place_eq [of "slave # pdu" buf max_size] that assms(1)
    by (simp add: adu_def)
  have req: "[slave, f, d16_high (word_to_modbus_rtu_data16 a), d16_low (word_to_modbus_rtu_data16 a), x, y]
      = slave # f # be16 a @ [x, y]" for f x y
    by (simp add: be16_def word_to_modbus_rtu_data16_def)
  have "length (slave # f # be16 a @ [x, y]) = 6" for f x y by simp
  then show ?thesis
    using assms(2) step [of "FCODE_RD_COILS # be16 a @ [0, count]"] step [of "FCODE_WR_COIL # be16 a @ [data, 0]"]
    by (simp add: make_request_rd_coils_def make_request_wr_coil_def req Let_def del: put_all.simps)
qed

text \<open>
  \<open>make_request_wr_register\<close> is the one builder that does not test \<open>dst\<close>: given NULL and
  enough room it stores through the null pointer, where the others return NULL.
\<close>

lemma wr_register_null:
  assumes "8 \<le> max_size"
  shows "make_request_wr_register slave a data None max_size = Inl (NullDeref Dst) \<and>
    make_request_rd_bytes slave a 1 None max_size = Inr (None, None) \<and>
    make_request_rd_holding_registers slave a data None max_size = Inr (None, None)"
proof -
  let ?req = "wr_register_bytes \<lparr>wreg_addr = slave, wreg_fcode = FCODE_WR_REGISTER, wreg_mem_addr = a,
    wreg_data = data, wreg_crc = no_crc\<rparr>"
  have len: "length ?req = 8" by (simp add: wr_register_bytes_def)
  then have "implace_crc ?req 8 = Inr (overwrite ?req 6 (crc_bytes (take 6 ?req)), Some 8)"
    using implace_crc_impl_eq [of 6 ?req 8] by (simp add: implace_crc_def)
  then show ?thesis
    using assms len
    by (simp add: make_request_wr_register_def send_struct_def make_request_rd_bytes_def
        make_request_rd_holding_registers_def Let_def)
qed

lemma wr_register_null_witness:
  "make_request_wr_register 7 (word_to_modbus_rtu_data16 0) (word_to_modbus_rtu_data16 5) None 256 = Inl (NullDeref Dst)"
  using wr_register_null [of 256 7 "word_to_modbus_rtu_data16 0" "word_to_modbus_rtu_data16 5"] by simp

section \<open>Replies\<close>

lemma data16_at_be16: "data16_at (pre @ be16 w @ post) (length pre) = word_to_modbus_rtu_data16 w"
  by (simp add: data16_at_def be16_def word_to_modbus_rtu_data16_def nth_append)

lemma crc_at_end: "n = length pdu + 1 \<Longrightarrow> crc_at (adu a pdu) n = modbus_rtu_calc_crc (Some (a # pdu))"
  using adu_nth(3,4) [of a pdu] by (simp add: crc_at_def)

text \<open>The fields of a frame.\<close>

lemma adu_fields:
  "adu a (f # r) ! 0 = a" "adu a (f # r) ! Suc 0 = f" "adu a (f # b # r) ! 2 = b" "adu a (f # be16 x @ b # r) ! 4 = b"
  "data16_at (adu a (f # be16 x @ r)) 2 = word_to_modbus_rtu_data16 x"
  "data16_at (adu a (f # be16 x @ be16 y)) 4 = word_to_modbus_rtu_data16 y"
  "load Adu (adu a (f # b # r)) 2 = Inr b" "load Adu (adu a (f # be16 x @ b # r)) 4 = Inr b"
  "take (length bs) (drop 5 (adu a (f # be16 x @ b # bs))) = bs"
  using data16_at_be16 [of "[a, f]" x "r @ crc_bytes (a # f # be16 x @ r)"]
    data16_at_be16 [of "a # f # be16 x" y "crc_bytes (a # f # be16 x @ be16 y)"]
  by (simp_all add: adu_def be16_def load_def numeral_2_eq_2 eval_nat_numeral)

text \<open>
  C16: the parsers read back every reply of a slave: its address and function code, the
  address, count, value or bytes it holds, and its CRC.
\<close>

theorem replies_are_parsed:
  assumes "length vs \<le> 125" and "length bs \<le> 249" and "n \<le> 123" and "k \<le> 249"
  shows "parse_reply_rd_holding_registers (adu a (reply_pdu (Registers vs))) (5 + 2 * length vs) =
      Inr (Some \<lparr>rhr_addr = a, rhr_fcode = FCODE_RD_HOLDING_REGISTERS, rhr_byte_count = word_of_nat (2 * length vs),
        rhr_data = concat (map (\<lambda>v. [0, v]) vs)\<rparr>) \<and>
    parse_reply_wr_register (adu a (reply_pdu (Register_written x w))) 8 =
      Inr (Some \<lparr>wreg_addr = a, wreg_fcode = FCODE_WR_REGISTER, wreg_mem_addr = word_to_modbus_rtu_data16 x,
        wreg_data = word_to_modbus_rtu_data16 w,
        wreg_crc = modbus_rtu_calc_crc (Some (a # reply_pdu (Register_written x w)))\<rparr>) \<and>
    parse_reply_wr_registers (adu a (reply_pdu (Registers_written x n))) 8 =
      Inr (Some \<lparr>wregs_rep_addr = a, wregs_rep_fcode = FCODE_WR_REGISTERS,
        wregs_rep_mem_addr = word_to_modbus_rtu_data16 x, wregs_rep_count = word_to_modbus_rtu_data16 (word_of_nat n),
        wregs_rep_crc = modbus_rtu_calc_crc (Some (a # reply_pdu (Registers_written x n)))\<rparr>) \<and>
    parse_reply_wr_bytes (adu a (reply_pdu (Bytes_written x k))) 7 =
      Inr (Some \<lparr>bytes_addr = a, bytes_fcode = FCODE_WR_BYTES, bytes_mem_addr = word_to_modbus_rtu_data16 x,
        bytes_count = word_of_nat k, bytes_crc = modbus_rtu_calc_crc (Some (a # reply_pdu (Bytes_written x k)))\<rparr>) \<and>
    parse_reply_rd_bytes (adu a (reply_pdu (Bytes_read x bs))) (7 + length bs) =
      Inr (Some \<lparr>rdb_header = \<lparr>bytes_addr = a, bytes_fcode = FCODE_RD_BYTES,
        bytes_mem_addr = word_to_modbus_rtu_data16 x, bytes_count = word_of_nat (length bs)\<rparr>, rdb_bytes = bs\<rparr>)"
proof (intro conjI)
  let ?data = "concat (map (\<lambda>v. [0, v]) vs)"
  have vs: "length ?data = 2 * length vs" by (induction vs) simp_all
  have len: "unat (word_of_nat (2 * length vs) :: u8) = 2 * length vs" "unat (word_of_nat (length bs) :: u8) = length bs"
    using assms(1,2) by (simp_all add: unsigned_of_nat take_bit_eq_mod del: of_nat_mult)
  have "take (2 * length vs) (drop 3 (adu a (f # b # ?data))) = ?data" for f b
    by (simp add: adu_def numeral_3_eq_3 vs)
  then show "parse_reply_rd_holding_registers (adu a (reply_pdu (Registers vs))) (5 + 2 * length vs) =
      Inr (Some \<lparr>rhr_addr = a, rhr_fcode = FCODE_RD_HOLDING_REGISTERS, rhr_byte_count = word_of_nat (2 * length vs),
        rhr_data = ?data\<rparr>)"
    by (simp add: parse_reply_rd_holding_registers_def adu_fields len if_valid_adu vs del: of_nat_mult)
qed (use assms in \<open>simp_all add: parse_reply_wr_register_def parse_reply_wr_registers_def parse_reply_wr_bytes_def
    parse_reply_rd_bytes_def if_valid_adu adu_fields crc_at_end unsigned_of_nat take_bit_eq_mod\<close>)

theorem replies_are_parsed_witness:
  "parse_reply_rd_bytes (adu 7 (reply_pdu (Bytes_read 0x1000 [5, 6]))) 9 =
      Inr (Some \<lparr>rdb_header = \<lparr>bytes_addr = 7, bytes_fcode = FCODE_RD_BYTES,
        bytes_mem_addr = word_to_modbus_rtu_data16 0x1000, bytes_count = 2\<rparr>, rdb_bytes = [5, 6]\<rparr>)"
  using replies_are_parsed [of "[]" "[5, 6]" 0 0 7 "0x1000" 0] by simp

text \<open>
  C17: a reply to \<open>rd_bytes\<close> is accepted only if the bytes received are exactly the frame of the
  fields that are read from it; nothing compares the address, the function code or the memory
  address with those of the request.
\<close>

theorem parsed_reply_is_frame:
  assumes "parse_reply_rd_bytes buf n = Inr (Some r)" and "n \<le> length buf"
  shows "take n buf = adu (bytes_addr (rdb_header r)) (bytes_fcode (rdb_header r) #
      be16 (DATA16_TO_WORD (bytes_mem_addr (rdb_header r))) @ bytes_count (rdb_header r) # rdb_bytes r) \<and>
    length (rdb_bytes r) = unat (bytes_count (rdb_header r))"
proof -
  have n: "7 \<le> n" using assms(1) by (auto simp: parse_reply_rd_bytes_def split: if_split_asm)
  then have ld: "load Adu buf 4 = Inr (buf ! 4)" using assms(2) by (simp add: load_def)
  have size: "n = 7 + unat (buf ! 4)" and ok: "linux_frame_ok (take n buf)"
    and r: "r = \<lparr>rdb_header = \<lparr>bytes_addr = buf ! 0, bytes_fcode = buf ! 1, bytes_mem_addr = data16_at buf 2,
      bytes_count = buf ! 4\<rparr>, rdb_bytes = take (unat (buf ! 4)) (drop 5 buf)\<rparr>"
    using assms n by (auto simp: parse_reply_rd_bytes_def ld if_valid_eq split: if_split_asm)
  have split: "drop (Suc 0) buf = buf ! 1 # buf ! 2 # buf ! 3 # buf ! 4 # drop 5 buf"
    using n assms(2) by (simp add: Cons_nth_drop_Suc numeral_eq_Suc)
  have "n - 3 = Suc (Suc (Suc (Suc (unat (buf ! 4)))))" using size by simp
  then have "take (n - 3) (drop 1 buf) = buf ! 1 # buf ! 2 # buf ! 3 # buf ! 4 # take (unat (buf ! 4)) (drop 5 buf)"
    by (simp add: split)
  moreover have "be16 (DATA16_TO_WORD (data16_at buf 2)) = [buf ! 2, buf ! 3]"
    by (simp add: be16_def DATA16_TO_WORD_def data16_at_def)
  ultimately show ?thesis
    using frame_is_adu [OF assms(2) _ ok] n size assms(2) by (simp add: r)
qed

theorem parsed_reply_is_frame_witness:
  "\<exists>r. parse_reply_rd_bytes (adu 9 [FCODE_RD_BYTES, 0, 1, 1, 0x55]) 8 = Inr (Some r) \<and> length (rdb_bytes r) = 1"
proof -
  have run: "parse_reply_rd_bytes (adu 9 [FCODE_RD_BYTES, 0, 1, 1, 0x55]) 8 =
      Inr (Some \<lparr>rdb_header = \<lparr>bytes_addr = 9, bytes_fcode = FCODE_RD_BYTES,
        bytes_mem_addr = \<lparr>d16_high = 0, d16_low = 1\<rparr>, bytes_count = 1\<rparr>, rdb_bytes = [0x55]\<rparr>)"
    by (simp add: parse_reply_rd_bytes_def if_valid_adu load_def data16_at_def)
      (simp add: adu_def)
  with parsed_reply_is_frame [OF run] show ?thesis by simp
qed

text \<open>
  C18: the frame of an exception is found by \<open>find_ecode\<close> and, its code not being 0, taken for a
  normal reply by none of the parsers.
\<close>

theorem exceptions_are_found:
  assumes "e \<noteq> 0"
  shows "find_ecode (adu a (reply_pdu (Exception f e))) 5 = Inr (Some 2) \<and>
    adu a (reply_pdu (Exception f e)) ! 2 = e \<and>
    parse_reply_rd_holding_registers (adu a (reply_pdu (Exception f e))) 5 = Inr None \<and>
    parse_reply_wr_register (adu a (reply_pdu (Exception f e))) 5 = Inr None \<and>
    parse_reply_wr_registers (adu a (reply_pdu (Exception f e))) 5 = Inr None \<and>
    parse_reply_wr_bytes (adu a (reply_pdu (Exception f e))) 5 = Inr None \<and>
    parse_reply_rd_bytes (adu a (reply_pdu (Exception f e))) 5 = Inr None"
proof -
  have "load Adu (adu a [f + 0x80, e]) 2 = Inr e" "adu a [f + 0x80, e] ! 2 = e"
    by (simp_all add: load_def adu_def)
  moreover have "unat e \<noteq> 0" using assms by (simp add: unat_eq_0)
  moreover have "take 5 (adu a [f + 0x80, e]) = adu a [f + 0x80, e]" by simp
  ultimately show ?thesis
    using crc_frame_ok_adu [of a "[f + 0x80, e]"]
    by (simp add: find_ecode_eq parse_reply_rd_holding_registers_def parse_reply_wr_register_def
        parse_reply_wr_registers_def parse_reply_wr_bytes_def parse_reply_rd_bytes_def)
qed

theorem exceptions_are_found_witness:
  "find_ecode (adu 7 (reply_pdu (Exception FCODE_RD_BYTES ECODE_ILLEGAL_DATA_ADDRESS))) 5 = Inr (Some 2)"
  using exceptions_are_found [of ECODE_ILLEGAL_DATA_ADDRESS 7 FCODE_RD_BYTES] by simp

lemma refused: "n \<le> length f \<Longrightarrow> \<not> linux_frame_ok (take n f) \<Longrightarrow> if_valid f n r = Inr None"
  by (simp add: if_valid_eq)

text \<open>
  C19: a frame of which two adjacent bytes arrived wrong, anywhere in it and in any way, is refused by
  \<open>valid_crc\<close>, by \<open>find_ecode\<close> and by each of the five parsers: they return NULL.
\<close>

theorem master_rejects_burst:
  assumes "adu a pdu = pre @ [x, y] @ post" and "(x, y) \<noteq> (x', y')"
    and "n = length pdu + 3"
  shows "valid_crc (pre @ [x', y'] @ post) n = Inr None \<and> find_ecode (pre @ [x', y'] @ post) n = Inr None \<and>
    parse_reply_rd_bytes (pre @ [x', y'] @ post) n = Inr None \<and>
    parse_reply_rd_holding_registers (pre @ [x', y'] @ post) n = Inr None \<and>
    parse_reply_wr_register (pre @ [x', y'] @ post) n = Inr None \<and>
    parse_reply_wr_registers (pre @ [x', y'] @ post) n = Inr None \<and>
    parse_reply_wr_bytes (pre @ [x', y'] @ post) n = Inr None"
proof -
  let ?f = "pre @ [x', y'] @ post"
  have len: "length ?f = n" using arg_cong [OF assms(1), of length] assms(3) by simp
  have "linux_frame_ok (pre @ [x, y] @ post)"
    using crc_frame_ok_adu [of a pdu] by (simp add: assms(1))
  from linux_crc.burst_detected [OF this assms(2)] have bad: "\<not> linux_frame_ok (take n ?f)" by (simp flip: len)
  obtain f where f: "f = ?f" by simp
  have n: "n \<le> length f" "\<not> linux_frame_ok (take n f)" using len bad by (simp_all only: f order_refl) blast
  have "parse_reply_rd_bytes f n = Inr None"
    using n(1) by (cases "7 \<le> n") (simp_all add: parse_reply_rd_bytes_def load_def refused [OF n])
  moreover have "parse_reply_rd_holding_registers f n = Inr None"
    using n(1) by (cases "5 \<le> n") (simp_all add: parse_reply_rd_holding_registers_def load_def refused [OF n])
  moreover have "valid_crc f n = Inr None" "find_ecode f n = Inr None" using n by (auto simp: valid_crc_eq find_ecode_eq)
  moreover have "parse_reply_wr_register f n = Inr None" "parse_reply_wr_registers f n = Inr None" "parse_reply_wr_bytes f n = Inr None"
    unfolding parse_reply_wr_register_def parse_reply_wr_registers_def parse_reply_wr_bytes_def refused [OF n] by simp_all
  ultimately show ?thesis unfolding f by blast
qed

theorem master_rejects_burst_witness:
  "valid_crc ([7] @ [0, 0] @ [5] @ crc_bytes [7, 0xC2, 0x80, 5]) 6 = Inr None"
proof -
  have "adu 7 [0xC2, 0x80, 5] = [7] @ [0xC2, 0x80] @ [5] @ crc_bytes [7, 0xC2, 0x80, 5]"
    by (simp add: adu_def)
  moreover have "(0xC2, 0x80) \<noteq> (0 :: u8, 0 :: u8)" by simp
  moreover have "6 = length [0xC2, 0x80, 5 :: u8] + 3" by simp
  ultimately show ?thesis by (rule master_rejects_burst [THEN conjunct1])
qed

end
