(* ===== verification/Linux_Master.thy ===== *)
theory Linux_Master
  imports Linux_Rtu Master
begin

text \<open>
  The master of the Linux build, \<open>linux/master_impl.c\<close>: a request on the line, the reply, and
  the data in it.

  The result of a function is the master, the caller's buffer where it has one, and the offset of the
  returned pointer in the caller's data, or \<open>None\<close> for NULL. The local buffers of the functions
  are not initialised in C; here they hold zeros, which nothing reads before the reply is there.
\<close>

record rtu_master_impl =
  m_dev :: os
  m_rate :: speed_t
  timeout_exec_ms :: int

definition write_impl :: "rtu_master_impl \<Rightarrow> u8 list \<Rightarrow> (rtu_master_impl \<times> bool) res" where
  "write_impl impl data =
     bind_res (calc_tmax_ms (m_rate impl) (length data)) (\<lambda>tmax_ms.
     bind_res (tty_write (m_dev impl) data tmax_ms False) (\<lambda>(w, cur, _).
     Inr (impl\<lparr>m_dev := w\<rparr>, cur = int (length data))))"

text \<open>
  The range that \<open>tty_read\<close> fills may be larger than the buffer; it is a fault when more bytes
  arrive than the buffer holds.
\<close>

definition read_impl :: "rtu_master_impl \<Rightarrow> u8 list \<Rightarrow> nat \<Rightarrow> (rtu_master_impl \<times> u8 list \<times> bool) res" where
  "read_impl impl buf sz =
     bind_res (calc_tmax_ms (m_rate impl) sz) (\<lambda>tmax_ms.
     bind_res (tty_read (m_dev impl) (take sz buf @ replicate (sz - length buf) 0)
       (tmax_ms + timeout_exec_ms impl) False) (\<lambda>(w, range, cur, _).
     if cur > int (length buf) then Inl (BadWrite Dst (int (length buf)))
     else Inr (impl\<lparr>m_dev := w\<rparr>, take (length buf) (range @ drop sz buf), cur = int sz)))"

text \<open>\<open>data\<close> is the caller's array of 16-bit fields, as bytes.\<close>

definition rtu_master_rd_holding_registers :: "rtu_master_impl \<Rightarrow> u8 \<Rightarrow> modbus_rtu_mem_addr \<Rightarrow> modbus_rtu_count
    \<Rightarrow> u8 list \<Rightarrow> (rtu_master_impl \<times> u8 list \<times> nat option) res" where
  "rtu_master_rd_holding_registers impl addr mem_addr count data =
     (let req = mem_access_bytes \<lparr>acc_addr = addr, acc_fcode = FCODE_RD_HOLDING_REGISTERS,
        acc_mem_addr = mem_addr, acc_count = count, acc_crc = no_crc\<rparr> in
      bind_res (implace_crc req (length req)) (\<lambda>(req, r).
      if r = None then Inr (impl, data, None)
      else bind_res (write_impl impl req) (\<lambda>(impl, ok).
      if \<not> ok then Inr (impl, data, None)
      else let data_size = unat (DATA16_TO_WORD count) * 2; expected_size = 3 + data_size + 2 in
      bind_res (read_impl impl (replicate ADU_CAPACITY 0) expected_size) (\<lambda>(impl, rx_buf, ok).
      if \<not> ok then Inr (impl, data, None)
      else bind_res (parse_reply_rd_holding_registers rx_buf expected_size) (\<lambda>rep.
      if rep = None then Inr (impl, data, None)
      else bind_res (memcpy Data (data, 0) Adu rx_buf 3 data_size) (\<lambda>(data, n). Inr (impl, data, Some n)))))))"

definition rtu_master_wr_registers :: "rtu_master_impl \<Rightarrow> u8 \<Rightarrow> modbus_rtu_mem_addr \<Rightarrow> modbus_rtu_count
    \<Rightarrow> modbus_rtu_data16 list option \<Rightarrow> (rtu_master_impl \<times> nat option) res" where
  "rtu_master_wr_registers impl addr mem_addr count data =
     bind_res (make_request_wr_registers addr mem_addr data count (Some (replicate ADU_CAPACITY 0)) ADU_CAPACITY)
       (\<lambda>(tx_buf, req_end).
     case req_end of None \<Rightarrow> Inr (impl, None) | Some n \<Rightarrow>
       bind_res (write_impl impl (take n (the tx_buf))) (\<lambda>(impl, ok).
       if \<not> ok then Inr (impl, None)
       else bind_res (read_impl impl (replicate 8 0) 8) (\<lambda>(impl, reply, ok).
       if \<not> ok then Inr (impl, None)
       else bind_res (parse_reply_wr_registers reply 8) (\<lambda>rep.
       if rep = None then Inr (impl, None)
       else Inr (impl, Some (unat (DATA16_TO_WORD count)))))))"

definition rtu_master_wr_bytes :: "rtu_master_impl \<Rightarrow> u8 \<Rightarrow> modbus_rtu_mem_addr \<Rightarrow> u8
    \<Rightarrow> u8 list option \<Rightarrow> (rtu_master_impl \<times> nat option) res" where
  "rtu_master_wr_bytes impl addr mem_addr count bytes =
     bind_res (make_request_wr_bytes addr mem_addr bytes count (Some (replicate ADU_CAPACITY 0)) ADU_CAPACITY)
       (\<lambda>(tx_buf, req_end).
     case req_end of None \<Rightarrow> Inr (impl, None) | Some n \<Rightarrow>
       bind_res (write_impl impl (take n (the tx_buf))) (\<lambda>(impl, ok).
       if \<not> ok then Inr (impl, None)
       else bind_res (read_impl impl (replicate 7 0) 7) (\<lambda>(impl, reply, ok).
       if \<not> ok then Inr (impl, None)
       else bind_res (parse_reply_wr_bytes reply 7) (\<lambda>rep.
       if rep = None then Inr (impl, None)
       else Inr (impl, Some (unat count))))))"

definition rtu_master_rd_bytes :: "rtu_master_impl \<Rightarrow> u8 \<Rightarrow> modbus_rtu_mem_addr \<Rightarrow> u8
    \<Rightarrow> u8 list \<Rightarrow> (rtu_master_impl \<times> u8 list \<times> nat option) res" where
  "rtu_master_rd_bytes impl addr mem_addr count bytes =
     (let req = bytes_frame_bytes \<lparr>bytes_addr = addr, bytes_fcode = FCODE_RD_BYTES,
        bytes_mem_addr = mem_addr, bytes_count = count, bytes_crc = no_crc\<rparr> in
      bind_res (implace_crc req (length req)) (\<lambda>(req, r).
      if r = None then Inr (impl, bytes, None)
      else bind_res (write_impl impl req) (\<lambda>(impl, ok).
      if \<not> ok then Inr (impl, bytes, None)
      else let expected_size = 5 + unat count + 2 in
      bind_res (read_impl impl (replicate ADU_CAPACITY 0) expected_size) (\<lambda>(impl, rx_buf, ok).
      if \<not> ok then Inr (impl, bytes, None)
      else bind_res (parse_reply_rd_bytes rx_buf expected_size) (\<lambda>rep.
      if rep = None then Inr (impl, bytes, None)
      else bind_res (memcpy Data (bytes, 0) Adu rx_buf 5 (unat count)) (\<lambda>(bytes, n).
           Inr (impl, bytes, Some n)))))))"

end
