(* ===== verification/Linux_Exchange.thy ===== *)
theory Linux_Exchange
  imports Linux_Master Master_Correct
begin

text \<open>
  Exchanges of the Linux master: a line that takes the request at once and then delivers a reply,
  and what the master makes of it.
\<close>

section \<open>A line that delivers everything at once\<close>

lemma store_from_ok:
  "j + length vs \<le> length buf \<Longrightarrow> store_from buf (int j) vs = Inr (overwrite buf j vs)"
proof (induction vs arbitrary: buf j)
  case (Cons v vs)
  then have "store_from (buf[j := v]) (int j + 1) vs = Inr (overwrite (buf[j := v]) (Suc j) vs)"
    using Cons.IH [of "Suc j" "buf[j := v]"] by (simp add: add.commute)
  then show ?case using Cons.prems by (simp add: store_ok overwrite_Cons)
qed simp

lemma tty_read_at_once:
  assumes "calls w = Poll_ret 1 True False # Read_ret bs # cs" and "length bs = length buf"
    and "buf \<noteq> []" and "0 \<le> timeout"
  shows "\<exists>w'. tty_read w buf timeout False = Inr (w', bs, int (length buf), False) \<and>
    wire w' = wire w \<and> calls w' = cs"
proof -
  let ?w = "snd (timestamp_us w)"
  let ?v = "snd (timestamp_us (?w\<lparr>calls := Read_ret bs # cs\<rparr>))"
  have "sys_poll ?w False False = Inr (?w\<lparr>calls := Read_ret bs # cs\<rparr>, 1, True, False)"
    using assms(1) by (simp add: sys_poll_def)
  moreover have "overwrite buf 0 bs = bs" using assms(2) by (simp add: overwrite_def)
  then have "tty_read_ready ?v buf 0 = Inr (?v\<lparr>calls := cs\<rparr>, bs, int (length buf))"
    using store_from_ok [of 0 bs buf] assms(2,3) by (simp add: tty_read_ready_def sys_read_def Let_def)
  ultimately show ?thesis
    using assms(2-4)
    by (simp add: tty_read_def Let_def split_beta tty_read_loop.simps [of _ _ 0]
        tty_read_loop.simps [of _ _ "int (length buf)"])
qed

lemma write_impl_at_once:
  assumes "m_rate i \<noteq> B0" and "calls (m_dev i) = Poll_ret 1 True False # Write_ret k # cs"
    and "length data \<le> k" and "data \<noteq> []"
  shows "\<exists>w. write_impl i data = Inr (i\<lparr>m_dev := w\<rparr>, True) \<and> wire w = wire (m_dev i) @ data \<and>
    calls w = cs \<and> clock w = stl (stl (clock (m_dev i)))"
proof -
  obtain t where "0 \<le> t" "calc_tmax_ms (m_rate i) (length data) = Inr t"
    using tmax_nonneg [OF assms(1)] by blast
  with tty_write_at_once [OF assms(2-4)] show ?thesis by (fastforce simp: write_impl_def)
qed

lemma read_impl_at_once:
  assumes "m_rate i \<noteq> B0" and "0 \<le> timeout_exec_ms i"
    and "calls (m_dev i) = Poll_ret 1 True False # Read_ret bs # cs"
    and "length bs = sz" and "0 < sz" and "sz \<le> length buf"
  shows "\<exists>w. read_impl i buf sz = Inr (i\<lparr>m_dev := w\<rparr>, bs @ drop sz buf, True) \<and>
    wire w = wire (m_dev i) \<and> calls w = cs"
proof -
  obtain t where t: "0 \<le> t" "calc_tmax_ms (m_rate i) sz = Inr t"
    using tmax_nonneg [OF assms(1)] by blast
  have "take sz buf \<noteq> []" "length bs = length (take sz buf)" using assms(4-6) by auto
  from tty_read_at_once [OF assms(3) this(2,1), of "t + timeout_exec_ms i"] t assms(2)
  obtain w where "tty_read (m_dev i) (take sz buf) (t + timeout_exec_ms i) False
      = Inr (w, bs, int sz, False)" "wire w = wire (m_dev i)" "calls w = cs"
    using assms(6) by auto
  then show ?thesis using t assms(4,6) by (intro exI [of _ w]) (simp add: read_impl_def)
qed

text \<open>The script of an exchange: the request goes out in one write, the reply comes in one read.\<close>

definition exchange :: "rtu_master_impl \<Rightarrow> u8 list \<Rightarrow> syscall list \<Rightarrow> bool" where
  "exchange i reply cs =
     (m_rate i \<noteq> B0 \<and> 0 \<le> timeout_exec_ms i \<and> calls (m_dev i) =
       [Poll_ret 1 True False, Write_ret 256, Poll_ret 1 True False, Read_ret reply] @ cs)"

lemma exchange_write:
  assumes "exchange i reply cs" and "data \<noteq> []" and "length data \<le> 256"
  shows "\<exists>w. write_impl i data = Inr (i\<lparr>m_dev := w\<rparr>, True) \<and> wire w = wire (m_dev i) @ data \<and>
    calls w = [Poll_ret 1 True False, Read_ret reply] @ cs"
  using write_impl_at_once [of i 256 "[Poll_ret 1 True False, Read_ret reply] @ cs" data] assms
  by (auto simp: exchange_def)

text \<open>A request and the reply that is read after it, for the four functions.\<close>

lemma exchange_run:
  assumes "exchange i reply cs" and "data \<noteq> []" and "length data \<le> 256"
    and "length reply = sz" and "0 < sz" and "sz \<le> length buf"
  shows "\<exists>v w. write_impl i data = Inr (i\<lparr>m_dev := v\<rparr>, True) \<and>
    read_impl (i\<lparr>m_dev := v\<rparr>) buf sz = Inr (i\<lparr>m_dev := w\<rparr>, reply @ drop sz buf, True) \<and>
    wire w = wire (m_dev i) @ data \<and> calls w = cs"
proof -
  from exchange_write [OF assms(1-3)] obtain v where
    v: "write_impl i data = Inr (i\<lparr>m_dev := v\<rparr>, True)" "wire v = wire (m_dev i) @ data"
      "calls v = [Poll_ret 1 True False, Read_ret reply] @ cs"
    by blast
  with read_impl_at_once [of "i\<lparr>m_dev := v\<rparr>" reply cs sz buf] assms obtain w where
    "read_impl (i\<lparr>m_dev := v\<rparr>) buf sz = Inr (i\<lparr>m_dev := w\<rparr>, reply @ drop sz buf, True)"
      "wire w = wire v" "calls w = cs"
    by (auto simp: exchange_def)
  with v show ?thesis by auto
qed

section \<open>The four functions\<close>

lemma rd_bytes_exchange:
  assumes ex: "exchange i (adu a (reply_pdu (Bytes_read x bs))) cs"
    and len: "length bs \<le> 249" "length bs \<le> length buf" and n: "unat n = length bs"
  shows "\<exists>w. rtu_master_rd_bytes i a (word_to_modbus_rtu_data16 y) n buf
      = Inr (i\<lparr>m_dev := w\<rparr>, overwrite buf 0 bs, Some (length bs)) \<and>
    wire w = wire (m_dev i) @ adu a (request_pdu (Rd_bytes y n)) \<and> calls w = cs"
proof -
  let ?reply = "adu a (reply_pdu (Bytes_read x bs))" and ?req = "a # FCODE_RD_BYTES # be16 y @ [n]"
    and ?sz = "5 + length bs + 2"
  let ?rx = "?reply @ drop ?sz (replicate ADU_CAPACITY 0)"
  have req: "?req @ crc_bytes ?req = adu a (request_pdu (Rd_bytes y n))"
    by (simp add: adu_def request_pdu_def)
  have shape: "?req @ crc_bytes ?req \<noteq> []" "length (?req @ crc_bytes ?req) \<le> 256" "length ?reply = ?sz"
      "0 < ?sz" "?sz \<le> length (replicate ADU_CAPACITY (0 :: u8))"
    using len(1) by (simp_all add: ADU_CAPACITY_def)
  from exchange_run [OF ex shape] obtain v w where
    v: "write_impl i (?req @ crc_bytes ?req) = Inr (i\<lparr>m_dev := v\<rparr>, True)"
      "read_impl (i\<lparr>m_dev := v\<rparr>) (replicate ADU_CAPACITY 0) ?sz = Inr (i\<lparr>m_dev := w\<rparr>, ?rx, True)"
    and w: "wire w = wire (m_dev i) @ (?req @ crc_bytes ?req)" "calls w = cs"
    by blast
  have frame: "take ?sz ?rx = ?reply" "length ?rx = 256" using len(1) by (simp_all add: ADU_CAPACITY_def)
  have "?rx ! 4 = n" using n by (simp add: adu_def be16_def flip: n)
  then obtain r where "parse_reply_rd_bytes ?rx ?sz = Inr (Some r)"
    using parse_rd_bytes_accepts [of ?sz ?rx] frame n len(1) crc_frame_ok_adu by auto
  moreover have "take (length bs) (drop 5 ?rx) = bs" by (simp add: adu_def be16_def)
  then have "memcpy Data (buf, 0) Adu ?rx 5 (length bs) = Inr (overwrite buf 0 bs, length bs)"
    using len frame(2) by (simp add: memcpy_ok)
  ultimately have "rtu_master_rd_bytes i a (word_to_modbus_rtu_data16 y) n buf
      = Inr (i\<lparr>m_dev := w\<rparr>, overwrite buf 0 bs, Some (length bs))"
    using v implace_struct [of ?req] by (simp add: rtu_master_rd_bytes_def Let_def n)
  then show ?thesis using w req by auto
qed

lemma length_registers: "length (concat (map (\<lambda>v. [0, v]) vs)) = 2 * length vs" for vs :: "u8 list"
  by (induction vs) simp_all

lemma rd_registers_exchange:
  assumes ex: "exchange i (adu a (reply_pdu (Registers vs))) cs"
    and len: "length vs \<le> 125" "2 * length vs \<le> length buf" and n: "unat n = length vs"
  shows "\<exists>w. rtu_master_rd_holding_registers i a (word_to_modbus_rtu_data16 y) (word_to_modbus_rtu_data16 n) buf
      = Inr (i\<lparr>m_dev := w\<rparr>, overwrite buf 0 (concat (map (\<lambda>v. [0, v]) vs)), Some (2 * length vs)) \<and>
    wire w = wire (m_dev i) @ adu a (request_pdu (Rd_registers y n)) \<and> calls w = cs"
proof -
  let ?reply = "adu a (reply_pdu (Registers vs))" and ?req = "a # FCODE_RD_HOLDING_REGISTERS # be16 y @ be16 n"
    and ?sz = "3 + length vs * 2 + 2" and ?data = "concat (map (\<lambda>v. [0, v]) vs)"
  let ?rx = "?reply @ drop ?sz (replicate ADU_CAPACITY 0)"
  have req: "?req @ crc_bytes ?req = adu a (request_pdu (Rd_registers y n))"
    by (simp add: adu_def request_pdu_def)
  have shape: "?req @ crc_bytes ?req \<noteq> []" "length (?req @ crc_bytes ?req) \<le> 256" "length ?reply = ?sz"
      "0 < ?sz" "?sz \<le> length (replicate ADU_CAPACITY (0 :: u8))"
    using len(1) by (simp_all add: ADU_CAPACITY_def length_registers)
  from exchange_run [OF ex shape] obtain v w where
    v: "write_impl i (?req @ crc_bytes ?req) = Inr (i\<lparr>m_dev := v\<rparr>, True)"
      "read_impl (i\<lparr>m_dev := v\<rparr>) (replicate ADU_CAPACITY 0) ?sz = Inr (i\<lparr>m_dev := w\<rparr>, ?rx, True)"
    and w: "wire w = wire (m_dev i) @ (?req @ crc_bytes ?req)" "calls w = cs"
    by blast
  have frame: "take ?sz ?rx = ?reply" "length ?rx = 256"
    using len(1) shape(3) by (simp_all add: ADU_CAPACITY_def)
  have "?rx ! 2 = word_of_nat (2 * length vs)" by (simp add: adu_def)
  then have "unat (?rx ! 2) = length vs * 2"
    using len(1) by (simp add: unsigned_of_nat take_bit_eq_mod mult.commute del: of_nat_mult)
  then have "?sz = 5 + unat (?rx ! 2)" by (simp only:)
  moreover have "?sz \<le> length ?rx" "5 \<le> ?sz" using frame(2) len(1) by simp_all
  moreover have "linux_frame_ok (take ?sz ?rx)" by (simp only: frame(1) crc_frame_ok_adu)
  ultimately obtain r where r: "parse_reply_rd_holding_registers ?rx ?sz = Inr (Some r)"
    using parse_rd_registers_accepts [of ?sz ?rx] by blast
  have "drop 3 ?rx = ?data @ (crc_bytes (a # reply_pdu (Registers vs)) @ drop ?sz (replicate ADU_CAPACITY 0))"
    by (simp add: adu_def numeral_3_eq_3)
  then have "take (length vs * 2) (drop 3 ?rx) = ?data"
    by (simp only:) (simp add: length_registers mult.commute)
  then have copy: "memcpy Data (buf, 0) Adu ?rx 3 (length vs * 2) = Inr (overwrite buf 0 ?data, 0 + length vs * 2)"
    using len frame(2) by (subst memcpy_ok) simp_all
  have "implace_crc (?req @ [0, 0]) (length (?req @ [0, 0])) = Inr (?req @ crc_bytes ?req, Some (length ?req + 2))"
    using implace_struct [of ?req] by simp
  then have "rtu_master_rd_holding_registers i a (word_to_modbus_rtu_data16 y) (word_to_modbus_rtu_data16 n) buf
      = Inr (i\<lparr>m_dev := w\<rparr>, overwrite buf 0 ?data, Some (0 + length vs * 2))"
    by (simp only: rtu_master_rd_holding_registers_def Let_def struct_bytes bind_res.simps prod.case
        DATA16_TO_WORD_of_word n v r copy option.distinct if_False not_True_eq_False)
  then show ?thesis using w req by (auto simp: mult.commute)
qed

text \<open>The two that write: their request is built by \<open>make_request_...\<close>.\<close>

lemma wr_bytes_exchange:
  assumes ex: "exchange i (adu a (reply_pdu (Bytes_written x k))) cs" and len: "length bs \<le> 249"
  shows "\<exists>w. rtu_master_wr_bytes i a (word_to_modbus_rtu_data16 y) (word_of_nat (length bs)) (Some bs)
      = Inr (i\<lparr>m_dev := w\<rparr>, Some (length bs)) \<and>
    wire w = wire (m_dev i) @ adu a (request_pdu (Wr_bytes y bs)) \<and> calls w = cs"
proof -
  let ?req = "adu a (request_pdu (Wr_bytes y bs))" and ?reply = "adu a (reply_pdu (Bytes_written x k))"
  have n: "unat (word_of_nat (length bs) :: u8) = length bs"
    using len by (simp add: unsigned_of_nat take_bit_eq_mod)
  have size: "length ?req = length bs + 7" by (simp add: request_pdu_def)
  have "make_request_wr_bytes a (word_to_modbus_rtu_data16 y) (Some bs) (word_of_nat (length bs))
      (Some (replicate ADU_CAPACITY 0)) ADU_CAPACITY
      = Inr (Some (overwrite (replicate ADU_CAPACITY 0) 0 ?req), Some (length bs + 7))"
    using master_request_wr_bytes [of ADU_CAPACITY "replicate ADU_CAPACITY 0" bs a y] len size
    by (simp add: request_sent_def ADU_CAPACITY_def)
  moreover have "take (length bs + 7) (overwrite (replicate ADU_CAPACITY 0) 0 ?req) = ?req"
    using size by (simp add: overwrite_0)
  moreover have shape: "?req \<noteq> []" "length ?req \<le> 256" "length ?reply = 7" "0 < (7 :: nat)"
      "7 \<le> length (replicate 7 (0 :: u8))"
    using size len by (auto simp: adu_def)
  from exchange_run [OF ex this] obtain v w where
    "write_impl i ?req = Inr (i\<lparr>m_dev := v\<rparr>, True)"
      "read_impl (i\<lparr>m_dev := v\<rparr>) (replicate 7 0) 7 = Inr (i\<lparr>m_dev := w\<rparr>, ?reply, True)"
    and w: "wire w = wire (m_dev i) @ ?req" "calls w = cs"
    by auto
  moreover obtain r where "parse_reply_wr_bytes ?reply 7 = Inr (Some r)"
    using parse_fixed_accepts(1) [OF crc_frame_ok_adu shape(3)] by blast
  ultimately have "rtu_master_wr_bytes i a (word_to_modbus_rtu_data16 y) (word_of_nat (length bs)) (Some bs)
      = Inr (i\<lparr>m_dev := w\<rparr>, Some (length bs))"
    by (simp only: rtu_master_wr_bytes_def bind_res.simps prod.case option.case option.sel n
        option.distinct if_False not_True_eq_False)
  then show ?thesis using w by blast
qed

lemma wr_registers_exchange:
  assumes ex: "exchange i (adu a (reply_pdu (Registers_written x k))) cs" and len: "length ws \<le> 123"
  shows "\<exists>w. rtu_master_wr_registers i a (word_to_modbus_rtu_data16 y)
        (word_to_modbus_rtu_data16 (word_of_nat (length ws))) (Some (map word_to_modbus_rtu_data16 ws))
      = Inr (i\<lparr>m_dev := w\<rparr>, Some (length ws)) \<and>
    wire w = wire (m_dev i) @ adu a (request_pdu (Wr_registers y ws)) \<and> calls w = cs"
proof -
  let ?req = "adu a (request_pdu (Wr_registers y ws))" and ?reply = "adu a (reply_pdu (Registers_written x k))"
  have n: "unat (word_of_nat (length ws) :: u16) = length ws"
    using len by (simp add: unsigned_of_nat take_bit_eq_mod)
  have size: "length ?req = 2 * length ws + 9" by (simp add: request_pdu_def length_concat_be16)
  have "make_request_wr_registers a (word_to_modbus_rtu_data16 y) (Some (map word_to_modbus_rtu_data16 ws))
      (word_to_modbus_rtu_data16 (word_of_nat (length ws))) (Some (replicate ADU_CAPACITY 0)) ADU_CAPACITY
      = Inr (Some (overwrite (replicate ADU_CAPACITY 0) 0 ?req), Some (2 * length ws + 9))"
    using master_request_wr_registers [of ADU_CAPACITY "replicate ADU_CAPACITY 0" ws a y] len size
    by (simp add: request_sent_def ADU_CAPACITY_def)
  moreover have "take (2 * length ws + 9) (overwrite (replicate ADU_CAPACITY 0) 0 ?req) = ?req"
    using size by (simp add: overwrite_0)
  moreover have shape: "?req \<noteq> []" "length ?req \<le> 256" "length ?reply = 8" "0 < (8 :: nat)"
      "8 \<le> length (replicate 8 (0 :: u8))"
    using size len by (auto simp: adu_def)
  from exchange_run [OF ex this] obtain v w where
    "write_impl i ?req = Inr (i\<lparr>m_dev := v\<rparr>, True)"
      "read_impl (i\<lparr>m_dev := v\<rparr>) (replicate 8 0) 8 = Inr (i\<lparr>m_dev := w\<rparr>, ?reply, True)"
    and w: "wire w = wire (m_dev i) @ ?req" "calls w = cs"
    by auto
  moreover obtain r where "parse_reply_wr_registers ?reply 8 = Inr (Some r)"
    using parse_fixed_accepts(2) [OF crc_frame_ok_adu shape(3)] by blast
  ultimately have "rtu_master_wr_registers i a (word_to_modbus_rtu_data16 y)
        (word_to_modbus_rtu_data16 (word_of_nat (length ws))) (Some (map word_to_modbus_rtu_data16 ws))
      = Inr (i\<lparr>m_dev := w\<rparr>, Some (length ws))"
    by (simp only: rtu_master_wr_registers_def bind_res.simps prod.case option.case option.sel n
        DATA16_TO_WORD_of_word option.distinct if_False not_True_eq_False)
  then show ?thesis using w by blast
qed

end
