(* ===== verification/Master_Slave.thy ===== *)
theory Master_Slave
  imports Linux_Exchange Linux_Slave
begin

text \<open>
  A Linux master and a Linux slave on one line: what the slave answers to a frame of the master, and
  the cases in which the master gets nothing, or more than it has room for.
\<close>

section \<open>The slave's side of an exchange\<close>

fun takes_reply :: "syscall list \<Rightarrow> bool" where
  "takes_reply (p # Write_ret n # d # cs) = (p = Poll_ret 1 True False \<and> 256 \<le> n \<and> d = Drain_ret)"
| "takes_reply cs = False"

text \<open>An idle slave with address \<open>a\<close> and memory \<open>m\<close> whose line takes its reply at once.\<close>

definition serving :: "u8 \<Rightarrow> rtu_memory \<Rightarrow> rtu_impl modbus_rtu_state \<Rightarrow> bool" where
  "serving a m s =
     (idle_slave s \<and> self_addr (memory_impl (user_data s)) = a \<and> impl_memory (memory_impl (user_data s)) = m \<and>
      mem_wf m \<and> rate (user_data s) \<noteq> B0 \<and> takes_reply (calls (dev (user_data s))))"

text \<open>A frame arrives and the two timeouts follow it; \<open>s'\<close> is the slave then, \<open>reply\<close> what it sent.\<close>

definition replies :: "rtu_impl modbus_rtu_state \<Rightarrow> u8 list \<Rightarrow> u8 list \<Rightarrow> rtu_impl modbus_rtu_state \<Rightarrow> bool" where
  "replies s frame reply s' =
     (exec_all linux_platform (map Recv frame @ [Timeout, Event, Timeout, Event]) s = Inr s' \<and>
      wire (dev (user_data s')) = wire (dev (user_data s)) @ reply)"

lemma takes_replyE:
  assumes "takes_reply cs"
  obtains n cs' where "cs = Poll_ret 1 True False # Write_ret n # Drain_ret # cs'" and "256 \<le> n"
  using assms by (cases cs rule: takes_reply.cases) auto

lemma interrupts_map_Recv: "interrupts (map Recv f) = map Recv f"
  by (induction f) (simp_all add: interrupts_def)

text \<open>After the reply the slave has restarted; \<open>cs\<close> is what its line does next.\<close>

lemma serving_done:
  assumes "serving a m s" and "calls (dev (user_data s)) = Poll_ret 1 True False # Write_ret n # Drain_ret # cs"
    and "request_wf q" and "write_in_window m q" and "length (request_pdu q) \<le> 253"
  shows "\<exists>s' m'. replies s (adu a (request_pdu q)) (adu a (reply_pdu (snd (serve (mem_abs m) q)))) s' \<and>
    restarted_slave s' \<and> memory_impl (user_data s') = (memory_impl (user_data s))\<lparr>impl_memory := m'\<rparr> \<and>
    rate (user_data s') = rate (user_data s) \<and> calls (dev (user_data s')) = cs \<and>
    mem_abs m' = fst (serve (mem_abs m) q) \<and> mem_wf m' \<and> same_shape m m'"
proof -
  have "256 \<le> n" using assms(1,2) by (auto simp: serving_def elim: takes_replyE)
  moreover have "TXBUF_CAPACITY = 256" by (simp add: capacities)
  ultimately have "\<exists>s' m'. exec_all linux_platform (map Recv (adu a (request_pdu q)) @ Timeout # [Event] @ [Timeout, Event]) s
      = Inr s' \<and> curr_st s' = RTU_STATE_INIT \<and> rtu_inv impl_mode impl_ok s' \<and>
    impl_app (user_data s') = ((memory_impl (user_data s))\<lparr>impl_memory := m'\<rparr>, rate (user_data s),
      wire (dev (user_data s)) @ adu a (reply_pdu (snd (serve (mem_abs m) q))), cs) \<and>
    mem_abs m' = fst (serve (mem_abs m) q) \<and> mem_wf m' \<and> same_shape m m' \<and> \<not> updated (status s')"
    using request_answered [of s "map Recv (adu a (request_pdu q))" a q "[Event]" n cs] assms
    by (simp only: serving_def interrupts_map_Recv) simp
  then show ?thesis
    unfolding replies_def restarted_slave_def by (fastforce simp: impl_app_def simp del: exec_all.simps)
qed

lemma serving_answers:
  assumes "serving a m s" and "request_wf q" and "write_in_window m q" and "length (request_pdu q) \<le> 253"
  shows "\<exists>s'. replies s (adu a (request_pdu q)) (adu a (reply_pdu (snd (serve (mem_abs m) q)))) s' \<and>
    mem_abs (impl_memory (memory_impl (user_data s'))) = fst (serve (mem_abs m) q)"
proof -
  obtain n cs where "calls (dev (user_data s)) = Poll_ret 1 True False # Write_ret n # Drain_ret # cs"
    using assms(1) by (auto simp: serving_def elim: takes_replyE)
  from serving_done [OF assms(1) this assms(2-4)] show ?thesis by force
qed

lemma serving_replies:
  assumes "serving a m s" and "replies s (adu a (request_pdu q)) reply s'"
    and "request_wf q" and "write_in_window m q" and "length (request_pdu q) \<le> 253"
  shows "reply = adu a (reply_pdu (snd (serve (mem_abs m) q))) \<and>
    mem_abs (impl_memory (memory_impl (user_data s'))) = fst (serve (mem_abs m) q)"
  using serving_answers [OF assms(1,3-5)] assms(2) by (auto simp: replies_def)

text \<open>After a silence of 3.5t the slave serves the next request, when its line takes another reply.\<close>

lemma serving_again:
  assumes "serving a m s" and "replies s (adu a (request_pdu q)) reply s'"
    and "calls (dev (user_data s)) = Poll_ret 1 True False # Write_ret n # Drain_ret # cs" and "takes_reply cs"
    and "request_wf q" and "write_in_window m q" and "length (request_pdu q) \<le> 253"
  shows "\<exists>s'' m'. exec_all linux_platform [Timeout, Event] s' = Inr s'' \<and> serving a m' s'' \<and>
    calls (dev (user_data s'')) = cs \<and> mem_abs m' = fst (serve (mem_abs m) q) \<and> same_shape m m'"
proof -
  from serving_done [OF assms(1,3,5-7)] obtain m' where
    s': "restarted_slave s'" "memory_impl (user_data s') = (memory_impl (user_data s))\<lparr>impl_memory := m'\<rparr>"
      "rate (user_data s') = rate (user_data s)" "calls (dev (user_data s')) = cs"
      "mem_abs m' = fst (serve (mem_abs m) q)" "mem_wf m'" "same_shape m m'"
    using assms(2) by (auto simp: replies_def)
  from restarted_recovers [OF s'(1)] obtain s'' where
    "exec_all linux_platform [Timeout, Event] s' = Inr s''" "idle_slave s''"
    "impl_app (user_data s'') = impl_app (user_data s')"
    by blast
  with s' assms(1,4) show ?thesis
    by (intro exI [of _ s''] exI [of _ m']) (simp add: serving_def impl_app_def)
qed

section \<open>Reads and writes of mapped memory\<close>

lemma serve_rd_bytes:
  assumes "mem_wf m" and "addr_begin m \<le> y" and "unat y + unat n \<le> unat (addr_end m)" and "0 < n" and "n \<le> 249"
  shows "snd (serve (mem_abs m) (Rd_bytes y n)) = Bytes_read y (read_run (mem_abs m) y (unat n))"
  using assms by (auto simp: mapped_def mem_abs_def list_all_iff word_le_nat_alt word_less_nat_alt)

lemma serve_rd_registers:
  assumes "mem_wf m" and "addr_begin m \<le> y" and "unat y + unat n \<le> unat (addr_end m)" and "0 < n" and "n \<le> 125"
  shows "snd (serve (mem_abs m) (Rd_registers y n)) = Registers (read_run (mem_abs m) y (unat n))"
  using assms by (auto simp: mapped_def mem_abs_def list_all_iff word_le_nat_alt word_less_nat_alt)

lemma serve_wr_bytes:
  assumes "mem_wf m" and "addr_begin m \<le> y" and "unat y + length bs \<le> unat (addr_end m)" and "bs \<noteq> []"
    and "length bs \<le> 249"
  shows "serve (mem_abs m) (Wr_bytes y bs) = (write_run (mem_abs m) (unat y) bs, Bytes_written y (length bs))"
  using assms by (cases bs) (auto simp: mapped_def mem_abs_def list_all_iff word_le_nat_alt)

lemma serve_wr_registers:
  assumes "mem_wf m" and "addr_begin m \<le> y" and "unat y + length ws \<le> unat (addr_end m)" and "ws \<noteq> []"
    and "length ws \<le> 123" and "list_all (\<lambda>w. HIGH_BYTE w = 0) ws"
  shows "serve (mem_abs m) (Wr_registers y ws) =
    (write_run (mem_abs m) (unat y) (map LOW_BYTE ws), Registers_written y (length ws))"
  using assms by (cases ws) (auto simp: mapped_def mem_abs_def list_all_iff list_ex_iff word_le_nat_alt)

section \<open>Too much, or nothing\<close>

lemma read_impl_overflow:
  assumes "m_rate i \<noteq> B0" and "0 \<le> timeout_exec_ms i"
    and "calls (m_dev i) = Poll_ret 1 True False # Read_ret bs # cs"
    and "length bs = sz" and "length buf < sz"
  shows "read_impl i buf sz = Inl (BadWrite Dst (int (length buf)))"
proof -
  obtain t where t: "0 \<le> t" "calc_tmax_ms (m_rate i) sz = Inr t"
    using tmax_nonneg [OF assms(1)] by blast
  let ?range = "take sz buf @ replicate (sz - length buf) 0"
  have "?range \<noteq> []" "length bs = length ?range" using assms(4,5) by auto
  from tty_read_at_once [OF assms(3) this(2,1), of "t + timeout_exec_ms i"] t assms(2)
  obtain w where "tty_read (m_dev i) ?range (t + timeout_exec_ms i) False = Inr (w, bs, int (length ?range), False)"
    by auto
  then show ?thesis using t assms(5) by (simp add: read_impl_def)
qed

lemma exchange_overflow:
  assumes "exchange i reply cs" and "data \<noteq> []" and "length data \<le> 256"
    and "length reply = sz" and "length buf < sz"
  shows "\<exists>v. write_impl i data = Inr (i\<lparr>m_dev := v\<rparr>, True) \<and>
    read_impl (i\<lparr>m_dev := v\<rparr>) buf sz = Inl (BadWrite Dst (int (length buf)))"
proof -
  from exchange_write [OF assms(1-3)] obtain v where
    "write_impl i data = Inr (i\<lparr>m_dev := v\<rparr>, True)" "calls v = [Poll_ret 1 True False, Read_ret reply] @ cs"
    by blast
  with read_impl_overflow [of "i\<lparr>m_dev := v\<rparr>" reply cs sz buf] assms show ?thesis
    by (auto simp: exchange_def)
qed

text \<open>Nothing arrives: \<open>poll\<close> returns 0 after the timeout, by the clock of the master.\<close>

lemma tty_read_silence:
  assumes "calls w = Poll_ret 0 r1 r2 # cs" and "clock w = t0 ## t1 ## c" and "timeout < (t1 - t0) sdiv 1000"
    and "0 \<le> timeout" and "buf \<noteq> []"
  shows "tty_read w buf timeout False = Inr (w\<lparr>calls := cs, clock := c\<rparr>, buf, 0, False)"
  using assms
  by (simp add: tty_read_def timestamp_us_def tty_read_loop.simps [of _ _ 0] sys_poll_def Let_def)

lemma read_impl_silence:
  assumes "calc_tmax_ms (m_rate i) sz = Inr t" and "calls (m_dev i) = Poll_ret 0 r1 r2 # cs"
    and "clock (m_dev i) = t0 ## t1 ## c" and "t + timeout_exec_ms i < (t1 - t0) sdiv 1000"
    and "0 \<le> t + timeout_exec_ms i" and "0 < sz" and "sz \<le> length buf"
  shows "\<exists>w. read_impl i buf sz = Inr (i\<lparr>m_dev := w\<rparr>, buf, False) \<and> wire w = wire (m_dev i)"
proof -
  have "take sz buf \<noteq> []" using assms(6,7) by auto
  from tty_read_silence [OF assms(2-5) this] show ?thesis
    using assms(1,6,7) by (intro exI [of _ "m_dev i\<lparr>calls := cs, clock := c\<rparr>"]) (simp add: read_impl_def)
qed

end
