(* ===== verification/Linux_Text.thy ===== *)
theory Linux_Text
  imports Linux_Tty
begin

text \<open>
  Text that the Linux build makes of bytes: \<open>hexdump\<close> (\<open>linux/util.c\<close>), the debug dump of a tty
  (\<open>dump\<close>, \<open>debug\<close> and \<open>tty_logD\<close> of \<open>linux/tty.c\<close>), and the names of states,
  rates and parities of \<open>linux/rtu_log_impl.c\<close> and \<open>linux/rtu_main.c\<close>.

  A buffer of \<open>char\<close> is a string. The conversions \<open>%d\<close>, \<open>%zd\<close> and \<open>%02x\<close> of
  \<open>printf\<close> are \<open>dec_int\<close> and \<open>hex2\<close>.
\<close>

section \<open>\<open>hexdump\<close>\<close>

definition put_char :: "string \<Rightarrow> nat \<Rightarrow> char \<Rightarrow> string res" where
  "put_char buf i c = (if i < length buf then Inr (buf[i := c]) else Inl (BadWrite Dst (int i)))"

definition lookup_hex :: "u8 \<Rightarrow> char" where
  "lookup_hex b = ''0123456789ABCDEF'' ! unat b"

text \<open>\<open>n\<close> counts the bytes of \<open>src\<close> that are done; \<open>i\<close> is \<open>begin\<close>.\<close>

fun hexdump_loop :: "string \<Rightarrow> nat \<Rightarrow> nat \<Rightarrow> u8 list \<Rightarrow> nat \<Rightarrow> (string \<times> nat) res" where
  "hexdump_loop dst i e [] n = Inr (dst, n)"
| "hexdump_loop dst i e (b # src) n =
     (if i = e then Inr (dst, n)
      else bind_res (put_char dst i (lookup_hex (drop_bit 4 b))) (\<lambda>dst.
           bind_res (put_char dst (Suc i) (lookup_hex (b AND 0x0F))) (\<lambda>dst.
           hexdump_loop dst (Suc (Suc i)) e src (Suc n))))"

definition hexdump :: "string \<Rightarrow> nat \<Rightarrow> u8 list \<Rightarrow> (string \<times> nat) res" where
  "hexdump dst capacity src =
     bind_res (hexdump_loop dst 0 capacity src 0) (\<lambda>(dst, n). Inr (dst, n * 2))"

section \<open>The debug dump of a tty\<close>

fun dec :: "nat \<Rightarrow> string" where
  "dec n = (if n < 10 then [''0123456789'' ! n] else dec (n div 10) @ [''0123456789'' ! (n mod 10)])"

declare dec.simps [simp del]

definition dec_int :: "int \<Rightarrow> string" where
  "dec_int i = (if i < 0 then ''-'' @ dec (nat (- i)) else dec (nat i))"

definition hex2 :: "u8 \<Rightarrow> string" where
  "hex2 b = [''0123456789abcdef'' ! unat (drop_bit 4 b), ''0123456789abcdef'' ! unat (b AND 0x0F)]"

text \<open>
  \<open>len = snprintf(dst, dst_end - dst, ...); dst += min(len, dst_end - dst)\<close>: what fits is written
  and terminated, and \<open>dst\<close> goes to the terminator, or to \<open>dst_end\<close> when not all fitted.
\<close>

definition emit :: "nat \<Rightarrow> string \<Rightarrow> string \<times> nat \<Rightarrow> string \<times> nat" where
  "emit e s out =
     (let (buf, i) = out; w = take (e - i - 1) s @ [CHR 0x00]
      in (if i < e then take i buf @ w @ drop (i + length w) buf else buf, i + min (length s) (e - i)))"

text \<open>The loop of \<open>dump\<close>; \<open>num\<close> is the number of zeros not written yet.\<close>

fun dump_loop :: "nat \<Rightarrow> nat \<Rightarrow> u8 list \<Rightarrow> string \<times> nat \<Rightarrow> string \<times> nat" where
  "dump_loop e num [] out = out"
| "dump_loop e num (value # bs) out =
     (let num = (if value = 0 then Suc num else num) in
      if value = 0 \<and> bs \<noteq> [] then dump_loop e num bs out
      else
        let out = (if 0 < num
              then let out = (if 1 < num then emit e (dec num @ ''x'') out else out); out = emit e ''00'' out
                   in if bs \<noteq> [] then emit e '' '' out else out
              else out);
            out = (if value \<noteq> 0 then emit e (hex2 value) out else out);
            out = (if bs \<noteq> [] then emit e '' '' out else out)
        in dump_loop e 0 bs out)"

definition dump :: "nat \<Rightarrow> u8 list \<Rightarrow> string \<times> nat \<Rightarrow> string \<times> nat" where
  "dump e bs out = dump_loop e 0 bs out"

text \<open>
  The debug buffer of a device, or \<open>None\<close> when \<open>tty_init\<close> was given no size: its
  characters and the offset \<open>curr\<close>; \<open>end\<close> is its length. \<open>n\<close> is \<open>curr - begin\<close>.
\<close>

type_synonym tty_debug = "(string \<times> nat) option"

definition debug :: "tty_debug \<Rightarrow> string \<Rightarrow> int \<Rightarrow> int \<Rightarrow> u8 list \<Rightarrow> int \<Rightarrow> tty_debug" where
  "debug dev tag timeout_us duration_us bytes n =
     (case dev of None \<Rightarrow> None
      | Some out \<Rightarrow>
          let e = length (fst out);
              out = emit e (tag @ '' '' @ dec_int duration_us @ ''us/'' @ dec_int timeout_us @ ''us ('' @ dec_int n @ '') '') out;
              out = dump e bytes out
          in Some (emit e (if n = 0 then '' timeout'' else []) out))"

text \<open>\<open>tty_logD\<close>: the text it prints, and the buffer it leaves.\<close>

definition tty_logD :: "tty_debug \<Rightarrow> string \<times> tty_debug" where
  "tty_logD dev =
     (case dev of None \<Rightarrow> ([], None)
      | Some (buf, cur) \<Rightarrow> if cur = 0 then ([], dev) else (take cur buf, Some (buf, 0)))"

section \<open>Names and options\<close>

definition rtu_state_str :: "u8 \<Rightarrow> string" where
  "rtu_state_str status =
     (let str = [''INIT'', ''IDLE'', ''SOF'', ''RECV'', ''EOF'', ''BUSY'']
      in if length str > unat status then str ! unat status else ''?'')"

definition supported_rates :: "speed_t list" where
  "supported_rates = [B1200, B2400, B4800, B9600, B19200, B57600, B115200]"

definition supported_rates_str :: "string list" where
  "supported_rates_str = [''1200'', ''2400'', ''4800'', ''9600'', ''19200'', ''57600'', ''115200'']"

fun find_rate :: "string \<Rightarrow> (speed_t \<times> string) list \<Rightarrow> speed_t" where
  "find_rate s [] = B19200"
| "find_rate s ((r, t) # rs) = (if s = t then r else find_rate s rs)"

definition parse_speed :: "string option \<Rightarrow> speed_t" where
  "parse_speed str =
     (case str of None \<Rightarrow> B19200 | Some s \<Rightarrow> find_rate s (zip supported_rates supported_rates_str))"

definition parse_parity :: "string option \<Rightarrow> parity_t" where
  "parse_parity str =
     (case str of None \<Rightarrow> PARITY_even
      | Some s \<Rightarrow> if s = ''E'' then PARITY_even else if s = ''O'' then PARITY_odd
                  else if s = ''N'' then PARITY_none else PARITY_even)"

section \<open>What they compute\<close>

text \<open>Text goes out as one piece, however it is cut.\<close>

lemma emit_append:
  assumes "i \<le> e" and "e \<le> length buf"
  shows "emit e t (emit e s (buf, i)) = emit e (s @ t) (buf, i)"
proof (cases "i + length s < e")
  case True
  let ?w = "s @ [CHR 0x00]"
  have s: "emit e s (buf, i) = (take i buf @ ?w @ drop (i + length ?w) buf, i + length s)"
    using True by (simp add: emit_def Let_def)
  have pre: "take (i + length s) (take i buf @ ?w @ drop (i + length ?w) buf) = take i buf @ s"
    using True assms by (simp add: min_def)
  have post: "drop (i + length s + length v) (take i buf @ ?w @ drop (i + length ?w) buf) = drop (i + length s + length v) buf"
    if "v \<noteq> []" for v :: string
    using that True assms by (cases v) (simp_all add: min_def ac_simps)
  have "take (e - i - 1) (s @ t) = s @ take (e - (i + length s) - 1) t"
    using True by (simp add: algebra_simps)
  moreover have "min (length (s @ t)) (e - i) = length s + min (length t) (e - (i + length s))"
    using True by (auto simp: min_def)
  ultimately show ?thesis
    unfolding s using True pre post [of "take (e - (i + length s) - 1) t @ [CHR 0x00]"]
    by (simp add: emit_def Let_def add.assoc)
next
  case False
  then have "i + min (length s) (e - i) = e" "i + min (length s + length t) (e - i) = e"
    using assms(1) by auto
  moreover have "take (e - Suc i) (s @ t) = take (e - Suc i) s" using False by simp
  ultimately show ?thesis by (simp add: emit_def Let_def)
qed

definition room :: "nat \<Rightarrow> string \<times> nat \<Rightarrow> bool" where
  "room e out = (snd out \<le> e \<and> e \<le> length (fst out))"

lemma emit_emit [simp]: "room e out \<Longrightarrow> emit e t (emit e s out) = emit e (s @ t) out"
  using emit_append [of "snd out" e "fst out"] by (simp add: room_def)

lemma emit_room [simp]: "room e out \<Longrightarrow> room e (emit e s out)"
  by (auto simp: room_def emit_def Let_def split_beta)

lemma emit_length: "room e out \<Longrightarrow> length (fst (emit e s out)) = length (fst out)"
  by (auto simp: room_def emit_def Let_def split_beta)

text \<open>The text of a dump: a run of zeros is \<open>00\<close> with its length in front, a byte two digits.\<close>

definition dump_piece :: "nat \<Rightarrow> u8 \<Rightarrow> bool \<Rightarrow> string" where
  "dump_piece num v rest =
     (if 0 < num then (if 1 < num then dec num @ ''x'' else []) @ ''00'' @ (if rest then '' '' else []) else [])
     @ (if v \<noteq> 0 then hex2 v else []) @ (if rest then '' '' else [])"

fun dump_text :: "nat \<Rightarrow> u8 list \<Rightarrow> string" where
  "dump_text num [] = []"
| "dump_text num (v # bs) =
     (if v = 0 \<and> bs \<noteq> [] then dump_text (Suc num) bs
      else dump_piece (if v = 0 then Suc num else num) v (bs \<noteq> []) @ dump_text 0 bs)"

lemma dump_loop_emit:
  "room e out \<Longrightarrow> bs \<noteq> [] \<Longrightarrow> dump_loop e num bs out = emit e (dump_text num bs) out"
proof (induction bs arbitrary: num out)
  case (Cons v bs)
  show ?case
  proof (cases "v = 0 \<and> bs \<noteq> []")
    case True
    then show ?thesis using Cons by simp
  next
    case False
    let ?n = "if v = 0 then Suc num else num"
    have one: "dump_loop e num (v # bs) out = dump_loop e 0 bs (emit e (dump_piece ?n v (bs \<noteq> [])) out)"
      using False Cons.prems(1)
      by (cases "v = 0"; cases "0 < num"; cases "1 < num"; cases "bs = []") (simp_all add: dump_piece_def Let_def)
    have two: "dump_loop e 0 bs (emit e s out) = emit e (s @ dump_text 0 bs) out" for s
      using Cons.IH [of "emit e s out" 0] Cons.prems(1) by (cases "bs = []") simp_all
    have "dump_text num (v # bs) = dump_piece ?n v (bs \<noteq> []) @ dump_text 0 bs"
      by (subst dump_text.simps) (simp only: False if_False)
    then show ?thesis by (simp only: one two)
  qed
qed simp

definition debug_line :: "string \<Rightarrow> int \<Rightarrow> int \<Rightarrow> u8 list \<Rightarrow> int \<Rightarrow> string" where
  "debug_line tag tmo dur bytes n = tag @ '' '' @ dec_int dur @ ''us/'' @ dec_int tmo @ ''us ('' @ dec_int n @ '') ''
     @ dump_text 0 bytes @ (if n = 0 then '' timeout'' else [])"

section \<open>Properties\<close>

text \<open>
  A debug line never leaves its buffer, whatever its length: \<open>curr\<close> stays in the buffer and
  what was there before is kept; when the line fits, it is appended and terminated.
\<close>

lemma debug_stays_in_buffer:
  assumes "i \<le> length buf" and "bytes \<noteq> []"
  shows "\<exists>buf' j. debug (Some (buf, i)) tag tmo dur bytes n = Some (buf', j) \<and> j \<le> length buf' \<and>
    length buf' = length buf \<and> take i buf' = take i buf \<and>
    (i + length (debug_line tag tmo dur bytes n) < length buf \<longrightarrow>
      take (Suc j) buf' = take i buf @ debug_line tag tmo dur bytes n @ [CHR 0x00])"
proof -
  let ?line = "debug_line tag tmo dur bytes n"
  have room: "room (length buf) (buf, i)" using assms(1) by (simp add: room_def)
  have "debug (Some (buf, i)) tag tmo dur bytes n = Some (emit (length buf) ?line (buf, i))"
    using room dump_loop_emit [of "length buf" _ bytes 0] assms(2) by (simp add: debug_def dump_def debug_line_def)
  moreover obtain buf' j where out: "emit (length buf) ?line (buf, i) = (buf', j)"
    by (cases "emit (length buf) ?line (buf, i)")
  moreover have "j \<le> length buf'" "length buf' = length buf"
    using emit_room [OF room, of ?line] emit_length [OF room, of ?line] by (simp_all add: out room_def)
  moreover have "take i buf' = take i buf"
    using out by (auto simp: emit_def Let_def split: if_splits)
  moreover have "take (Suc j) buf' = take i buf @ ?line @ [CHR 0x00]" if "i + length ?line < length buf"
    using out that by (auto simp: emit_def Let_def min_def)
  ultimately show ?thesis by auto
qed

text \<open>The text of a hex dump.\<close>

definition hex_text :: "u8 list \<Rightarrow> string" where
  "hex_text bs = concat (map (\<lambda>b. [lookup_hex (drop_bit 4 b), lookup_hex (b AND 0x0F)]) bs)"

lemma length_hex_text [simp]: "length (hex_text bs) = 2 * length bs"
  by (induction bs) (simp_all add: hex_text_def)

lemma put_two:
  assumes "Suc i < length dst"
  shows "bind_res (put_char dst i x) (\<lambda>dst. bind_res (put_char dst (Suc i) y) f)
    = f (take i dst @ [x, y] @ drop (Suc (Suc i)) dst)"
proof -
  have "drop (Suc i) dst = dst ! Suc i # drop (Suc (Suc i)) dst"
    using assms by (simp add: Cons_nth_drop_Suc)
  then have "(dst[i := x])[Suc i := y] = take i dst @ [x, y] @ drop (Suc (Suc i)) dst"
    using assms by (simp add: upd_conv_take_nth_drop [of i] list_update_append)
  then show ?thesis using assms by (simp add: put_char_def)
qed

lemma hexdump_loop_even:
  "i + 2 * k \<le> length dst \<Longrightarrow> hexdump_loop dst i (i + 2 * k) src n =
   Inr (take i dst @ hex_text (take k src) @ drop (i + 2 * min k (length src)) dst, n + min k (length src))"
proof (induction src arbitrary: dst i k n)
  case (Cons b src)
  show ?case
  proof (cases k)
    case (Suc j)
    let ?dst = "take i dst @ [lookup_hex (drop_bit 4 b), lookup_hex (b AND 0x0F)] @ drop (Suc (Suc i)) dst"
    have len: "Suc i < length dst" and size: "length ?dst = length dst" using Cons.prems Suc by simp_all
    have "hexdump_loop ?dst (Suc (Suc i)) (Suc (Suc i) + 2 * j) src (Suc n) =
        Inr (take (Suc (Suc i)) ?dst @ hex_text (take j src) @ drop (Suc (Suc i) + 2 * min j (length src)) ?dst,
          Suc n + min j (length src))"
      using Cons.prems Suc by (intro Cons.IH) simp
    moreover have "take (Suc (Suc i)) ?dst = take i dst @ hex_text [b]"
      using len by (simp add: hex_text_def)
    moreover have "drop (Suc (Suc i) + x) ?dst = drop (Suc (Suc i) + x) dst" for x
      using len by (simp add: add.commute)
    ultimately show ?thesis
      using Suc by (simp add: hex_text_def put_two [OF len])
  qed (simp add: hex_text_def)
qed (simp add: hex_text_def)

text \<open>
  \<open>hexdump\<close> with an even capacity writes two digits for each byte that fits, nothing else,
  and returns their number; with an odd capacity the last pair starts at the last character, the
  test for the end is jumped over, and the digit after the buffer is written.
\<close>

lemma hexdump_capacity:
  assumes "length dst = capacity"
  shows "(even capacity \<longrightarrow> hexdump dst capacity src =
      Inr (hex_text (take (capacity div 2) src) @ drop (2 * min (capacity div 2) (length src)) dst,
        2 * min (capacity div 2) (length src))) \<and>
    (odd capacity \<and> capacity div 2 < length src \<longrightarrow> hexdump dst capacity src = Inl (BadWrite Dst (int capacity)))"
proof -
  have odd_loop: "hexdump_loop d i (Suc (i + 2 * k)) src n = Inl (BadWrite Dst (int (length d)))"
    if "length d = Suc (i + 2 * k)" "k < length src" for d i k src n
    using that
  proof (induction k arbitrary: d i src n)
    case 0
    then show ?case by (cases src) (simp_all add: put_char_def)
  next
    case (Suc k)
    then obtain b bs where src: "src = b # bs" by (cases src) auto
    let ?d = "take i d @ [lookup_hex (drop_bit 4 b), lookup_hex (b AND 0x0F)] @ drop (Suc (Suc i)) d"
    have "hexdump_loop ?d (Suc (Suc i)) (Suc (Suc (Suc i) + 2 * k)) bs (Suc n) = Inl (BadWrite Dst (int (length ?d)))"
      using Suc.prems src by (intro Suc.IH) simp_all
    then show ?case
      using Suc.prems by (simp add: src put_two)
  qed
  show ?thesis
  proof (intro conjI impI)
    assume "even capacity"
    then obtain c where "capacity = 2 * c" by (rule evenE)
    then show "hexdump dst capacity src =
      Inr (hex_text (take (capacity div 2) src) @ drop (2 * min (capacity div 2) (length src)) dst,
        2 * min (capacity div 2) (length src))"
      using hexdump_loop_even [of 0 c dst src 0] assms by (simp add: hexdump_def mult.commute)
  next
    assume odd: "odd capacity \<and> capacity div 2 < length src"
    then obtain c where "capacity = 2 * c + 1" by (auto elim: oddE)
    then show "hexdump dst capacity src = Inl (BadWrite Dst (int capacity))"
      using odd_loop [of dst 0 c src 0] assms odd by (simp add: hexdump_def)
  qed
qed

text \<open>
  The option \<open>-r\<close> takes the name of every rate that \<open>tty_bps\<close> supports except
  38400, for which the slave silently runs at 19200; the option \<open>-p\<close> takes the name of every
  parity.
\<close>

lemma options_round_trip:
  "(is_ok (tty_bps r) \<longrightarrow> parse_speed (Some (tty_rate_str r)) = (if r = B38400 then B19200 else r)) \<and>
   parse_parity (Some (tty_parity_str p)) = p"
  by (cases r; cases p)
    (simp_all add: parse_speed_def supported_rates_def supported_rates_str_def parse_parity_def)

lemma options_round_trip_witness: "parse_speed (Some ''9600'') = B9600 \<and> parse_speed (Some ''38400'') = B19200"
  using options_round_trip [of B9600 PARITY_even] options_round_trip [of B38400 PARITY_even] by simp

end
