(* ===== verification/Linux_Device.thy ===== *)
theory Linux_Device
  imports Linux_Text
begin

text \<open>
  The terminal settings and the life of a tty device, \<open>tty_configure_term\<close> and the functions
  from \<open>tty_init\<close> to \<open>tty_configure\<close> of \<open>linux/tty.c\<close>.

  The flags of \<open>termios\<close> have their Linux values; the two speeds are fields of their own. What
  \<open>open\<close>, \<open>close\<close> and \<open>tcsetattr\<close> return is an argument, and whether \<open>malloc\<close>
  succeeds is one of \<open>tty_init_alloc\<close>; a failing \<open>strdup\<close> is left out.
\<close>

section \<open>Terminal settings\<close>

type_synonym flags = "32 word"

definition flag :: "nat \<Rightarrow> flags" where "flag k = push_bit k 1"

abbreviation IGNBRK :: flags where "IGNBRK \<equiv> flag 0"
abbreviation BRKINT :: flags where "BRKINT \<equiv> flag 1"
abbreviation PARMRK :: flags where "PARMRK \<equiv> flag 3"
abbreviation INPCK :: flags where "INPCK \<equiv> flag 4"
abbreviation ISTRIP :: flags where "ISTRIP \<equiv> flag 5"
abbreviation INLCR :: flags where "INLCR \<equiv> flag 6"
abbreviation IGNCR :: flags where "IGNCR \<equiv> flag 7"
abbreviation ICRNL :: flags where "ICRNL \<equiv> flag 8"
abbreviation IXON :: flags where "IXON \<equiv> flag 10"
abbreviation IXANY :: flags where "IXANY \<equiv> flag 11"
abbreviation IXOFF :: flags where "IXOFF \<equiv> flag 12"
abbreviation OPOST :: flags where "OPOST \<equiv> flag 0"
abbreviation ONLCR :: flags where "ONLCR \<equiv> flag 2"
abbreviation CSIZE :: flags where "CSIZE \<equiv> flag 4 OR flag 5"
abbreviation CS5 :: flags where "CS5 \<equiv> 0"
abbreviation CS6 :: flags where "CS6 \<equiv> flag 4"
abbreviation CS7 :: flags where "CS7 \<equiv> flag 5"
abbreviation CS8 :: flags where "CS8 \<equiv> flag 4 OR flag 5"
abbreviation CSTOPB :: flags where "CSTOPB \<equiv> flag 6"
abbreviation CREAD :: flags where "CREAD \<equiv> flag 7"
abbreviation PARENB :: flags where "PARENB \<equiv> flag 8"
abbreviation PARODD :: flags where "PARODD \<equiv> flag 9"
abbreviation CLOCAL :: flags where "CLOCAL \<equiv> flag 11"
abbreviation CRTSCTS :: flags where "CRTSCTS \<equiv> flag 31"
abbreviation ISIG :: flags where "ISIG \<equiv> flag 0"
abbreviation ICANON :: flags where "ICANON \<equiv> flag 1"
abbreviation ECHO :: flags where "ECHO \<equiv> flag 3"

record termios =
  c_iflag :: flags
  c_oflag :: flags
  c_cflag :: flags
  c_lflag :: flags
  c_vtime :: u8
  c_vmin :: u8
  c_ispeed :: speed_t
  c_ospeed :: speed_t

datatype data_bits_t = DATA_BITS_5 | DATA_BITS_6 | DATA_BITS_7 | DATA_BITS_8

datatype stop_bits_t = STOP_BITS_1 | STOP_BITS_2

definition tty_configure_term :: "termios \<Rightarrow> speed_t \<Rightarrow> parity_t \<Rightarrow> data_bits_t \<Rightarrow> stop_bits_t \<Rightarrow> termios" where
  "tty_configure_term config speed parity data_bits stop_bits =
     (let config = config\<lparr>c_ispeed := speed, c_ospeed := speed\<rparr>;
          config = (if parity = PARITY_none
            then config\<lparr>c_cflag := c_cflag config AND NOT PARENB, c_iflag := c_iflag config AND NOT INPCK\<rparr>
            else config\<lparr>c_iflag := c_iflag config OR INPCK,
                   c_cflag := (if parity = PARITY_odd then (c_cflag config OR PARENB) OR PARODD
                               else if parity = PARITY_even then (c_cflag config OR PARENB) AND NOT PARODD
                               else c_cflag config OR PARENB)\<rparr>);
          config = config\<lparr>c_cflag := c_cflag config AND NOT CSIZE\<rparr>;
          config = config\<lparr>c_cflag := c_cflag config OR
            (case data_bits of DATA_BITS_5 \<Rightarrow> CS5 | DATA_BITS_6 \<Rightarrow> CS6 | DATA_BITS_7 \<Rightarrow> CS7 | DATA_BITS_8 \<Rightarrow> CS8)\<rparr>;
          config = config\<lparr>c_cflag :=
            (case stop_bits of STOP_BITS_1 \<Rightarrow> c_cflag config AND NOT CSTOPB | STOP_BITS_2 \<Rightarrow> c_cflag config OR CSTOPB)\<rparr>
      in config\<lparr>c_cflag := ((c_cflag config AND NOT CRTSCTS) OR CREAD) OR CLOCAL,
           c_lflag := ((c_lflag config AND NOT ICANON) AND NOT ECHO) AND NOT ISIG,
           c_iflag := (c_iflag config AND NOT (IXON OR IXOFF OR IXANY))
             AND NOT (IGNBRK OR BRKINT OR PARMRK OR ISTRIP OR INLCR OR IGNCR OR ICRNL),
           c_oflag := (c_oflag config AND NOT OPOST) AND NOT ONLCR,
           c_vtime := 0, c_vmin := 0\<rparr>)"

text \<open>The settings of \<open>rtu_main.c\<close> for a parity.\<close>

definition main_term :: "termios \<Rightarrow> speed_t \<Rightarrow> parity_t \<Rightarrow> termios" where
  "main_term config speed parity =
     tty_configure_term config speed parity DATA_BITS_8 (if PARITY_none = parity then STOP_BITS_2 else STOP_BITS_1)"

text \<open>The bits of a character on the line: start, data, parity, stop.\<close>

definition char_bits :: "termios \<Rightarrow> nat" where
  "char_bits c =
     1 + (if c_cflag c AND CSIZE = CS8 then 8 else if c_cflag c AND CSIZE = CS7 then 7
          else if c_cflag c AND CSIZE = CS6 then 6 else 5)
     + (if c_cflag c AND PARENB = 0 then 0 else 1) + (if c_cflag c AND CSTOPB = 0 then 1 else 2)"

section \<open>The device\<close>

record tty_dev =
  dev_fd :: int
  dev_path :: "string option"
  dev_config :: termios
  dev_debug :: tty_debug

definition no_termios :: termios where
  "no_termios = \<lparr>c_iflag = 0, c_oflag = 0, c_cflag = 0, c_lflag = 0, c_vtime = 0, c_vmin = 0,
     c_ispeed = B0, c_ospeed = B0\<rparr>"

definition tty_init :: "nat \<Rightarrow> tty_dev" where
  "tty_init debug_size = \<lparr>dev_fd = - 1, dev_path = None, dev_config = no_termios,
     dev_debug = (if debug_size \<noteq> 0 then Some (replicate debug_size CHR 0x00, 0) else None)\<rparr>"

text \<open>That is \<open>tty_init\<close> when its \<open>malloc\<close> succeeds; \<open>ok\<close> says whether it does.\<close>

definition tty_init_alloc :: "bool \<Rightarrow> nat \<Rightarrow> tty_dev res" where
  "tty_init_alloc ok debug_size =
     (if debug_size \<noteq> 0 \<and> \<not> ok then Inl (CheckFailed ''malloc'') else Inr (tty_init debug_size))"

text \<open>\<open>fd\<close> is what \<open>open\<close> returns.\<close>

definition tty_open :: "tty_dev \<Rightarrow> string \<Rightarrow> int \<Rightarrow> tty_dev res" where
  "tty_open dev path fd =
     (if dev_fd dev \<noteq> - 1 then Inl (CheckFailed ''-1 == dev->fd'')
      else if dev_path dev \<noteq> None then Inl (CheckFailed ''!dev->path'')
      else if fd = - 1 then Inl (CheckFailed ''open'')
      else Inr (dev\<lparr>dev_path := Some path, dev_fd := fd\<rparr>))"

definition tty_adopt :: "tty_dev \<Rightarrow> int \<Rightarrow> tty_dev res" where
  "tty_adopt dev fd =
     (if dev_fd dev \<noteq> - 1 then Inl (CheckFailed ''-1 == dev->fd'')
      else if fd = - 1 then Inl (CheckFailed ''-1 != fd'')
      else Inr (dev\<lparr>dev_fd := fd\<rparr>))"

text \<open>\<open>ok\<close> says whether \<open>close\<close> succeeds.\<close>

definition tty_close :: "tty_dev \<Rightarrow> bool \<Rightarrow> tty_dev res" where
  "tty_close dev ok =
     (let dev = dev\<lparr>dev_path := None\<rparr> in
      if dev_fd dev \<noteq> - 1 \<and> \<not> ok then Inl (CheckFailed ''close'')
      else Inr (dev\<lparr>dev_fd := - 1\<rparr>))"

definition tty_deinit :: "tty_dev \<Rightarrow> bool \<Rightarrow> tty_dev res" where
  "tty_deinit dev ok =
     bind_res (tty_close dev ok) (\<lambda>dev. Inr (dev\<lparr>dev_path := None, dev_debug := None\<rparr>))"

text \<open>
  \<open>tcsetattr\<close> succeeds or not, and \<open>tcgetattr\<close> then reads \<open>current\<close> back.
\<close>

definition tty_set_term_config :: "int \<Rightarrow> termios \<Rightarrow> bool \<Rightarrow> termios \<Rightarrow> unit res" where
  "tty_set_term_config fd config ok current =
     (if fd = - 1 then Inr ()
      else if \<not> ok then Inl (CheckFailed ''tcsetattr'')
      else if config \<noteq> current then Inl (CheckFailed ''memcmp'')
      else Inr ())"

definition tty_configure :: "tty_dev \<Rightarrow> speed_t \<Rightarrow> parity_t \<Rightarrow> data_bits_t \<Rightarrow> stop_bits_t \<Rightarrow> bool \<Rightarrow> termios
    \<Rightarrow> tty_dev res" where
  "tty_configure dev speed parity data_bits stop_bits ok current =
     (let dev = dev\<lparr>dev_config := tty_configure_term no_termios speed parity data_bits stop_bits\<rparr> in
      bind_res (tty_set_term_config (dev_fd dev) (dev_config dev) ok current) (\<lambda>_. Inr dev))"

text \<open>A device in use: any order of the calls that return.\<close>

inductive dev_step :: "tty_dev \<Rightarrow> tty_dev \<Rightarrow> bool" where
  opened: "tty_open dev path fd = Inr dev' \<Longrightarrow> dev_step dev dev'"
| adopted: "tty_adopt dev fd = Inr dev' \<Longrightarrow> dev_step dev dev'"
| closed: "tty_close dev ok = Inr dev' \<Longrightarrow> dev_step dev dev'"
| deinit: "tty_deinit dev ok = Inr dev' \<Longrightarrow> dev_step dev dev'"
| configured: "tty_configure dev r p d b ok current = Inr dev' \<Longrightarrow> dev_step dev dev'"
| logged: "dev_step dev (dev\<lparr>dev_debug := debug (dev_debug dev) tag tmo dur bytes n\<rparr>)"
| printed: "dev_step dev (dev\<lparr>dev_debug := snd (tty_logD (dev_debug dev))\<rparr>)"

inductive dev_reachable :: "tty_dev \<Rightarrow> bool" where
  init: "dev_reachable (tty_init sz)"
| step: "dev_reachable dev \<Longrightarrow> dev_step dev dev' \<Longrightarrow> dev_reachable dev'"

inductive_cases dev_stepE: "dev_step dev dev'"

definition dev_inv :: "tty_dev \<Rightarrow> bool" where
  "dev_inv dev = ((dev_path dev \<noteq> None \<longrightarrow> dev_fd dev \<noteq> - 1) \<and>
     (case dev_debug dev of None \<Rightarrow> True | Some (buf, i) \<Rightarrow> i \<le> length buf))"

section \<open>Flags\<close>

lemma bit_flag: "bit (flag k) n \<longleftrightarrow> n = k \<and> k < 32"
  by (auto simp: flag_def bit_simps)

lemma flag_clear: "k < 32 \<Longrightarrow> x AND flag k = 0 \<longleftrightarrow> \<not> bit x k" for x :: flags
proof -
  assume k: "k < 32"
  show ?thesis
  proof
    assume "x AND flag k = 0"
    then have "bit (x AND flag k) k \<longleftrightarrow> bit (0 :: flags) k" by simp
    with k show "\<not> bit x k" by (simp add: bit_and_iff bit_flag)
  qed (auto intro!: bit_word_eqI simp: bit_and_iff bit_flag)
qed

lemma flags_clear:
  "j < 32 \<Longrightarrow> k < 32 \<Longrightarrow> x AND (flag j OR flag k) = 0 \<longleftrightarrow> \<not> bit x j \<and> \<not> bit x k" for x :: flags
  by (simp add: bit.conj_disj_distrib or_eq_0_iff flag_clear)

lemma field_eq:
  "j < 32 \<Longrightarrow> k < 32 \<Longrightarrow> x AND (flag j OR flag k) = flag j OR flag k \<longleftrightarrow> bit x j \<and> bit x k" for x :: flags
proof -
  assume jk: "j < 32" "k < 32"
  show ?thesis
  proof
    assume "x AND (flag j OR flag k) = flag j OR flag k"
    then have "bit (x AND (flag j OR flag k)) n \<longleftrightarrow> bit (flag j OR flag k) n" for n by simp
    from this [of j] this [of k] jk show "bit x j \<and> bit x k" by (simp add: bit_and_iff bit_or_iff bit_flag)
  qed (auto intro!: bit_word_eqI simp: bit_and_iff bit_or_iff bit_flag)
qed

lemmas flag_simps = bit_and_iff bit_or_iff bit_not_iff bit_flag flag_clear field_eq

text \<open>The result, flag by flag.\<close>

lemma cflag_bits:
  "bit (c_cflag (tty_configure_term c s p d b)) 4 \<longleftrightarrow> d = DATA_BITS_6 \<or> d = DATA_BITS_8"
  "bit (c_cflag (tty_configure_term c s p d b)) 5 \<longleftrightarrow> d = DATA_BITS_7 \<or> d = DATA_BITS_8"
  "bit (c_cflag (tty_configure_term c s p d b)) 6 \<longleftrightarrow> b = STOP_BITS_2"
  "bit (c_cflag (tty_configure_term c s p d b)) 7" "bit (c_cflag (tty_configure_term c s p d b)) 11"
  "bit (c_cflag (tty_configure_term c s p d b)) 8 \<longleftrightarrow> p \<noteq> PARITY_none"
  "p \<noteq> PARITY_none \<Longrightarrow> bit (c_cflag (tty_configure_term c s p d b)) 9 \<longleftrightarrow> p = PARITY_odd"
  "\<not> bit (c_cflag (tty_configure_term c s p d b)) 31"
  by (cases p; cases d; cases b; simp add: tty_configure_term_def Let_def flag_simps)+

lemma raw_bits:
  "k \<in> {0, 1, 3, 5, 6, 7, 8, 10, 11, 12} \<Longrightarrow> \<not> bit (c_iflag (tty_configure_term c s p d b)) k"
  "bit (c_iflag (tty_configure_term c s p d b)) 4 \<longleftrightarrow> p \<noteq> PARITY_none"
  "k \<in> {0, 1, 3} \<Longrightarrow> \<not> bit (c_lflag (tty_configure_term c s p d b)) k"
  "k \<in> {0, 2} \<Longrightarrow> \<not> bit (c_oflag (tty_configure_term c s p d b)) k"
  by (cases p; cases d; cases b; auto simp: tty_configure_term_def Let_def flag_simps)+

section \<open>Properties\<close>

lemma and_or_clear: "x AND (y OR z) = 0 \<longleftrightarrow> x AND y = 0 \<and> x AND z = 0" for x :: flags
  by (simp add: bit.conj_disj_distrib or_eq_0_iff)

lemma flag_set: "k < 32 \<Longrightarrow> x AND flag k = flag k \<longleftrightarrow> bit x k" for x :: flags
  using field_eq [of k k x] by simp

text \<open>
  C39: with the settings of \<open>rtu_main.c\<close> a character on the line has 11 bits whatever the parity
  and whatever the settings were before, which is what \<open>calc_1t5_us\<close>, \<open>calc_3t5_us\<close> and
  \<open>calc_tmin_ms\<close> assume, and both speeds are that of the rate. The line is raw: no character is
  ignored, marked, stripped, mapped or taken for flow control on input, none is processed on output, there
  are no lines, echoes or signals, a \<open>read\<close> returns at once (VTIME and VMIN are 0), the receiver is on, and
  modem lines and hardware flow control are off. The parity is checked exactly when there is one, and it is
  odd exactly when it should be.
\<close>

theorem main_settings:
  "char_bits (main_term config speed parity) = 11 \<and>
   c_ispeed (main_term config speed parity) = speed \<and> c_ospeed (main_term config speed parity) = speed \<and>
   c_iflag (main_term config speed parity)
     AND (IGNBRK OR BRKINT OR PARMRK OR ISTRIP OR INLCR OR IGNCR OR ICRNL OR IXON OR IXANY OR IXOFF) = 0 \<and>
   c_lflag (main_term config speed parity) AND (ISIG OR ICANON OR ECHO) = 0 \<and>
   c_oflag (main_term config speed parity) AND (OPOST OR ONLCR) = 0 \<and>
   c_vtime (main_term config speed parity) = 0 \<and> c_vmin (main_term config speed parity) = 0 \<and>
   c_cflag (main_term config speed parity) AND CREAD = CREAD \<and>
   c_cflag (main_term config speed parity) AND CLOCAL = CLOCAL \<and>
   c_cflag (main_term config speed parity) AND CRTSCTS = 0 \<and>
   (c_iflag (main_term config speed parity) AND INPCK = 0 \<longleftrightarrow> parity = PARITY_none) \<and>
   (parity = PARITY_none \<or> (c_cflag (main_term config speed parity) AND PARODD = 0 \<longleftrightarrow> parity = PARITY_even))"
proof -
  have "c_ispeed (main_term config speed parity) = speed" "c_ospeed (main_term config speed parity) = speed"
      "c_vtime (main_term config speed parity) = 0" "c_vmin (main_term config speed parity) = 0"
    by (simp_all add: main_term_def tty_configure_term_def Let_def split: data_bits_t.splits stop_bits_t.splits)
  then show ?thesis
    by (cases parity)
      (simp_all add: char_bits_def main_term_def flag_clear flag_set field_eq and_or_clear cflag_bits raw_bits)
qed

theorem main_settings_witness:
  "char_bits (main_term no_termios B9600 PARITY_none) = 11 \<and> char_bits (main_term no_termios B9600 PARITY_odd) = 11"
  using main_settings [of no_termios B9600 PARITY_none] main_settings [of no_termios B9600 PARITY_odd] by simp

lemma debug_inv:
  assumes "i \<le> length buf"
  shows "\<exists>buf' j. debug (Some (buf, i)) tag tmo dur bytes n = Some (buf', j) \<and> j \<le> length buf'"
proof -
  have room: "room (length buf) (buf, i)" using assms by (simp add: room_def)
  have "\<exists>s. dump (length buf) bytes (emit (length buf) t (buf, i)) = emit (length buf) s (buf, i)" for t
    using room dump_loop_emit [of "length buf" _ bytes 0] by (cases "bytes = []") (auto simp: dump_def)
  then obtain s where s: "debug (Some (buf, i)) tag tmo dur bytes n = Some (emit (length buf) s (buf, i))"
    using room by (auto simp: debug_def Let_def) (metis emit_emit)
  obtain buf' j where "emit (length buf) s (buf, i) = (buf', j)" by (cases "emit (length buf) s (buf, i)")
  with s emit_room [OF room, of s] emit_length [OF room, of s] show ?thesis
    by (auto simp: room_def)
qed

lemma dev_step_inv:
  assumes "dev_step dev dev'" and "dev_inv dev"
  shows "dev_inv dev'"
  using assms
proof cases
  case (logged tag tmo dur bytes n)
  show ?thesis
  proof (cases "dev_debug dev")
    case None
    then show ?thesis using assms(2) logged by (simp add: dev_inv_def debug_def)
  next
    case (Some out)
    moreover obtain buf i where "out = (buf, i)" by (cases out)
    ultimately show ?thesis
      using assms(2) logged debug_inv [of i buf tag tmo dur bytes n] by (auto simp: dev_inv_def)
  qed
qed (auto simp: dev_inv_def tty_open_def tty_adopt_def tty_close_def tty_deinit_def tty_configure_def Let_def
    bind_res_Inr_iff tty_logD_def split: if_split_asm option.splits)

text \<open>
  C40: in every order of calls that return, a device holds a path only while it is open, and its
  debug cursor stays in its buffer; so the checks of \<open>tty_open\<close> and \<open>tty_adopt\<close> pass exactly
  on a device that is not open.
\<close>

theorem device_lifecycle:
  assumes "dev_reachable dev"
  shows "dev_inv dev \<and> (is_ok (tty_open dev path fd) \<longleftrightarrow> dev_fd dev = - 1 \<and> fd \<noteq> - 1) \<and>
    (is_ok (tty_adopt dev fd) \<longleftrightarrow> dev_fd dev = - 1 \<and> fd \<noteq> - 1)"
proof -
  have inv: "dev_inv dev"
    using assms by induction (simp add: dev_inv_def tty_init_def, rule dev_step_inv)
  then show ?thesis by (auto simp: dev_inv_def tty_open_def tty_adopt_def)
qed

theorem device_lifecycle_witness:
  "\<exists>dev. tty_open (tty_init 16) ''/dev/ttyS0'' 3 = Inr dev \<and> \<not> is_ok (tty_open dev ''/dev/ttyS1'' 4)"
proof -
  let ?dev = "(tty_init 16)\<lparr>dev_path := Some ''/dev/ttyS0'', dev_fd := 3\<rparr>"
  have open_dev: "tty_open (tty_init 16) ''/dev/ttyS0'' 3 = Inr ?dev"
    by (simp add: tty_open_def tty_init_def)
  then have "dev_reachable ?dev"
    using dev_reachable.init dev_step.opened dev_reachable.step by blast
  from device_lifecycle [OF this, of "''/dev/ttyS1''" 4] open_dev show ?thesis by simp
qed

end
