(* ===== verification/Linux_Utils.thy ===== *)
theory Linux_Utils
  imports Linux_Device
begin

text \<open>
  The utilities of the Linux build and its tests: pipes, pseudo terminals, buffers, the signal
  handlers, the log level, dumps to files, times, and the functions of \<open>linux/tty.c\<close> that act on the line behind a
  descriptor.

  The file descriptors that are open in the process are a set; a block of the heap is its address and
  its size. What a system call answers is an argument, and a failing one is the fault of its
  \<open>CHECK_ERRNO\<close>. Pointers to structs that the code tests for NULL are left out where no caller passes NULL.
\<close>

section \<open>Descriptors\<close>

text \<open>\<open>close\<close> fails on a descriptor that is not open.\<close>

definition close_fd :: "int set \<Rightarrow> int \<Rightarrow> int set res" where
  "close_fd fds fd = (if fd \<in> fds then Inr (fds - {fd}) else Inl (CheckFailed ''close''))"

record pipe_t =
  p_reader :: int
  p_writer :: int

definition pipe_reset :: "pipe_t \<Rightarrow> pipe_t" where
  "pipe_reset p = p\<lparr>p_reader := - 1, p_writer := - 1\<rparr>"

text \<open>\<open>pipe2\<close> answers with the two ends, or fails.\<close>

definition pipe_open :: "(int \<times> int) option \<Rightarrow> pipe_t \<Rightarrow> int set \<Rightarrow> (pipe_t \<times> int set) res" where
  "pipe_open answer p fds =
     (case answer of
        None \<Rightarrow> Inl (CheckFailed ''gnu_pipe2'')
      | Some (r, w) \<Rightarrow> Inr (p\<lparr>p_reader := r, p_writer := w\<rparr>, insert w (insert r fds)))"

definition pipe_close :: "pipe_t \<Rightarrow> int set \<Rightarrow> (pipe_t \<times> int set) res" where
  "pipe_close p fds =
     bind_res (if - 1 \<noteq> p_reader p then close_fd fds (p_reader p) else Inr fds) (\<lambda>fds.
     let p = p\<lparr>p_reader := - 1\<rparr> in
     bind_res (if - 1 \<noteq> p_writer p then close_fd fds (p_writer p) else Inr fds) (\<lambda>fds.
     Inr (p\<lparr>p_writer := - 1\<rparr>, fds)))"

text \<open>A pipe is closed once: the second call closes nothing.\<close>

lemma pipe_round_trip:
  assumes "r \<noteq> - 1" and "w \<noteq> - 1" and "r \<noteq> w" and "r \<notin> fds" and "w \<notin> fds"
  shows "\<exists>p'. bind_res (pipe_open (Some (r, w)) p fds) (\<lambda>(p, fds). pipe_close p fds) = Inr (p', fds) \<and>
    pipe_close p' fds = Inr (p', fds)"
proof -
  have "insert w (insert r fds) - {r} - {w} = fds" using assms by auto
  with assms show ?thesis
    by (intro exI [of _ "p\<lparr>p_reader := - 1, p_writer := - 1\<rparr>"])
      (simp add: pipe_open_def pipe_close_def close_fd_def)
qed

section \<open>Pseudo terminals\<close>

record tty_pair =
  slave_path :: "string option"
  master_fd :: int

definition tty_pair_init :: tty_pair where
  "tty_pair_init = \<lparr>slave_path = None, master_fd = - 1\<rparr>"

definition tty_pair_deinit :: "tty_pair \<Rightarrow> tty_pair" where
  "tty_pair_deinit pair = pair\<lparr>slave_path := None, master_fd := - 1\<rparr>"

text \<open>What \<open>open\<close>, \<open>grantpt\<close>, \<open>unlockpt\<close> and \<open>ptsname_r\<close> answer.\<close>

record pty_answers =
  pty_fd :: int
  pty_granted :: bool
  pty_unlocked :: bool
  pty_name :: "string option"

definition tty_pair_create :: "pty_answers \<Rightarrow> tty_pair \<Rightarrow> string option \<Rightarrow> int set \<Rightarrow> (tty_pair \<times> int set) res" where
  "tty_pair_create os pair multiplexor fds =
     (if master_fd pair \<noteq> - 1 then Inl (CheckFailed ''-1 == pair->master_fd'')
      else if slave_path pair \<noteq> None then Inl (CheckFailed ''!pair->slave_path'')
      else if multiplexor = None then Inl (CheckFailed ''multiplexor'')
      else let pair = pair\<lparr>master_fd := pty_fd os\<rparr>;
               fds = (if pty_fd os = - 1 then fds else insert (pty_fd os) fds)
        in if \<not> pty_granted os then Inl (CheckFailed ''grantpt'')
        else if \<not> pty_unlocked os then Inl (CheckFailed ''unlockpt'')
        else case pty_name os of
            None \<Rightarrow> Inl (CheckFailed ''ptsname_r'')
          | Some name \<Rightarrow> Inr (pair\<lparr>slave_path := Some name\<rparr>, fds))"

text \<open>\<open>grantpt\<close> refuses a descriptor that is not open, so the missing test of \<open>open\<close> is harmless.\<close>

lemma tty_pair_create_opened:
  assumes "tty_pair_create os tty_pair_init multiplexor fds = Inr (pair, fds')"
    and "pty_granted os \<longrightarrow> pty_fd os \<noteq> - 1"
  shows "master_fd pair = pty_fd os \<and> master_fd pair \<noteq> - 1 \<and> slave_path pair = pty_name os \<and>
    slave_path pair \<noteq> None \<and> fds' = insert (master_fd pair) fds"
  using assms by (auto simp: tty_pair_create_def tty_pair_init_def Let_def split: if_split_asm option.split_asm)

section \<open>Buffers\<close>

text \<open>Addresses are integers, NULL is 0. \<open>sizeof(buf_t)\<close> is that of three pointers of 64 bits.\<close>

record buf_t =
  buf_begin :: int
  buf_end :: int
  buf_curr :: int

definition buf_init :: "int \<Rightarrow> nat \<Rightarrow> buf_t \<Rightarrow> buf_t" where
  "buf_init p sz buf =
     (if p = 0 \<or> sz = 0 then buf else \<lparr>buf_begin = p, buf_end = p + int sz, buf_curr = p\<rparr>)"

definition buf_reset :: "buf_t \<Rightarrow> buf_t" where
  "buf_reset buf = \<lparr>buf_begin = 0, buf_end = 0, buf_curr = 0\<rparr>"

text \<open>\<open>p\<close> is what \<open>malloc\<close> answers. \<open>pbuf\<close> below is the variable behind the argument.\<close>

type_synonym blocks = "int \<rightharpoonup> nat"

definition buf_alloc :: "int \<Rightarrow> nat \<Rightarrow> blocks \<Rightarrow> (buf_t \<times> blocks) res" where
  "buf_alloc p sz heap =
     (if p = 0 then Inl (CheckFailed ''p'')
      else Inr (\<lparr>buf_begin = p + 24, buf_end = p + 24 + int sz, buf_curr = p + 24\<rparr>, heap(p \<mapsto> 24 + sz)))"

definition buf_free :: "int \<Rightarrow> blocks \<Rightarrow> (int \<times> blocks) res" where
  "buf_free pbuf heap =
     (if pbuf = 0 then Inr (pbuf, heap)
      else if heap pbuf = None then Inl (BadWrite Data pbuf)
      else Inr (0, heap(pbuf := None)))"

text \<open>The bytes of a buffer are inside its block, and it can be freed twice through its variable.\<close>

lemma buf_life:
  assumes "buf_alloc p sz heap = Inr (buf, heap')" and "heap p = None"
  shows "buf_end buf - buf_begin buf = int sz \<and> p + 24 \<le> buf_begin buf \<and>
    buf_end buf \<le> p + int (the (heap' p)) \<and>
    buf_free p heap' = Inr (0, heap) \<and> buf_free 0 heap = Inr (0, heap)"
  using assms by (auto simp: buf_alloc_def buf_free_def split: if_split_asm)

section \<open>Signals\<close>

text \<open>The handlers of the process; \<open>ok\<close> says whether \<open>sigaction\<close> succeeds.\<close>

definition set_signal_handler :: "bool \<Rightarrow> int \<Rightarrow> 'h \<Rightarrow> (int \<Rightarrow> 'h) \<Rightarrow> ((int \<Rightarrow> 'h) \<times> 'h) res" where
  "set_signal_handler ok sig_no handler handlers =
     (if ok then Inr (handlers(sig_no := handler), handlers sig_no) else Inl (CheckFailed ''sigaction''))"

definition restore_signal_handler :: "bool \<Rightarrow> int \<Rightarrow> 'h option \<Rightarrow> (int \<Rightarrow> 'h) \<Rightarrow> (int \<Rightarrow> 'h) res" where
  "restore_signal_handler ok sig_no action handlers =
     (case action of
        None \<Rightarrow> Inr handlers
      | Some h \<Rightarrow> if ok then Inr (handlers(sig_no := h)) else Inl (CheckFailed ''sigaction''))"

lemma signal_round_trip:
  "bind_res (set_signal_handler True n h handlers) (\<lambda>(handlers, backup).
     restore_signal_handler True n (Some backup) handlers) = Inr handlers"
  by (simp add: set_signal_handler_def restore_signal_handler_def)

section \<open>The log level\<close>

text \<open>\<open>None\<close> is the end of the process on a value of \<open>LOG_LEVEL\<close> that is not supported.\<close>

definition log_level_init :: "string option \<Rightarrow> int \<Rightarrow> int option" where
  "log_level_init env curr_log_level =
     (case env of
        None \<Rightarrow> Some curr_log_level
      | Some s \<Rightarrow>
          if s = ''ERROR'' then Some 0 else if s = ''WARN'' then Some 1 else if s = ''INFO'' then Some 2
          else if s = ''DEBUG'' then Some 3 else if s = ''TRACE'' then Some 4 else None)"

definition initial_log_level :: int where "initial_log_level = 2"

text \<open>The level of the process: initialised once, at the first use.\<close>

definition current_log_level :: "string option \<Rightarrow> int option" where
  "current_log_level env = log_level_init env initial_log_level"

datatype log_level_t = LOG_LEVEL_ERROR | LOG_LEVEL_WARNING | LOG_LEVEL_INFO | LOG_LEVEL_DEBUG | LOG_LEVEL_TRACE

fun log_level_num :: "log_level_t \<Rightarrow> int" where
  "log_level_num LOG_LEVEL_ERROR = 0"
| "log_level_num LOG_LEVEL_WARNING = 1"
| "log_level_num LOG_LEVEL_INFO = 2"
| "log_level_num LOG_LEVEL_DEBUG = 3"
| "log_level_num LOG_LEVEL_TRACE = 4"

text \<open>\<open>LOG_IF_IMPL\<close>: whether a message of a level is printed.\<close>

definition LOG_IF_IMPL :: "int \<Rightarrow> log_level_t \<Rightarrow> bool" where
  "LOG_IF_IMPL current level = (\<not> current < log_level_num level)"

text \<open>Errors are always printed; without \<open>LOG_LEVEL\<close> so are warnings and informations, and no more.\<close>

lemma log_levels:
  assumes "current_log_level env = Some l"
  shows "LOG_IF_IMPL l LOG_LEVEL_ERROR"
    and "env = None \<Longrightarrow> LOG_IF_IMPL l lv \<longleftrightarrow> lv \<in> {LOG_LEVEL_ERROR, LOG_LEVEL_WARNING, LOG_LEVEL_INFO}"
  using assms
  by (auto simp: current_log_level_def log_level_init_def initial_log_level_def LOG_IF_IMPL_def
      split: option.split_asm if_split_asm) (cases lv; simp)+

section \<open>Files\<close>

text \<open>
  The files by their names. \<open>ndebug\<close> says whether the build defines \<open>NDEBUG\<close>, which removes every
  \<open>assert\<close>; \<open>opened\<close> whether \<open>fopen\<close> succeeds, which empties the file, and \<open>capacity\<close> how many
  bytes \<open>fwrite\<close> can write.
\<close>

definition assert_that :: "bool \<Rightarrow> bool \<Rightarrow> string \<Rightarrow> unit res" where
  "assert_that ndebug c what = (if ndebug \<or> c then Inr () else Inl (CheckFailed what))"

definition dump_to_file :: "bool \<Rightarrow> bool \<Rightarrow> nat \<Rightarrow> string option \<Rightarrow> u8 list option \<Rightarrow> nat
    \<Rightarrow> (string \<rightharpoonup> u8 list) \<Rightarrow> (string \<rightharpoonup> u8 list) res" where
  "dump_to_file ndebug opened capacity name data sz files =
     bind_res (assert_that ndebug (name \<noteq> None) ''name'') (\<lambda>_.
     bind_res (assert_that ndebug (data \<noteq> None) ''data'') (\<lambda>_.
     bind_res (assert_that ndebug (sz \<noteq> 0) ''size'') (\<lambda>_.
     case (name, data) of
       (Some name, Some data) \<Rightarrow>
         if sz = 0 then Inr files
         else bind_res (assert_that ndebug opened ''file'') (\<lambda>_.
              if \<not> opened then Inr files
              else let written = min sz capacity in
                   bind_res (load_from data 0 written) (\<lambda>bs.
                   bind_res (assert_that ndebug (written = sz) ''written == size'') (\<lambda>_.
                   Inr (files(name \<mapsto> bs)))))
     | _ \<Rightarrow> Inr files)))"

text \<open>
  With its asserts a dump that returns has written the file whole; without them it changes no
  other file, and on bad arguments none.
\<close>

lemma dump_to_file_whole:
  assumes "dump_to_file False opened capacity name data sz files = Inr files'" and "sz \<le> length (the data)"
  shows "name \<noteq> None \<and> 0 < sz \<and> files' = files(the name \<mapsto> take sz (the data))"
  using assms load_from_ok [of 0 sz "the data"]
  by (auto simp: dump_to_file_def assert_that_def Let_def bind_res_Inr_iff min_def split: option.split_asm if_split_asm)

lemma dump_to_file_other:
  assumes "dump_to_file ndebug opened capacity name data sz files = Inr files'"
  shows "f \<noteq> the name \<Longrightarrow> files' f = files f" and "name = None \<or> data = None \<or> sz = 0 \<or> \<not> opened \<Longrightarrow> files' = files"
  using assms
  by (auto simp: dump_to_file_def assert_that_def Let_def bind_res_Inr_iff split: option.split_asm if_split_asm)

section \<open>Times\<close>

text \<open>A \<open>struct timespec\<close>; the sums are those of \<open>int64_t\<close>, with their bounds below.\<close>

record timespec =
  tv_sec :: int
  tv_nsec :: int

definition timestamp_ns :: "timespec \<Rightarrow> int" where
  "timestamp_ns ts = tv_sec ts * 1000000000 + tv_nsec ts"

definition timespec_to_us :: "timespec \<Rightarrow> int" where
  "timespec_to_us v = tv_sec v * 1000000 + tv_nsec v sdiv 1000"

definition timespec_to_ms :: "timespec \<Rightarrow> int" where
  "timespec_to_ms v = timespec_to_us v sdiv 1000"

text \<open>
  From 1970 on, with less than a second of nanoseconds, the conversions agree with each other,
  and none overflows for the first 292 years.
\<close>

lemma sdiv_nonneg: "0 \<le> a \<Longrightarrow> 0 \<le> b \<Longrightarrow> a sdiv b = a div b" for a b :: int
  by (cases "a = 0"; cases "b = 0") (simp_all add: signed_divide_int_def)

lemma times_agree:
  assumes "0 \<le> tv_sec t" and "0 \<le> tv_nsec t" and "tv_nsec t < 1000000000"
  shows "timestamp_ns t sdiv 1000 = timespec_to_us t" and "timespec_to_ms t = timestamp_ns t sdiv 1000000"
    and "tv_sec t \<le> 9223372035 \<Longrightarrow> timestamp_ns t < 2 ^ 63"
proof -
  have us: "timespec_to_us t = timestamp_ns t div 1000"
    using assms by (simp add: timespec_to_us_def timestamp_ns_def sdiv_nonneg)
  then show "timestamp_ns t sdiv 1000 = timespec_to_us t"
    using assms by (simp add: timestamp_ns_def sdiv_nonneg)
  have "0 \<le> timestamp_ns t" using assms by (simp add: timestamp_ns_def)
  with us show "timespec_to_ms t = timestamp_ns t sdiv 1000000"
    by (simp add: timespec_to_ms_def sdiv_nonneg zdiv_zmult2_eq [symmetric] pos_imp_zdiv_nonneg_iff)
  assume "tv_sec t \<le> 9223372035"
  then show "timestamp_ns t < 2 ^ 63" using assms(3) by (simp add: timestamp_ns_def)
qed

section \<open>The line behind a descriptor\<close>

text \<open>What the kernel holds for a line; \<open>ok\<close> says whether the system call succeeds.\<close>

record line =
  rx_queue :: "u8 list"
  tx_queue :: "u8 list"
  transmitted :: "u8 list"
  exclusive :: bool

definition on_line :: "string \<Rightarrow> (line \<Rightarrow> line) \<Rightarrow> int \<Rightarrow> bool \<Rightarrow> line \<Rightarrow> line res" where
  "on_line what f fd ok l =
     (if fd = - 1 then Inr l else if \<not> ok then Inl (CheckFailed what) else Inr (f l))"

definition tty_flush_rx :: "int \<Rightarrow> bool \<Rightarrow> line \<Rightarrow> line res" where
  "tty_flush_rx = on_line ''tcflush'' (\<lambda>l. l\<lparr>rx_queue := []\<rparr>)"

definition tty_flush_tx :: "int \<Rightarrow> bool \<Rightarrow> line \<Rightarrow> line res" where
  "tty_flush_tx = on_line ''tcflush'' (\<lambda>l. l\<lparr>tx_queue := []\<rparr>)"

definition tty_flush :: "int \<Rightarrow> bool \<Rightarrow> line \<Rightarrow> line res" where
  "tty_flush = on_line ''tcflush'' (\<lambda>l. l\<lparr>rx_queue := [], tx_queue := []\<rparr>)"

definition tty_drain :: "int \<Rightarrow> bool \<Rightarrow> line \<Rightarrow> line res" where
  "tty_drain = on_line ''tcdrain'' (\<lambda>l. l\<lparr>tx_queue := [], transmitted := transmitted l @ tx_queue l\<rparr>)"

definition tty_exclusive_on :: "int \<Rightarrow> bool \<Rightarrow> line \<Rightarrow> line res" where
  "tty_exclusive_on = on_line ''ioctl'' (\<lambda>l. l\<lparr>exclusive := True\<rparr>)"

definition tty_exclusive_off :: "int \<Rightarrow> bool \<Rightarrow> line \<Rightarrow> line res" where
  "tty_exclusive_off = on_line ''ioctl'' (\<lambda>l. l\<lparr>exclusive := False\<rparr>)"

text \<open>\<open>current\<close> is what the line has; a descriptor that is closed leaves \<open>config\<close> alone.\<close>

definition tty_get_term_config :: "int \<Rightarrow> bool \<Rightarrow> termios \<Rightarrow> termios \<Rightarrow> termios res" where
  "tty_get_term_config fd ok current config =
     (if fd = - 1 then Inr config else if \<not> ok then Inl (CheckFailed ''tcgetattr'') else Inr current)"

text \<open>To flush both queues is to flush one after the other; after draining nothing is lost.\<close>

lemma flush_both: "bind_res (tty_flush_rx fd ok l) (tty_flush_tx fd ok) = tty_flush fd ok l"
  by (simp add: tty_flush_rx_def tty_flush_tx_def tty_flush_def on_line_def)

lemma drain_then_flush:
  "bind_res (tty_drain fd True l) (tty_flush_tx fd True) = tty_drain fd True l"
  by (simp add: tty_drain_def tty_flush_tx_def on_line_def)

end
