(* ===== verification/Linux_Main.thy ===== *)
theory Linux_Main
  imports Linux_Utils Linux_Properties
begin

text \<open>
  The slave program, \<open>linux/rtu_main.c\<close>: its options, the set-up of its device, and the run.

  \<open>getopt\<close> is given by the list of the options it returns, each with its \<open>optarg\<close>; the
  build defines \<open>RTU_MEMORY_ADDR\<close> and \<open>RTU_MEMORY_SIZE\<close>. What \<open>malloc\<close>, \<open>open\<close>, the lock
  of the line, \<open>tcsetattr\<close>, \<open>tcgetattr\<close> and the flush answer is an argument; \<open>strdup\<close>
  succeeds.
\<close>

section \<open>Options\<close>

text \<open>\<open>atoi\<close> of the C library: the number of a text. It is undefined where the number is not an \<open>int\<close>.\<close>

fun digits :: "int \<Rightarrow> string \<Rightarrow> int" where
  "digits n [] = n"
| "digits n (c # cs) =
     (if 48 \<le> (of_char c :: nat) \<and> (of_char c :: nat) \<le> 57 then digits (10 * n + (of_char c - 48)) cs else n)"

definition atoi :: "string \<Rightarrow> int" where
  "atoi s =
     (let s = dropWhile (\<lambda>c. (of_char c :: nat) = 32 \<or> 9 \<le> (of_char c :: nat) \<and> (of_char c :: nat) \<le> 13) s
      in case s of [] \<Rightarrow> 0
         | c # cs \<Rightarrow> if c = CHR ''-'' then - digits 0 cs else if c = CHR ''+'' then digits 0 cs else digits 0 s)"

record main_opts =
  o_path :: "string option"
  o_rate :: speed_t
  o_parity :: parity_t
  o_debug_size :: int
  o_addr :: int
  o_timeout_1t5 :: int
  o_timeout_3t5 :: int

definition default_opts :: main_opts where
  "default_opts = \<lparr>o_path = None, o_rate = B19200, o_parity = PARITY_even, o_debug_size = 0, o_addr = - 1,
     o_timeout_1t5 = - 1, o_timeout_3t5 = - 1\<rparr>"

text \<open>\<open>help\<close> ends the process: with a message the status is \<open>EXIT_FAILURE\<close>.\<close>

definition help_exit :: "string option \<Rightarrow> int" where
  "help_exit message = (if message = None then 0 else 1)"

text \<open>The table of rates that it prints: name, 1.5t and 3.5t.\<close>

definition help_rates :: "(string \<times> int res \<times> int res) list" where
  "help_rates = map (\<lambda>(r, s). (s, calc_1t5_us r, calc_3t5_us r)) (zip supported_rates supported_rates_str)"

definition num_arg :: "int \<Rightarrow> string option \<Rightarrow> int" where
  "num_arg other optarg = (case optarg of None \<Rightarrow> other | Some s \<Rightarrow> atoi s)"

definition arg_fits :: "string option \<Rightarrow> bool" where
  "arg_fits optarg = (case optarg of None \<Rightarrow> True | Some s \<Rightarrow> - (2 ^ 31) \<le> atoi s \<and> atoi s < 2 ^ 31)"

text \<open>
  The \<open>switch\<close> on an option and the loop; \<open>Inl\<close> is a process that has ended with a status, or whose
  behaviour is undefined.
\<close>

datatype stop = Status int | Undefined

definition apply_option :: "char \<Rightarrow> string option \<Rightarrow> main_opts \<Rightarrow> stop + main_opts" where
  "apply_option c optarg opts =
     (if c \<in> {CHR ''D'', CHR ''T'', CHR ''a'', CHR ''t''} \<and> \<not> arg_fits optarg then Inl Undefined
      else if c = CHR ''D'' then Inr (opts\<lparr>o_debug_size := num_arg 0 optarg\<rparr>)
      else if c = CHR ''T'' then Inr (opts\<lparr>o_timeout_3t5 := num_arg (- 1) optarg\<rparr>)
      else if c = CHR ''a'' then Inr (opts\<lparr>o_addr := num_arg (- 1) optarg\<rparr>)
      else if c = CHR ''d'' then Inr (opts\<lparr>o_path := optarg\<rparr>)
      else if c = CHR ''h'' then Inl (Status (help_exit None))
      else if c = CHR ''p'' then Inr (opts\<lparr>o_parity := parse_parity optarg\<rparr>)
      else if c = CHR ''r'' then Inr (opts\<lparr>o_rate := parse_speed optarg\<rparr>)
      else if c = CHR ''t'' then Inr (opts\<lparr>o_timeout_1t5 := num_arg (- 1) optarg\<rparr>)
      else Inl (Status (help_exit (Some ''geopt() failure''))))"

fun parse_options :: "(char \<times> string option) list \<Rightarrow> main_opts \<Rightarrow> stop + main_opts" where
  "parse_options [] opts = Inr opts"
| "parse_options ((c, optarg) # args) opts =
     (case apply_option c optarg opts of Inl e \<Rightarrow> Inl e | Inr opts \<Rightarrow> parse_options args opts)"

section \<open>The program\<close>

text \<open>
  From the memory to \<open>tty_flush\<close>. The address is converted to \<open>uint8_t\<close> and the size of
  the debug buffer to \<open>size_t\<close>, modulo their ranges. What the system answers on the way, in order:
\<close>

record answers =
  got_memory :: bool
  got_fd :: int
  locked :: bool
  set_ok :: bool
  read_back :: termios
  flushed :: bool

definition main_setup :: "u16 \<Rightarrow> u16 \<Rightarrow> main_opts \<Rightarrow> string \<Rightarrow> answers \<Rightarrow> line
    \<Rightarrow> (tty_dev \<times> line \<times> rtu_memory_impl) res" where
  "main_setup mem_addr mem_size opts path ans l =
     (let mi = rtu_memory_impl_init mem_addr mem_size (rtu_memory_impl_clear (unat mem_size));
          mi = mi\<lparr>self_addr := word_of_int (o_addr opts)\<rparr>
      in bind_res (tty_init_alloc (got_memory ans) (nat (o_debug_size opts mod 2 ^ 64))) (\<lambda>dev.
         bind_res (tty_open dev path (got_fd ans)) (\<lambda>dev.
         bind_res (tty_exclusive_on (dev_fd dev) (locked ans) l) (\<lambda>l.
         bind_res (tty_configure dev (o_rate opts) (o_parity opts) DATA_BITS_8
           (if PARITY_none = o_parity opts then STOP_BITS_2 else STOP_BITS_1) (set_ok ans) (read_back ans)) (\<lambda>dev.
         bind_res (tty_flush (dev_fd dev) (flushed ans) l) (\<lambda>l.
         Inr (dev, l, mi)))))))"

text \<open>The process has ended with a status or is undefined, or \<open>modbus_rtu_run\<close> has made \<open>n\<close> rounds.\<close>

datatype outcome = Stops stop | Runs "(rtu_impl modbus_rtu_state \<times> bool) res"

definition slave_main :: "u16 \<Rightarrow> u16 \<Rightarrow> (char \<times> string option) list \<Rightarrow> answers \<Rightarrow> line \<Rightarrow> nat \<Rightarrow> os \<Rightarrow> outcome" where
  "slave_main mem_addr mem_size args ans l n w =
     (case parse_options args default_opts of
        Inl e \<Rightarrow> Stops e
      | Inr opts \<Rightarrow>
          (case o_path opts of
             None \<Rightarrow> Stops (Status (help_exit (Some ''device path missing'')))
           | Some path \<Rightarrow>
               if o_addr opts = - 1 then Stops (Status (help_exit (Some ''address missing'')))
               else Runs (bind_res (main_setup mem_addr mem_size opts path ans l) (\<lambda>(dev, l, mi).
                    modbus_rtu_run n w (o_rate opts) (o_timeout_1t5 opts) (o_timeout_3t5 opts) mi False))))"

section \<open>Rates in order\<close>

text \<open>Rates are ordered by their bits per second.\<close>

instantiation speed_t :: linorder
begin

definition bps_of :: "speed_t \<Rightarrow> int" where
  "bps_of r = (case tty_bps r of Inl e \<Rightarrow> 0 | Inr bps \<Rightarrow> bps)"

definition less_eq_speed_t :: "speed_t \<Rightarrow> speed_t \<Rightarrow> bool" where
  "r \<le> r' \<longleftrightarrow> bps_of r \<le> bps_of r'"

definition less_speed_t :: "speed_t \<Rightarrow> speed_t \<Rightarrow> bool" where
  "r < r' \<longleftrightarrow> bps_of r < bps_of r'"

instance
proof
  fix r r' :: speed_t
  assume "r \<le> r'" "r' \<le> r"
  then show "r = r'" by (cases r; cases r') (simp_all add: less_eq_speed_t_def bps_of_def)
qed (auto simp: less_eq_speed_t_def less_speed_t_def)

end

text \<open>The table goes up in rate, and the intervals of a higher rate are not longer.\<close>

lemma supported_rates_sorted: "sorted_wrt (<) supported_rates"
  by (simp add: supported_rates_def less_speed_t_def bps_of_def)

lemma intervals_antimono:
  assumes "r \<le> r'" and "r \<noteq> B0"
  shows "\<exists>t1 t3 t1' t3'. calc_1t5_us r = Inr t1 \<and> calc_1t5_us r' = Inr t1' \<and> t1' \<le> t1 \<and>
    calc_3t5_us r = Inr t3 \<and> calc_3t5_us r' = Inr t3' \<and> t3' \<le> t3"
  using assms
  by (cases r; cases r')
    (simp_all add: less_eq_speed_t_def bps_of_def calc_1t5_us_def calc_3t5_us_def signed_divide_int_def)

section \<open>What it does\<close>

lemma find_rate_in: "find_rate s rs = B19200 \<or> find_rate s rs \<in> fst ` set rs"
  by (induction s rs rule: find_rate.induct) auto

lemma parse_speed_supported: "parse_speed s \<in> set supported_rates"
proof -
  have "B19200 \<in> set supported_rates" by (simp add: supported_rates_def)
  moreover have "fst ` set (zip supported_rates supported_rates_str) \<subseteq> set supported_rates"
    by (auto dest: set_zip_leftD)
  ultimately show ?thesis
    using find_rate_in [of "the s" "zip supported_rates supported_rates_str"]
    by (cases s) (auto simp: parse_speed_def)
qed

lemma supported_not_B0: "r \<in> set supported_rates \<Longrightarrow> r \<noteq> B0"
  by (auto simp: supported_rates_def)

text \<open>Whatever the options, the rate of the slave is one of the table.\<close>

lemma apply_option_rate:
  "apply_option c optarg opts = Inr opts' \<Longrightarrow> o_rate opts \<in> set supported_rates \<Longrightarrow> o_rate opts' \<in> set supported_rates"
  unfolding apply_option_def using parse_speed_supported [of optarg]
  by (auto split: if_split_asm)

lemma parse_options_rate:
  "parse_options args opts = Inr opts' \<Longrightarrow> o_rate opts \<in> set supported_rates \<Longrightarrow> o_rate opts' \<in> set supported_rates"
  by (induction args opts rule: parse_options.induct) (auto dest: apply_option_rate split: sum.splits)

text \<open>The memory the slave starts with.\<close>

definition main_memory :: "u16 \<Rightarrow> u16 \<Rightarrow> int \<Rightarrow> rtu_memory_impl" where
  "main_memory a n addr = \<lparr>self_addr = word_of_int addr, impl_memory =
     \<lparr>addr_begin = a, addr_end = a + n, mem_bytes = replicate (unat n) 0\<rparr>\<rparr>"

text \<open>Every call of the set-up succeeds, and the settings are read back as they were set.\<close>

definition answers_good :: "main_opts \<Rightarrow> answers \<Rightarrow> bool" where
  "answers_good opts ans =
     (got_memory ans \<and> got_fd ans \<noteq> - 1 \<and> locked ans \<and> set_ok ans \<and>
      read_back ans = main_term no_termios (o_rate opts) (o_parity opts) \<and> flushed ans)"

lemma main_setup_ok:
  assumes "answers_good opts ans"
  shows "\<exists>dev. main_setup a n opts path ans l =
      Inr (dev, l\<lparr>exclusive := True, rx_queue := [], tx_queue := []\<rparr>, main_memory a n (o_addr opts)) \<and>
    dev_fd dev = got_fd ans \<and> dev_config dev = main_term no_termios (o_rate opts) (o_parity opts)"
  using assms
  by (simp add: answers_good_def main_setup_def Let_def tty_init_alloc_def tty_open_def tty_init_def tty_configure_def
      tty_set_term_config_def main_term_def tty_exclusive_on_def tty_flush_def on_line_def
      rtu_memory_impl_init_def rtu_memory_impl_clear_def main_memory_def)

text \<open>Otherwise the first call that fails ends the process; \<open>-D -1\<close> asks for 2^64 - 1 bytes.\<close>

lemma main_setup_fails:
  assumes "got_memory ans" and "\<not> answers_good opts ans"
  shows "\<exists>what \<in> {''open'', ''ioctl'', ''tcsetattr'', ''memcmp'', ''tcflush''}. main_setup a n opts path ans l = Inl (CheckFailed what)"
  using assms
  by (auto simp: answers_good_def main_setup_def Let_def tty_init_alloc_def tty_open_def tty_init_def tty_configure_def
      tty_set_term_config_def main_term_def tty_exclusive_on_def tty_flush_def on_line_def)

lemma main_setup_no_memory:
  assumes "\<not> got_memory ans" and "o_debug_size opts = - 1"
  shows "main_setup a n opts path ans l = Inl (CheckFailed ''malloc'')"
  using assms by (simp add: main_setup_def Let_def tty_init_alloc_def)

section \<open>Properties\<close>

text \<open>
  C38: the program with options that \<open>getopt\<close> accepts and whose numbers are \<open>int\<close>s. Without a
  device or an address it exits with status 1. With both, when every call of its set-up succeeds (memory for
  the debug buffer, the device opens, is locked, takes its settings and gives them back, is flushed) and the
  interval of 1.5t, of the rate or of \<open>-t\<close>, is not that of 3.5t, of the rate or of \<open>-T\<close>, it runs the
  slave: at a rate of the table, with the address modulo 256 and a cleared memory. No run of it ends in a
  failed check of a timer, and the state machine keeps its invariant in every round.
\<close>

theorem program_runs_slave:
  assumes "parse_options args default_opts = Inr opts" and "answers_good opts ans"
    and "intervals_differ (o_rate opts) (o_timeout_1t5 opts) (o_timeout_3t5 opts)"
  shows "if o_path opts = None \<or> o_addr opts = - 1 then slave_main a n args ans l k w = Stops (Status 1)
    else \<exists>run. slave_main a n args ans l k w = Runs run \<and>
      run = modbus_rtu_run k w (o_rate opts) (o_timeout_1t5 opts) (o_timeout_3t5 opts) (main_memory a n (o_addr opts)) False \<and>
      o_rate opts \<in> set supported_rates \<and> harmless run \<and> (\<forall>s stop. run = Inr (s, stop) \<longrightarrow> rtu_inv impl_mode impl_ok s)"
proof (cases "o_path opts = None \<or> o_addr opts = - 1")
  case True
  then show ?thesis by (auto simp: slave_main_def assms(1) help_exit_def split: option.splits)
next
  case False
  let ?run = "modbus_rtu_run k w (o_rate opts) (o_timeout_1t5 opts) (o_timeout_3t5 opts) (main_memory a n (o_addr opts)) False"
  have "o_rate default_opts \<in> set supported_rates" by (simp add: default_opts_def supported_rates_def)
  with assms(1) have rate: "o_rate opts \<in> set supported_rates" by (rule parse_options_rate)
  have inv: "rtu_inv impl_mode impl_ok s" if "?run = Inr (s, stop)" for s stop
  proof -
    from that obtain t where "run_start w (o_rate opts) (o_timeout_1t5 opts) (o_timeout_3t5 opts) (main_memory a n (o_addr opts)) = Inr t"
        "run_rounds k False t = Inr (s, stop)"
      by (auto simp: modbus_rtu_run_def bind_res_Inr_iff)
    then show ?thesis using run_rounds_inv run_start_inv [OF assms(3)] by blast
  qed
  obtain path where "o_path opts = Some path" using False by auto
  moreover from main_setup_ok [OF assms(2), of a n path l] obtain dev l' where
    "main_setup a n opts path ans l = Inr (dev, l', main_memory a n (o_addr opts))" by blast
  ultimately have "slave_main a n args ans l k w = Runs ?run"
    using False by (simp add: slave_main_def assms(1))
  with False rate inv modbus_rtu_run_harmless [OF assms(3)] show ?thesis by auto
qed

theorem program_runs_slave_witness:
  "\<exists>r. slave_main 0x1000 16
      [(CHR ''a'', Some ''263''), (CHR ''d'', Some ''/dev/ttyS0''), (CHR ''r'', Some ''9600''), (CHR ''p'', Some ''N''), (CHR ''t'', Some ''1500'')]
      \<lparr>got_memory = True, got_fd = 3, locked = True, set_ok = True, read_back = main_term no_termios B9600 PARITY_none, flushed = True\<rparr>
      \<lparr>rx_queue = [1], tx_queue = [], transmitted = [], exclusive = False\<rparr> 3 (demo_os (sconst 0) []) = Runs r \<and>
    r = modbus_rtu_run 3 (demo_os (sconst 0) []) B9600 1500 (- 1) \<lparr>self_addr = 7, impl_memory =
      \<lparr>addr_begin = 0x1000, addr_end = 0x1010, mem_bytes = replicate 16 0\<rparr>\<rparr> False \<and> harmless r"
proof -
  let ?args = "[(CHR ''a'', Some ''263''), (CHR ''d'', Some ''/dev/ttyS0''), (CHR ''r'', Some ''9600''), (CHR ''p'', Some ''N''), (CHR ''t'', Some ''1500'')]"
  let ?opts = "default_opts\<lparr>o_path := Some ''/dev/ttyS0'', o_rate := B9600, o_parity := PARITY_none, o_addr := 263, o_timeout_1t5 := 1500\<rparr>"
  let ?ans = "\<lparr>got_memory = True, got_fd = 3, locked = True, set_ok = True, read_back = main_term no_termios B9600 PARITY_none, flushed = True\<rparr>"
  let ?l = "\<lparr>rx_queue = [1], tx_queue = [], transmitted = [], exclusive = False\<rparr>"
  have "parse_options ?args default_opts = Inr ?opts"
    by (simp add: apply_option_def arg_fits_def num_arg_def atoi_def parse_speed_def parse_parity_def supported_rates_def supported_rates_str_def default_opts_def)
  moreover have "main_memory 0x1000 16 263 = \<lparr>self_addr = 7, impl_memory =
      \<lparr>addr_begin = 0x1000, addr_end = 0x1010, mem_bytes = replicate 16 0\<rparr>\<rparr>"
    by (simp add: main_memory_def)
  moreover have "answers_good ?opts ?ans" by (simp add: answers_good_def)
  moreover have "intervals_differ B9600 1500 (- 1)"
    by (simp add: intervals_differ_def run_intervals_def calc_3t5_us_def signed_divide_int_def)
  ultimately show ?thesis
    using program_runs_slave [where args = ?args and opts = ?opts and ans = ?ans and l = ?l and a = "0x1000" and n = 16 and k = 3
        and w = "demo_os (sconst 0) []"]
    by (simp add: default_opts_def)
qed

end
