(* ===== verification/Linux_Rounds.thy ===== *)
theory Linux_Rounds
  imports Linux_Properties Linux_Exchange
begin

text \<open>
  The rounds of the loop of \<open>modbus_rtu_run\<close>, with the time stamps they read and the system calls they
  make: rounds in which nothing arrives, in which \<open>tty_read_ll\<close> tries, sleeps and tries again, and
  rounds that read a piece of a frame. The lemmas take the slave through the pieces of a frame, the silences
  of 1.5t and 3.5t after it, its processing, and the silence after a reply.
\<close>

section \<open>Rounds of the loop\<close>

definition run_round :: "bool \<Rightarrow> rtu_impl modbus_rtu_state \<Rightarrow> (rtu_impl modbus_rtu_state \<times> bool) res" where
  "run_round ue s = bind_res (recv_impl ue s) (\<lambda>(s, stop). bind_res (timeout_impl s) (\<lambda>s. Inr (s, stop)))"

lemma run_rounds_Suc:
  "run_rounds (Suc n) ue s = bind_res (run_round ue s) (\<lambda>(s, stop). if stop then Inr (s, True) else run_rounds n ue s)"
  by (auto simp: run_round_def bind_res_assoc split_beta intro!: bind_res_cong)

text \<open>The slave when its line goes on with \<open>cs\<close> and its clock with \<open>c\<close>.\<close>

definition moved :: "syscall list \<Rightarrow> int stream \<Rightarrow> rtu_impl modbus_rtu_state \<Rightarrow> rtu_impl modbus_rtu_state" where
  "moved cs c s = s\<lparr>user_data := (user_data s)\<lparr>dev := (dev (user_data s))\<lparr>calls := cs, clock := c\<rparr>\<rparr>\<rparr>"

lemma moved_moved [simp]: "moved cs c (moved cs' c' s) = moved cs c s"
  by (simp add: moved_def)

lemma moved_simps [simp]:
  "timeout_us (user_data (moved cs c s)) = timeout_us (user_data s)"
  "timestamp (user_data (moved cs c s)) = timestamp (user_data s)"
  "calls (dev (user_data (moved cs c s))) = cs" "clock (dev (user_data (moved cs c s))) = c"
  "timer_cb (moved cs c s) = timer_cb s"
  by (simp_all add: moved_def)

section \<open>Attempts to read\<close>

text \<open>
  An attempt of \<open>tty_read_ll\<close> that finds no byte: whether the \<open>usleep\<close> in front of it was
  interrupted, whether its \<open>read\<close> was, and the reading of the clock behind it. \<open>usleep\<close> is
  called once \<open>elapsed_us\<close> is not 0.
\<close>

record attempt =
  woken :: bool
  intr :: bool
  after :: int

definition nap :: "int \<Rightarrow> bool \<Rightarrow> syscall list" where
  "nap e b = (if e = 0 then [] else if b then [Usleep_err True] else [Usleep_ret])"

fun attempt_calls :: "int \<Rightarrow> int \<Rightarrow> attempt list \<Rightarrow> syscall list" where
  "attempt_calls start e [] = []"
| "attempt_calls start e (a # as) =
     nap e (woken a) @ (if intr a then Read_err True else Read_ret []) # attempt_calls start (e + (after a - start)) as"

text \<open>\<open>elapsed_us\<close> behind the attempts, and that it was less than \<open>d\<close> in front of each.\<close>

fun spent :: "int \<Rightarrow> int \<Rightarrow> attempt list \<Rightarrow> int" where
  "spent start e [] = e"
| "spent start e (a # as) = spent start (e + (after a - start)) as"

fun trying :: "int \<Rightarrow> int \<Rightarrow> int \<Rightarrow> attempt list \<Rightarrow> bool" where
  "trying d start e [] = True"
| "trying d start e (a # as) = (e < d \<and> trying d start (e + (after a - start)) as)"

lemmas call_defs = nap_def sys_usleep_def sys_read_def validate_syscall_result_def timestamp_us_def

lemma read_ll_attempt:
  assumes "e < d"
  shows "tty_read_ll_loop (w\<lparr>calls := nap e (woken a) @ (if intr a then Read_err True else Read_ret []) # cs, clock := after a ## c\<rparr>) buf d start e
    = tty_read_ll_loop (w\<lparr>calls := cs, clock := c\<rparr>) buf d start (e + (after a - start))"
  using assms by (subst tty_read_ll_loop.simps) (simp add: call_defs)

lemma read_ll_attempts:
  "trying d start e as \<Longrightarrow>
   tty_read_ll_loop (w\<lparr>calls := attempt_calls start e as @ cs, clock := map after as @- c\<rparr>) buf d start e
   = tty_read_ll_loop (w\<lparr>calls := cs, clock := c\<rparr>) buf d start (spent start e as)"
proof (induction as arbitrary: e)
  case (Cons a as)
  then show ?case
    using read_ll_attempt [where e = e and d = d and w = w and a = a and cs = "attempt_calls start (e + (after a - start)) as @ cs" and c = "map after as @- c" and buf = buf and start = start] by simp
qed simp

lemma tty_read_ll_tries:
  assumes "trying d start 0 as" and "calls w = attempt_calls start 0 as @ cs" and "clock w = start ## map after as @- c"
  shows "tty_read_ll w buf d = tty_read_ll_loop (w\<lparr>calls := cs, clock := c\<rparr>) buf d start (spent start 0 as)"
proof -
  have "timestamp_us w = (start, w\<lparr>calls := attempt_calls start 0 as @ cs, clock := map after as @- c\<rparr>)"
    using assms(2,3) by (cases w) (simp add: timestamp_us_def)
  with read_ll_attempts [OF assms(1)] show ?thesis by (simp add: tty_read_ll_def)
qed

lemma read_ll_data:
  assumes "e < d" and "bs \<noteq> []" and "length bs \<le> length buf"
  shows "tty_read_ll_loop (w\<lparr>calls := nap e b @ Read_ret bs # cs, clock := c\<rparr>) buf d start e = Inr (w\<lparr>calls := cs, clock := c\<rparr>, overwrite buf 0 bs, int (length bs))"
  using assms store_from_ok [of 0 bs buf]
  by (subst tty_read_ll_loop.simps) (simp add: call_defs Let_def)

section \<open>Rounds without a byte\<close>

text \<open>
  A round of the loop in which the timer runs and nothing is read: the reading at the start of
  \<open>tty_read_ll\<close>, its attempts, and the reading of \<open>timeout_impl\<close>.
\<close>

record idle_round =
  begun :: int
  tries :: "attempt list"
  ended :: int

definition idle_calls :: "idle_round list \<Rightarrow> syscall list" where
  "idle_calls xs = concat (map (\<lambda>x. attempt_calls (begun x) 0 (tries x)) xs)"

definition idle_clock :: "idle_round list \<Rightarrow> int list" where
  "idle_clock xs = concat (map (\<lambda>x. begun x # map after (tries x) @ [ended x]) xs)"

definition idle_ok :: "int \<Rightarrow> idle_round \<Rightarrow> bool" where
  "idle_ok d x = (trying d (begun x) 0 (tries x) \<and> d \<le> spent (begun x) 0 (tries x))"

text \<open>
  Rounds that end before the timer, which runs from \<open>t\<close>, has elapsed; and a silence of \<open>m\<close>, in the
  last round of which the timer of \<open>d\<close> has elapsed. \<open>tty_read_ll\<close> adds the time since its start
  again in every attempt, so a silence can take several rounds.
\<close>

definition waiting :: "int \<Rightarrow> int \<Rightarrow> idle_round list \<Rightarrow> bool" where
  "waiting d t xs = list_all (\<lambda>x. idle_ok d x \<and> ended x - t < d) xs"

definition silent_for :: "int \<Rightarrow> int \<Rightarrow> int \<Rightarrow> idle_round list \<Rightarrow> bool" where
  "silent_for m d t xs = (xs \<noteq> [] \<and> waiting d t (butlast xs) \<and> idle_ok d (last xs) \<and> m \<le> ended (last xs) - t)"

abbreviation silent :: "int \<Rightarrow> int \<Rightarrow> idle_round list \<Rightarrow> bool" where
  "silent d \<equiv> silent_for d d"

lemma silent_forD: "silent_for m d t xs \<Longrightarrow> d \<le> m \<Longrightarrow> silent d t xs"
  by (simp add: silent_for_def)

lemma idle_lists [simp]:
  "idle_calls [] = []" "idle_calls (x # xs) = attempt_calls (begun x) 0 (tries x) @ idle_calls xs"
  "idle_calls (xs @ ys) = idle_calls xs @ idle_calls ys"
  "idle_clock [] = []" "idle_clock (x # xs) = begun x # map after (tries x) @ ended x # idle_clock xs"
  "idle_clock (xs @ ys) = idle_clock xs @ idle_clock ys"
  by (simp_all add: idle_calls_def idle_clock_def)

lemma recv_idle:
  assumes "timeout_us (user_data s) = d" and "d \<noteq> - 1" and "idle_ok d x"
    and "calls (dev (user_data s)) = attempt_calls (begun x) 0 (tries x) @ cs"
    and "clock (dev (user_data s)) = begun x ## map after (tries x) @- c"
  shows "recv_impl ue s = Inr (moved cs c s, False)"
proof -
  let ?w = "dev (user_data s)" and ?buf = "replicate ADU_CAPACITY 0"
  have "tty_read_ll ?w ?buf d = tty_read_ll_loop (?w\<lparr>calls := cs, clock := c\<rparr>) ?buf d (begun x) (spent (begun x) 0 (tries x))"
    using assms(3) by (intro tty_read_ll_tries assms(4,5)) (simp add: idle_ok_def)
  moreover have "d \<le> spent (begun x) 0 (tries x)" using assms(3) by (simp add: idle_ok_def)
  ultimately have "tty_read_ll ?w ?buf d = Inr (?w\<lparr>calls := cs, clock := c\<rparr>, ?buf, 0)"
    by (simp add: tty_read_ll_loop.simps)
  then show ?thesis using assms(1,2) by (simp add: recv_impl_def Let_def moved_def)
qed

lemma waiting_round:
  assumes "timeout_us (user_data s) = d" and "d \<noteq> - 1" and "idle_ok d x" and "ended x - timestamp (user_data s) < d"
    and "calls (dev (user_data s)) = idle_calls [x] @ cs" and "clock (dev (user_data s)) = idle_clock [x] @- c"
  shows "run_round ue s = Inr (moved cs c s, False)"
  using recv_idle [OF assms(1-3), of cs "ended x ## c" ue] assms(1,2,4-6)
  by (simp add: run_round_def timeout_impl_def read_clock_def timestamp_us_def) (simp add: moved_def)

lemma elapsed_round:
  assumes "timeout_us (user_data s) = d" and "d \<noteq> - 1" and "idle_ok d x" and "d \<le> ended x - timestamp (user_data s)"
    and "timer_cb s \<noteq> None"
    and "calls (dev (user_data s)) = idle_calls [x] @ cs" and "clock (dev (user_data s)) = idle_clock [x] @- c"
  shows "run_round ue s = bind_res (exec_all linux_platform [Timeout, Event] (moved cs c s)) (\<lambda>s. Inr (s, False))"
proof -
  have "timeout_impl (moved cs (ended x ## c) s) = exec_all linux_platform [Timeout, Event] (moved cs c s)"
    using assms(1,2,4,5)
    by (auto simp: timeout_impl_def read_clock_def timestamp_us_def moved_def cong: bind_res_cong)
  with recv_idle [OF assms(1-3), of cs "ended x ## c" ue] assms(6,7) show ?thesis
    by (simp add: run_round_def)
qed

lemma waiting_rounds:
  assumes "timeout_us (user_data s) = d" and "d \<noteq> - 1" and "waiting d (timestamp (user_data s)) xs"
    and "calls (dev (user_data s)) = idle_calls xs @ cs" and "clock (dev (user_data s)) = idle_clock xs @- c"
  shows "run_rounds (length xs + k) ue s = run_rounds k ue (moved cs c s)"
  using assms
proof (induction xs arbitrary: s)
  case Nil
  then have "moved cs c s = s" by (simp add: moved_def)
  then show ?case by simp
next
  case (Cons x xs)
  let ?s = "moved (idle_calls xs @ cs) (idle_clock xs @- c) s"
  have "run_round ue s = Inr (?s, False)"
    using Cons.prems by (intro waiting_round [of s d x]) (simp_all add: waiting_def)
  moreover have "run_rounds (length xs + k) ue ?s = run_rounds k ue (moved cs c ?s)"
    using Cons.prems(1-3) by (intro Cons.IH) (simp_all add: waiting_def)
  ultimately show ?case by (simp add: run_rounds_Suc del: run_rounds.simps)
qed

lemma silence_rounds:
  assumes "timeout_us (user_data s) = d" and "d \<noteq> - 1" and "silent d (timestamp (user_data s)) xs" and "timer_cb s \<noteq> None"
    and "calls (dev (user_data s)) = idle_calls xs @ cs" and "clock (dev (user_data s)) = idle_clock xs @- c"
  shows "run_rounds (length xs + k) ue s = bind_res (exec_all linux_platform [Timeout, Event] (moved cs c s)) (run_rounds k ue)"
proof -
  obtain ys y where xs: "xs = ys @ [y]" using assms(3) by (cases xs rule: rev_cases) (auto simp: silent_for_def)
  let ?s = "moved (idle_calls [y] @ cs) (idle_clock [y] @- c) s"
  have "run_rounds (length ys + Suc k) ue s = run_rounds (Suc k) ue ?s"
    using assms by (intro waiting_rounds [of s d]) (simp_all add: xs silent_for_def)
  moreover have "run_round ue ?s = bind_res (exec_all linux_platform [Timeout, Event] (moved cs c ?s)) (\<lambda>s. Inr (s, False))"
    using assms(1-4) by (intro elapsed_round [of ?s d y]) (simp_all add: xs silent_for_def del: idle_lists)
  ultimately show ?thesis
    by (simp add: xs run_rounds_Suc bind_res_assoc del: run_rounds.simps exec_all.simps cong: bind_res_cong)
qed

section \<open>Rounds that read\<close>

text \<open>
  A round that starts with the timer off, in \<open>tty_read\<close>: the readings at its start, behind each
  interrupted \<open>poll\<close> and behind the last one, the bytes it reads, the reading with which each of them
  starts the timer anew, and the one of \<open>timeout_impl\<close>.
\<close>

record arrival =
  opened :: int
  interrupted :: "int list"
  polled :: int
  head :: "u8 list"
  head_stamps :: "int list"
  head_seen :: int

definition arrival_calls :: "arrival \<Rightarrow> syscall list" where
  "arrival_calls x = replicate (length (interrupted x)) (Poll_err True) @ [Poll_ret 1 True False, Read_ret (head x)]"

definition arrival_clock :: "arrival \<Rightarrow> int list" where
  "arrival_clock x = opened x # interrupted x @ polled x # head_stamps x @ [head_seen x]"

definition arrival_ok :: "int \<Rightarrow> arrival \<Rightarrow> bool" where
  "arrival_ok t1 x = (head x \<noteq> [] \<and> length (head_stamps x) = length (head x) \<and> head_seen x - last (head_stamps x) < t1)"

text \<open>
  A further piece: rounds without a byte, then the round that reads it, behind attempts that find nothing;
  \<open>dozed\<close> is whether the last \<open>usleep\<close> in front of the bytes was interrupted.
\<close>

record piece =
  waits :: "idle_round list"
  asked :: int
  misses :: "attempt list"
  dozed :: bool
  data :: "u8 list"
  stamps :: "int list"
  seen :: int

definition piece_calls :: "piece \<Rightarrow> syscall list" where
  "piece_calls p = idle_calls (waits p) @ attempt_calls (asked p) 0 (misses p) @
     nap (spent (asked p) 0 (misses p)) (dozed p) @ [Read_ret (data p)]"

definition piece_clock :: "piece \<Rightarrow> int list" where
  "piece_clock p = idle_clock (waits p) @ asked p # map after (misses p) @ stamps p @ [seen p]"

definition piece_ok :: "int \<Rightarrow> int \<Rightarrow> piece \<Rightarrow> bool" where
  "piece_ok d t p =
     (waiting d t (waits p) \<and> trying d (asked p) 0 (misses p) \<and> spent (asked p) 0 (misses p) < d \<and>
      data p \<noteq> [] \<and> length (stamps p) = length (data p) \<and> seen p - last (stamps p) < d)"

text \<open>Pieces one after the other, from the last start \<open>t\<close> of the timer; and its start by the last of them.\<close>

fun pieces_ok :: "int \<Rightarrow> int \<Rightarrow> piece list \<Rightarrow> bool" where
  "pieces_ok d t [] = True"
| "pieces_ok d t (p # ps) = (piece_ok d t p \<and> pieces_ok d (last (stamps p)) ps)"

fun last_stamp :: "int \<Rightarrow> piece list \<Rightarrow> int" where
  "last_stamp t [] = t"
| "last_stamp t (p # ps) = last_stamp (last (stamps p)) ps"

definition piece_rounds :: "piece \<Rightarrow> nat" where
  "piece_rounds p = Suc (length (waits p))"

lemma tty_read_interrupted:
  assumes "bs \<noteq> []" and "length bs \<le> length buf"
  shows "tty_read_loop (w\<lparr>calls := replicate (length rs) (Poll_err True) @ Poll_ret 1 True False # Read_ret bs # cs,
      clock := rs @- (c0 ## c)\<rparr>) buf 0 (- 1) start e ue False False
    = Inr (w\<lparr>calls := cs, clock := c\<rparr>, overwrite buf 0 bs, int (length bs), False)"
proof (induction rs arbitrary: e)
  case Nil
  have "buf \<noteq> []" using assms by auto
  then show ?case
    using assms store_from_ok [of 0 bs buf]
    by (subst tty_read_loop.simps) (simp add: sys_poll_def Let_def tty_read_ready_def sys_read_def timestamp_us_def)
next
  case (Cons r rs)
  have "buf \<noteq> []" using assms by auto
  then show ?case
    using Cons.IH
    by (subst tty_read_loop.simps) (simp add: sys_poll_def validate_syscall_result_def Let_def timestamp_us_def)
qed

lemma recv_bytes_events: "recv_bytes s bs = exec_all linux_platform (byte_events bs) s"
  by (induction bs arbitrary: s) (simp_all add: byte_events_def bind_res_assoc cong: bind_res_cong)

lemma arrival_round:
  assumes "timeout_us (user_data s) = - 1" and "calls (dev (user_data s)) = arrival_calls x @ cs"
    and "clock (dev (user_data s)) = opened x ## interrupted x @- (polled x ## c)" and "head x \<noteq> []" and "length (head x) \<le> 256"
  shows "run_round ue s =
    bind_res (exec_all linux_platform (byte_events (head x)) (moved cs c s)) (\<lambda>s. bind_res (timeout_impl s) (\<lambda>s. Inr (s, False)))"
proof -
  let ?w = "dev (user_data s)" and ?buf = "replicate ADU_CAPACITY 0"
  have "timestamp_us ?w = (opened x, ?w\<lparr>calls := replicate (length (interrupted x)) (Poll_err True) @ Poll_ret 1 True False # Read_ret (head x) # cs,
      clock := interrupted x @- (polled x ## c)\<rparr>)"
    using assms(2,3) by (cases ?w) (simp add: timestamp_us_def arrival_calls_def)
  then have "tty_read ?w ?buf (- 1) ue = Inr (?w\<lparr>calls := cs, clock := c\<rparr>, overwrite ?buf 0 (head x), int (length (head x)), False)"
    using tty_read_interrupted [OF assms(4), where buf = ?buf and w = ?w and rs = "interrupted x" and cs = cs and ?c0.0 = "polled x" and c = c and start = "opened x" and e = 0 and ue = ue] assms(3,5)
    by (simp add: tty_read_def timestamp_us_def ADU_CAPACITY_def)
  then have "recv_impl ue s = bind_res (recv_bytes (moved cs c s) (head x)) (\<lambda>s. Inr (s, False))"
    using assms(1,5) by (simp add: recv_impl_def Let_def moved_def overwrite_0 ADU_CAPACITY_def)
  then show ?thesis by (simp add: run_round_def recv_bytes_events bind_res_assoc)
qed

lemma timed_data_round:
  assumes "timeout_us (user_data s) = d" and "d \<noteq> - 1" and "trying d start 0 as" and "spent start 0 as < d"
    and "calls (dev (user_data s)) = attempt_calls start 0 as @ nap (spent start 0 as) b @ Read_ret bs # cs"
    and "clock (dev (user_data s)) = start ## map after as @- c" and "bs \<noteq> []" and "length bs \<le> 256"
  shows "run_round ue s =
    bind_res (exec_all linux_platform (byte_events bs) (moved cs c s)) (\<lambda>s. bind_res (timeout_impl s) (\<lambda>s. Inr (s, False)))"
proof -
  let ?w = "dev (user_data s)" and ?buf = "replicate ADU_CAPACITY 0" and ?e = "spent start 0 as"
  have "tty_read_ll ?w ?buf d = tty_read_ll_loop (?w\<lparr>calls := nap ?e b @ Read_ret bs # cs, clock := c\<rparr>) ?buf d start ?e"
    by (rule tty_read_ll_tries [OF assms(3,5,6)])
  also have "\<dots> = Inr (?w\<lparr>calls := cs, clock := c\<rparr>, overwrite ?buf 0 bs, int (length bs))"
    using read_ll_data [OF assms(4,7), where buf = ?buf and w = ?w and c = c and b = b and cs = cs and start = start] assms(8) by (simp add: ADU_CAPACITY_def)
  finally have "recv_impl ue s = bind_res (recv_bytes (moved cs c s) bs) (\<lambda>s. Inr (s, False))"
    using assms(1,2,8) by (simp add: recv_impl_def Let_def moved_def overwrite_0 ADU_CAPACITY_def)
  then show ?thesis by (simp add: run_round_def recv_bytes_events bind_res_assoc)
qed

section \<open>The clock of a frame\<close>

abbreviation stage_of :: "rtu_memory_impl \<times> speed_t \<times> u8 list \<times> syscall list \<Rightarrow> stage \<Rightarrow> u8 list
    \<Rightarrow> rtu_impl modbus_rtu_state \<Rightarrow> bool" where
  "stage_of a st bs s \<equiv> frame_at impl_mode impl_ok impl_app a st bs s"

text \<open>The timer runs, or ran last, from \<open>t\<close>; the clock goes on with \<open>c\<close>.\<close>

definition clocked :: "int \<Rightarrow> int \<Rightarrow> int \<Rightarrow> int stream \<Rightarrow> rtu_impl \<Rightarrow> bool" where
  "clocked t1 t3 t c i =
     (timestamp i = t \<and> clock (dev i) = c \<and> timeout_1t5_us i = t1 \<and> timeout_3t5_us i = t3)"

lemma clocked_ticking: "clocked t1 t3 t c i \<Longrightarrow> ticking i t' c' i' \<Longrightarrow> clocked t1 t3 t' c' i'"
  by (simp add: clocked_def ticking_def)

lemma clocked_timers:
  "clocked t1 t3 t (c0 ## c) i \<Longrightarrow> clocked t1 t3 c0 c (started f i)"
  "clocked t1 t3 t (c0 ## c) i \<Longrightarrow> clocked t1 t3 c0 c (restarted i)"
  "clocked t1 t3 t c i \<Longrightarrow> clocked t1 t3 t c (stopped i)"
  by (simp_all add: clocked_def started_def restarted_def stopped_def read_clock_def timestamp_us_def)

lemma clocked_moved: "clocked t1 t3 t c i \<Longrightarrow> clocked t1 t3 t c' (i\<lparr>dev := (dev i)\<lparr>calls := cs, clock := c'\<rparr>\<rparr>)"
  by (simp add: clocked_def)

lemma stage_moved:
  assumes "stage_of a st bs s"
  shows "stage_of (impl_app (user_data (moved cs c s))) st bs (moved cs c s)"
  using assms rtu_inv_dev [of s "(dev (user_data s))\<lparr>calls := cs, clock := c\<rparr>"]
  by (cases st) (simp_all add: frame_at_def moved_def received_def)

lemma stage_timer:
  assumes "stage_of a st bs s" and "clocked t1 t3 t c (user_data s)"
  shows "timeout_us (user_data s) = (case st of Receiving \<Rightarrow> t1 | Ended \<Rightarrow> t3 | _ \<Rightarrow> - 1)"
  using assms
  by (cases st) (auto simp: frame_at_def rtu_inv_def timer_agrees_def impl_mode_def impl_ok_def clocked_def split: if_split_asm)

text \<open>What the inputs of a frame do to the timer.\<close>

lemma linux_timers [simp]:
  "timer_start_1t5 linux_platform = impl_timer_start_1t5" "timer_start_3t5 linux_platform = impl_timer_start_3t5"
  "timer_stop linux_platform = impl_timer_stop" "timer_reset linux_platform = impl_timer_reset"
  "suspend_cb linux_platform = None" "resume_cb linux_platform = None"
  by (simp_all add: linux_platform_def)

lemma timer_data:
  "impl_timer_start_1t5 s = Inr s' \<Longrightarrow> user_data s' = started timeout_1t5_us (user_data s)"
  "impl_timer_start_3t5 s = Inr s' \<Longrightarrow> user_data s' = started timeout_3t5_us (user_data s)"
  "impl_timer_stop s = Inr s' \<Longrightarrow> user_data s' = stopped (user_data s)"
  "impl_timer_reset s = Inr s' \<Longrightarrow> user_data s' = restarted (user_data s)"
  by (auto simp: impl_timer_start_1t5_def impl_timer_start_3t5_def impl_start_def impl_timer_stop_def
      impl_timer_reset_def Let_def split_beta started_def stopped_def restarted_def split: if_split_asm)

lemma append_data: "rxbuf_append s b = Inr s' \<Longrightarrow> user_data s' = user_data s"
  by (auto simp: rxbuf_append_def bind_res_Inr_iff set_error_def split: if_split_asm)

lemma recv_data:
  assumes "serial_recv_cb linux_platform s b = Inr s'"
  shows "curr_st s = RTU_STATE_IDLE \<Longrightarrow> user_data s' = started timeout_1t5_us (user_data s)"
    and "curr_st s = RTU_STATE_SOF \<or> curr_st s = RTU_STATE_RECV \<Longrightarrow> user_data s' = restarted (user_data s)"
  using assms by (auto simp: serial_recv_cb_def bind_res_Inr_iff update_state_def dest!: timer_data append_data)

lemma timeout_data:
  assumes "call_timer_cb linux_platform s = Inr s'"
  shows "stage_of a Receiving bs s \<Longrightarrow> 2 \<le> length bs \<Longrightarrow>
      user_data s' = started timeout_3t5_us (stopped (user_data s))"
    and "stage_of a Ended bs s \<Longrightarrow> user_data s' = stopped (user_data s)"
    and "restarted_slave s \<Longrightarrow> user_data s' = stopped (user_data s)"
  using assms
  by (auto simp: call_timer_cb_def timer_inter_frame_timeout_cb_def timer_silent_interval_cb_def bind_res_Inr_iff
      frame_at_def restarted_slave_def rtu_inv_def timer_agrees_def legal_edge_def update_state_def dest!: timer_data)

lemma event_data:
  assumes "modbus_rtu_event linux_platform s = Inr s'" and "stage_of a st bs s" and "st \<noteq> Complete"
  shows "user_data s' = user_data s"
proof -
  have "rtu_inv impl_mode impl_ok s" using assms(2) by (simp add: frame_at_def)
  with assms show ?thesis
    by (cases st) (auto simp: event_is_live event_live_def frame_at_def Let_def call_opt_def split: if_split_asm)
qed

lemma bytes_clocked:
  assumes "stage_of a Receiving bs s" and "clocked t1 t3 t (rs @- c) (user_data s)" and "length rs = length cs"
    and "length bs + length cs \<le> 256"
  shows "\<exists>s'. exec_all linux_platform (byte_events cs) s = Inr s' \<and> stage_of a Receiving (bs @ cs) s' \<and>
    clocked t1 t3 (last (t # rs)) c (user_data s')"
  using assms
proof (induction cs arbitrary: bs s t rs)
  case Nil
  then show ?case by (simp add: byte_events_def)
next
  case (Cons b cs)
  then obtain r rs' where rs: "rs = r # rs'" "length rs' = length cs" by (cases rs) auto
  have "length bs < RXBUF_CAPACITY" using Cons.prems(4) by (simp add: capacities)
  from linux_rtu.frame_next_byte [OF Cons.prems(1) this, of b] obtain s1 where
    s1: "exec linux_platform (Recv b) s = Inr s1" "stage_of a Receiving (bs @ [b]) s1" by blast
  from linux_rtu.frame_event [OF s1(2)] obtain s2 where
    s2: "exec linux_platform Event s1 = Inr s2" "stage_of a Receiving (bs @ [b]) s2" by blast
  have "curr_st s = RTU_STATE_SOF \<or> curr_st s = RTU_STATE_RECV" using Cons.prems(1) by (auto simp: frame_at_def)
  with s1(1) recv_data(2) have "user_data s1 = restarted (user_data s)" by simp
  moreover have "user_data s2 = user_data s1" using s2(1) event_data [OF _ s1(2)] by simp
  ultimately have "clocked t1 t3 r (rs' @- c) (user_data s2)"
    using clocked_timers(2) Cons.prems(2) by (simp add: rs)
  from Cons.IH [OF s2(2) this rs(2)] Cons.prems(4) obtain s3 where
    "exec_all linux_platform (byte_events cs) s2 = Inr s3" "stage_of a Receiving ((bs @ [b]) @ cs) s3"
    "clocked t1 t3 (last (r # rs')) c (user_data s3)" by auto
  with s1(1) s2(1) show ?case
    by (simp add: byte_events_Cons exec_all_append rs del: exec.simps)
qed

lemma frame_clocked:
  assumes "stage_of a Ready [] s" and "clocked t1 t3 t (rs @- c) (user_data s)" and "length rs = length f"
    and "f \<noteq> []" and "length f \<le> 256"
  shows "\<exists>s'. exec_all linux_platform (byte_events f) s = Inr s' \<and> stage_of a Receiving f s' \<and>
    clocked t1 t3 (last rs) c (user_data s')"
proof -
  obtain b f' where f: "f = b # f'" using assms(4) by (cases f) auto
  then obtain r rs' where rs: "rs = r # rs'" "length rs' = length f'" using assms(3) by (cases rs) auto
  from linux_rtu.frame_first_byte [OF assms(1), of b] obtain s1 where
    s1: "exec linux_platform (Recv b) s = Inr s1" "stage_of a Receiving [b] s1" by auto
  from linux_rtu.frame_event [OF s1(2)] obtain s2 where
    s2: "exec linux_platform Event s1 = Inr s2" "stage_of a Receiving [b] s2" by blast
  have "curr_st s = RTU_STATE_IDLE" using assms(1) by (simp add: frame_at_def)
  with s1(1) recv_data(1) have "user_data s1 = started timeout_1t5_us (user_data s)" by simp
  moreover have "user_data s2 = user_data s1" using s2(1) event_data [OF _ s1(2)] by simp
  ultimately have "clocked t1 t3 r (rs' @- c) (user_data s2)"
    using clocked_timers(1) assms(2) by (simp add: rs)
  from bytes_clocked [OF s2(2) this rs(2)] assms(5) obtain s3 where
    "exec_all linux_platform (byte_events f') s2 = Inr s3" "stage_of a Receiving f s3"
    "clocked t1 t3 (last (r # rs')) c (user_data s3)" by (auto simp: f)
  with s1(1) s2(1) show ?thesis
    by (simp add: byte_events_Cons exec_all_append rs f del: exec.simps)
qed

section \<open>The rounds of a frame\<close>

lemma timeout_not_yet:
  assumes "timeout_us (user_data s) \<noteq> - 1" and "clock (dev (user_data s)) = e ## c"
    and "e - timestamp (user_data s) < timeout_us (user_data s)"
  shows "timeout_impl s = Inr (moved (calls (dev (user_data s))) c s)"
  using assms by (simp add: timeout_impl_def read_clock_def timestamp_us_def moved_def)

lemma frame_round:
  assumes "stage_of (mi, r, W, arrival_calls x @ cs) Ready [] s" and "clocked t1 t3 t (arrival_clock x @- c) (user_data s)"
    and "arrival_ok t1 x" and "length (head x) \<le> 256" and "0 < t1"
  shows "\<exists>s'. run_round ue s = Inr (s', False) \<and> stage_of (mi, r, W, cs) Receiving (head x) s' \<and>
    clocked t1 t3 (last (head_stamps x)) c (user_data s')"
proof -
  let ?c = "head_stamps x @- (head_seen x ## c)"
  let ?s = "moved cs ?c s"
  have x: "head x \<noteq> []" "length (head_stamps x) = length (head x)" "head_seen x - last (head_stamps x) < t1"
    using assms(3) by (simp_all add: arrival_ok_def)
  have app: "impl_app (user_data s) = (mi, r, W, arrival_calls x @ cs)" using assms(1) by (simp add: frame_at_def)
  then have "impl_app (user_data ?s) = (mi, r, W, cs)" by (simp add: impl_app_def moved_def)
  with stage_moved [OF assms(1), of cs ?c] have "stage_of (mi, r, W, cs) Ready [] ?s" by simp
  moreover have "clocked t1 t3 t ?c (user_data ?s)"
    using clocked_moved [OF assms(2)] by (simp add: moved_def)
  ultimately obtain s1 where
    s1: "exec_all linux_platform (byte_events (head x)) ?s = Inr s1" "stage_of (mi, r, W, cs) Receiving (head x) s1"
      "clocked t1 t3 (last (head_stamps x)) (head_seen x ## c) (user_data s1)"
    using frame_clocked x(1,2) assms(4) by blast
  have "timeout_us (user_data s) = - 1" using stage_timer [OF assms(1,2)] by simp
  then have "run_round ue s = bind_res (timeout_impl s1) (\<lambda>s. Inr (s, False))"
    using arrival_round [of s x cs ?c] app assms(2,4) x(1) s1(1) by (simp add: impl_app_def clocked_def arrival_clock_def)
  moreover have "timeout_impl s1 = Inr (moved cs c s1)"
    using timeout_not_yet [of s1 "head_seen x" c] stage_timer [OF s1(2,3)] s1(2,3) assms(5) x(3)
    by (simp add: clocked_def frame_at_def impl_app_def)
  moreover have "impl_app (user_data (moved cs c s1)) = (mi, r, W, cs)"
    using s1(2) by (simp add: frame_at_def impl_app_def moved_def)
  ultimately show ?thesis
    using stage_moved [OF s1(2), of cs c] clocked_moved [OF s1(3), of c cs]
    by (auto simp: moved_def)
qed

text \<open>A further piece of the frame, read before the timer has elapsed.\<close>

lemma stage_timer_cb: "stage_of a st bs s \<Longrightarrow> st = Receiving \<or> st = Ended \<Longrightarrow> timer_cb s \<noteq> None"
  by (auto simp: frame_at_def rtu_inv_def timer_agrees_def split: if_split_asm)

lemma stage_at:
  assumes "stage_of (mi, r, W, cs') st bs s" and "clocked t1 t3 t c' (user_data s)"
  shows "stage_of (mi, r, W, cs) st bs (moved cs c s)" and "clocked t1 t3 t c (user_data (moved cs c s))"
proof -
  have "impl_app (user_data (moved cs c s)) = (mi, r, W, cs)"
    using assms(1) by (simp add: frame_at_def impl_app_def moved_def)
  with stage_moved [OF assms(1), of cs c] show "stage_of (mi, r, W, cs) st bs (moved cs c s)" by simp
  show "clocked t1 t3 t c (user_data (moved cs c s))" using clocked_moved [OF assms(2)] by (simp add: moved_def)
qed

lemma piece_round:
  assumes "stage_of (mi, r, W, attempt_calls (asked p) 0 (misses p) @ nap (spent (asked p) 0 (misses p)) (dozed p) @ Read_ret (data p) # cs)
      Receiving bs s"
    and "clocked t1 t3 t (asked p ## map after (misses p) @- (stamps p @- (seen p ## c))) (user_data s)" and "piece_ok t1 t p"
    and "length bs + length (data p) \<le> 256" and "0 < t1"
  shows "\<exists>s'. run_round ue s = Inr (s', False) \<and> stage_of (mi, r, W, cs) Receiving (bs @ data p) s' \<and>
    clocked t1 t3 (last (stamps p)) c (user_data s')"
proof -
  let ?c = "stamps p @- (seen p ## c)"
  note p = assms(3) [unfolded piece_ok_def]
  from stage_at(1) [OF assms(1,2), of cs ?c] stage_at(2) [OF assms(1,2), of ?c cs] obtain s1 where
    s1: "exec_all linux_platform (byte_events (data p)) (moved cs ?c s) = Inr s1" "stage_of (mi, r, W, cs) Receiving (bs @ data p) s1"
      "clocked t1 t3 (last (t # stamps p)) (seen p ## c) (user_data s1)"
    using bytes_clocked [of "(mi, r, W, cs)" bs "moved cs ?c s" t1 t3 t "stamps p" "seen p ## c" "data p"] p assms(4) by blast
  have "stamps p \<noteq> []" using p by auto
  with s1(3) have clk: "clocked t1 t3 (last (stamps p)) (seen p ## c) (user_data s1)" by simp
  have "timeout_us (user_data s) = t1" using stage_timer [OF assms(1,2)] by simp
  moreover have "calls (dev (user_data s)) = attempt_calls (asked p) 0 (misses p) @ nap (spent (asked p) 0 (misses p)) (dozed p) @ Read_ret (data p) # cs"
    "clock (dev (user_data s)) = asked p ## map after (misses p) @- ?c"
    using assms(1,2) by (simp_all add: frame_at_def impl_app_def clocked_def)
  ultimately have "run_round ue s = bind_res (timeout_impl s1) (\<lambda>s. Inr (s, False))"
    using timed_data_round [of s t1 "asked p" "misses p" "dozed p" "data p" cs ?c ue] p assms(4,5) s1(1) by simp
  moreover have "timeout_impl s1 = Inr (moved cs c s1)"
    using timeout_not_yet [of s1 "seen p" c] stage_timer [OF s1(2) clk] s1(2) clk assms(5) p
    by (simp add: clocked_def frame_at_def impl_app_def)
  ultimately show ?thesis using stage_at(1) [OF s1(2) clk, of cs c] stage_at(2) [OF s1(2) clk, of c cs] by auto
qed

lemma piece_rounds_ok:
  assumes "stage_of (mi, r, W, piece_calls p @ cs) Receiving bs s" and "clocked t1 t3 t (piece_clock p @- c) (user_data s)"
    and "piece_ok t1 t p" and "length bs + length (data p) \<le> 256" and "0 < t1"
  shows "\<exists>s'. run_rounds (piece_rounds p + k) ue s = run_rounds k ue s' \<and> stage_of (mi, r, W, cs) Receiving (bs @ data p) s' \<and>
    clocked t1 t3 (last (stamps p)) c (user_data s')"
proof -
  let ?cs = "attempt_calls (asked p) 0 (misses p) @ nap (spent (asked p) 0 (misses p)) (dozed p) @ Read_ret (data p) # cs"
    and ?c = "asked p ## map after (misses p) @- (stamps p @- (seen p ## c))"
  have "timeout_us (user_data s) = t1" using stage_timer [OF assms(1,2)] by simp
  moreover have "timestamp (user_data s) = t" "calls (dev (user_data s)) = idle_calls (waits p) @ ?cs"
      "clock (dev (user_data s)) = idle_clock (waits p) @- ?c"
    using assms(1,2) by (simp_all add: frame_at_def impl_app_def clocked_def piece_calls_def piece_clock_def)
  ultimately have "run_rounds (length (waits p) + Suc k) ue s = run_rounds (Suc k) ue (moved ?cs ?c s)"
    using assms(3,5) by (intro waiting_rounds [of s t1]) (simp_all add: piece_ok_def)
  moreover from piece_round [OF stage_at [OF assms(1,2)] assms(3-5)] obtain s' where
    "run_round ue (moved ?cs ?c s) = Inr (s', False)" "stage_of (mi, r, W, cs) Receiving (bs @ data p) s'"
    "clocked t1 t3 (last (stamps p)) c (user_data s')" by blast
  ultimately show ?thesis
    by (intro exI [of _ s']) (simp add: piece_rounds_def run_rounds_Suc del: run_rounds.simps)
qed

lemma pieces_rounds:
  assumes "stage_of (mi, r, W, concat (map piece_calls ps) @ cs) Receiving bs s"
    and "clocked t1 t3 t (concat (map piece_clock ps) @- c) (user_data s)"
    and "pieces_ok t1 t ps" and "length bs + length (concat (map data ps)) \<le> 256" and "0 < t1"
  shows "\<exists>s'. run_rounds (sum_list (map piece_rounds ps) + k) ue s = run_rounds k ue s' \<and>
    stage_of (mi, r, W, cs) Receiving (bs @ concat (map data ps)) s' \<and> clocked t1 t3 (last_stamp t ps) c (user_data s')"
  using assms
proof (induction ps arbitrary: bs s t)
  case Nil
  then show ?case by (intro exI [of _ s]) simp
next
  case (Cons p ps)
  from piece_rounds_ok [of mi r W p "concat (map piece_calls ps) @ cs" bs s t1 t3 t "concat (map piece_clock ps) @- c"
      "sum_list (map piece_rounds ps) + k" ue] Cons.prems obtain s1 where
    s1: "run_rounds (piece_rounds p + (sum_list (map piece_rounds ps) + k)) ue s = run_rounds (sum_list (map piece_rounds ps) + k) ue s1"
      "stage_of (mi, r, W, concat (map piece_calls ps) @ cs) Receiving (bs @ data p) s1"
      "clocked t1 t3 (last (stamps p)) (concat (map piece_clock ps) @- c) (user_data s1)"
    by auto
  from Cons.IH [OF s1(2,3)] Cons.prems(3-5) s1(1) show ?case by (simp add: ac_simps)
qed

section \<open>Silences\<close>

text \<open>The state when the timer has elapsed.\<close>

lemma stage_quiet:
  assumes "stage_of (mi, r, W, idle_calls xs @ cs) st bs s" and "clocked t1 t3 t (idle_clock xs @- c) (user_data s)"
    and "st = Receiving \<and> d = t1 \<or> st = Ended \<and> d = t3" and "0 < d" and "silent d t xs"
  shows "run_rounds (length xs + k) ue s = bind_res (exec_all linux_platform [Timeout, Event] (moved cs c s)) (run_rounds k ue) \<and>
    stage_of (mi, r, W, cs) st bs (moved cs c s) \<and> clocked t1 t3 t c (user_data (moved cs c s))"
proof -
  have "timeout_us (user_data s) = d" using stage_timer [OF assms(1,2)] assms(3) by auto
  moreover have "timer_cb s \<noteq> None" using stage_timer_cb [OF assms(1)] assms(3) by auto
  moreover have "timestamp (user_data s) = t" "calls (dev (user_data s)) = idle_calls xs @ cs" "clock (dev (user_data s)) = idle_clock xs @- c"
    using assms(1,2) by (simp_all add: frame_at_def impl_app_def clocked_def)
  ultimately have "run_rounds (length xs + k) ue s = bind_res (exec_all linux_platform [Timeout, Event] (moved cs c s)) (run_rounds k ue)"
    using assms(4,5) by (intro silence_rounds [of s d]) simp_all
  with stage_at [OF assms(1,2)] show ?thesis by blast
qed

lemma gap_rounds:
  assumes "stage_of (mi, r, W, idle_calls xs @ cs) Receiving f s"
    and "clocked t1 t3 t (idle_clock xs @- (c0 ## c)) (user_data s)" and "2 \<le> length f" and "0 < t1" and "silent t1 t xs"
  shows "\<exists>s'. run_rounds (length xs + k) ue s = run_rounds k ue s' \<and> stage_of (mi, r, W, cs) Ended f s' \<and> clocked t1 t3 c0 c (user_data s')"
proof -
  let ?s = "moved cs (c0 ## c) s"
  from stage_quiet [OF assms(1,2), of t1 k ue] assms(4,5) have
    s: "run_rounds (length xs + k) ue s = bind_res (exec_all linux_platform [Timeout, Event] ?s) (run_rounds k ue)"
      "stage_of (mi, r, W, cs) Receiving f ?s" "clocked t1 t3 t (c0 ## c) (user_data ?s)"
    by simp_all
  from linux_rtu.frame_end [OF s(2) assms(3)] obtain s1 where
    s1: "exec linux_platform Timeout ?s = Inr s1" "stage_of (mi, r, W, cs) Ended f s1" by blast
  from linux_rtu.frame_event [OF s1(2)] obtain s2 where
    s2: "exec linux_platform Event s1 = Inr s2" "stage_of (mi, r, W, cs) Ended f s2" by blast
  have "user_data s1 = started timeout_3t5_us (stopped (user_data ?s))"
    using timeout_data(1) [OF _ s(2) assms(3)] s1(1) by simp
  moreover have "user_data s2 = user_data s1" using s2(1) event_data [OF _ s1(2)] by simp
  ultimately have "clocked t1 t3 c0 c (user_data s2)"
    using clocked_timers(1) [OF clocked_timers(3) [OF s(3)]] by simp
  with s(1) s1(1) s2 show ?thesis by (auto simp del: exec.simps)
qed

text \<open>The end of a request: it is processed, answered and the machine restarts.\<close>

definition rested :: "rtu_memory_impl \<Rightarrow> speed_t \<Rightarrow> u8 list \<Rightarrow> syscall list \<Rightarrow> rtu_impl modbus_rtu_state \<Rightarrow> bool" where
  "rested mi r W cs s = (restarted_slave s \<and> impl_app (user_data s) = (mi, r, W, cs))"

lemma reply_rounds:
  assumes "stage_of (mi, r, W, idle_calls xs @ Poll_ret 1 True False # Write_ret n # Drain_ret # cs) Ended (adu (self_addr mi) (request_pdu q)) s"
    and "clocked t1 t3 t (idle_clock xs @- (c3 ## c4 ## c5 ## c)) (user_data s)"
    and "0 < t3" and "silent t3 t xs" and "mem_wf (impl_memory mi)" and "request_wf q"
    and "write_in_window (impl_memory mi) q" and "r \<noteq> B0" and "256 \<le> n"
  shows "\<exists>s' m'. run_rounds (length xs + k) ue s = run_rounds k ue s' \<and> clocked t1 t3 c5 c (user_data s') \<and>
    rested (mi\<lparr>impl_memory := m'\<rparr>) r
      (W @ adu (self_addr mi) (reply_pdu (snd (serve (mem_abs (impl_memory mi)) q)))) cs s' \<and>
    mem_abs m' = fst (serve (mem_abs (impl_memory mi)) q) \<and> mem_wf m' \<and> same_shape (impl_memory mi) m'"
proof -
  let ?cs = "Poll_ret 1 True False # Write_ret n # Drain_ret # cs" and ?f = "adu (self_addr mi) (request_pdu q)"
  let ?s = "moved ?cs (c3 ## c4 ## c5 ## c) s"
  from stage_quiet [OF assms(1,2), of t3 k ue] assms(3,4) have
    s: "run_rounds (length xs + k) ue s = bind_res (exec_all linux_platform [Timeout, Event] ?s) (run_rounds k ue)"
      "stage_of (mi, r, W, ?cs) Ended ?f ?s" "clocked t1 t3 t (c3 ## c4 ## c5 ## c) (user_data ?s)"
    by simp_all
  from linux_rtu.frame_confirmed [OF s(2)] obtain s1 where
    s1: "exec linux_platform Timeout ?s = Inr s1" "stage_of (mi, r, W, ?cs) Complete ?f s1" by blast
  from linux_rtu.frame_processed [OF s1(2)] obtain u where
    u: "exec linux_platform Event s1 = adu_process linux_platform u" "linux_rtu.pending u"
      "received u = ?f" "impl_app (user_data u) = (mi, r, W, ?cs)" "user_data u = user_data s1"
    by (auto simp: call_opt_def)
  have "user_data s1 = stopped (user_data ?s)" using timeout_data(2) [OF _ s(2)] s1(1) by simp
  then have clk: "clocked t1 t3 t (c3 ## c4 ## c5 ## c) (user_data u)" using clocked_timers(3) s(3) by (simp add: u(5))
  have d: "memory_impl (user_data u) = mi" "rate (user_data u) = r" "wire (dev (user_data u)) = W"
      "calls (dev (user_data u)) = ?cs"
    using u(4) by (simp_all add: impl_app_def)
  from process_request [of u "self_addr mi" q n cs, unfolded d] u(2,3) assms(5-9) obtain s2 m' where
    s2: "adu_process linux_platform u = Inr s2" "curr_st s2 = RTU_STATE_INIT" "rtu_inv impl_mode impl_ok s2"
      "impl_app (user_data s2) = (mi\<lparr>impl_memory := m'\<rparr>, r,
        W @ adu (self_addr mi) (reply_pdu (snd (serve (mem_abs (impl_memory mi)) q))), cs)"
      "mem_abs m' = fst (serve (mem_abs (impl_memory mi)) q)" "mem_wf m'" "same_shape (impl_memory mi) m'"
      "\<not> updated (status s2)"
      "ticking (user_data u) (clock (dev (user_data u)) !! 2) (sdrop 3 (clock (dev (user_data u)))) (user_data s2)"
    by (auto simp: capacities)
  have "clocked t1 t3 c5 c (user_data s2)"
    using clocked_ticking [OF clk s2(9)] clk by (simp add: clocked_def eval_nat_numeral)
  with s(1) s1(1) u(1) s2 show ?thesis
    by (intro exI [of _ s2] exI [of _ m']) (simp add: rested_def restarted_slave_def del: exec.simps)
qed

text \<open>A good frame for another slave: the machine is idle at once.\<close>

lemma ignore_rounds:
  assumes "stage_of (mi, r, W, idle_calls xs @ cs) Ended f s" and "clocked t1 t3 t (idle_clock xs @- c) (user_data s)"
    and "0 < t3" and "silent t3 t xs" and "frame_ok linux_platform f" and "hd f \<noteq> self_addr mi"
  shows "\<exists>s'. run_rounds (length xs + k) ue s = run_rounds k ue s' \<and> stage_of (mi, r, W, cs) Ready [] s' \<and> clocked t1 t3 t c (user_data s')"
proof -
  let ?s = "moved cs c s"
  from stage_quiet [OF assms(1,2), of t3 k ue] assms(3,4) have
    s: "run_rounds (length xs + k) ue s = bind_res (exec_all linux_platform [Timeout, Event] ?s) (run_rounds k ue)"
      "stage_of (mi, r, W, cs) Ended f ?s" "clocked t1 t3 t c (user_data ?s)"
    by simp_all
  from linux_rtu.frame_confirmed [OF s(2)] obtain s1 where
    s1: "exec linux_platform Timeout ?s = Inr s1" "stage_of (mi, r, W, cs) Complete f s1" by blast
  from linux_rtu.frame_processed [OF s1(2)] obtain u where
    u: "exec linux_platform Event s1 = adu_process linux_platform u" "linux_rtu.pending u"
      "received u = f" "impl_app (user_data u) = (mi, r, W, cs)" "user_data u = user_data s1"
    by (auto simp: call_opt_def)
  have "user_data s1 = stopped (user_data ?s)" using timeout_data(2) [OF _ s(2)] s1(1) by simp
  then have clk: "clocked t1 t3 t c (user_data u)" using clocked_timers(3) s(3) by (simp add: u(5))
  have "memory_impl (user_data u) = mi" using u(4) by (simp add: impl_app_def)
  with process_other [OF u(2), unfolded u(3)] assms(5,6) obtain s2 where
    s2: "adu_process linux_platform u = Inr s2" "idle_slave s2" "user_data s2 = user_data u" by auto
  with idle_slave_ready [OF s2(2)] u(4) have "stage_of (mi, r, W, cs) Ready [] s2" by simp
  with s(1) s1(1) u(1) s2 clk show ?thesis by (intro exI [of _ s2]) (simp del: exec.simps)
qed

lemma recovery_data:
  assumes "restarted_slave s" and "call_timer_cb linux_platform s = Inr t" and "modbus_rtu_event linux_platform t = Inr s'"
  shows "user_data s' = stopped (user_data s)"
proof -
  have "curr_st t = RTU_STATE_IDLE \<and> prev_st t = RTU_STATE_INIT \<and> \<not> st_error (status t)"
    using assms(1,2)
    by (auto simp: call_timer_cb_def timer_silent_interval_cb_def impl_timer_stop_def Let_def state_defs restarted_slave_def
        rtu_inv_def timer_agrees_def split: if_split_asm)
  then have "user_data s' = user_data t"
    using assms(3) by (auto simp: modbus_rtu_event_def event_dispatch_def split: if_split_asm)
  with timeout_data(3) [OF assms(2,1)] show ?thesis by simp
qed

lemma rest_rounds:
  assumes "rested mi r W (idle_calls xs @ cs) s" and "clocked t1 t3 t (idle_clock xs @- c) (user_data s)"
    and "0 < t3" and "silent t3 t xs"
  shows "\<exists>s'. run_rounds (length xs + k) ue s = run_rounds k ue s' \<and> stage_of (mi, r, W, cs) Ready [] s' \<and> clocked t1 t3 t c (user_data s')"
proof -
  let ?s = "moved cs c s"
  have inv: "rtu_inv impl_mode impl_ok s" "curr_st s = RTU_STATE_INIT" "\<not> updated (status s)"
    and app: "impl_app (user_data s) = (mi, r, W, idle_calls xs @ cs)"
    using assms(1) by (simp_all add: rested_def restarted_slave_def)
  then have "timer_cb s \<noteq> None" "timeout_us (user_data s) = t3"
    using assms(2) by (auto simp: rtu_inv_def timer_agrees_def impl_mode_def impl_ok_def clocked_def split: if_split_asm)
  then have round: "run_rounds (length xs + k) ue s = bind_res (exec_all linux_platform [Timeout, Event] ?s) (run_rounds k ue)"
    using assms(2-4) app by (intro silence_rounds [of s t3]) (simp_all add: impl_app_def clocked_def)
  have "restarted_slave ?s"
    using inv rtu_inv_dev [OF inv(1), of "(dev (user_data s))\<lparr>calls := cs, clock := c\<rparr>"]
    by (simp add: restarted_slave_def moved_def)
  moreover from restarted_recovers [OF this] obtain s1 s2 where
    s2: "call_timer_cb linux_platform ?s = Inr s1" "modbus_rtu_event linux_platform s1 = Inr s2" "idle_slave s2"
      "impl_app (user_data s2) = impl_app (user_data ?s)"
    by (auto simp: bind_res_Inr_iff)
  ultimately have "user_data s2 = stopped (user_data ?s)" using recovery_data by blast
  then have "clocked t1 t3 t c (user_data s2)"
    using clocked_timers(3) clocked_moved [OF assms(2), of c cs] by (simp add: moved_def)
  moreover have "impl_app (user_data ?s) = (mi, r, W, cs)" using app by (simp add: impl_app_def moved_def)
  with idle_slave_ready [OF s2(3)] s2(4) have "stage_of (mi, r, W, cs) Ready [] s2" by simp
  ultimately show ?thesis using round s2(1,2) by auto
qed

section \<open>The start\<close>

text \<open>The start of the process: its first event starts the timer of 3.5t.\<close>

lemma run_start_rested:
  assumes "run_intervals r o1 o3 = Inr (t1, t3)" and "t1 \<noteq> t3" and "clock w = now ## t ## c"
  shows "\<exists>s. run_start w r o1 o3 mi = Inr s \<and> rested mi r (wire w) (calls w) s \<and> clocked t1 t3 t c (user_data s)"
proof -
  let ?i = "initial_impl w r t1 t3 mi"
  have i: "impl_app ?i = (mi, r, wire w, calls w)" "clock (dev ?i) = t ## c" "timeout_1t5_us ?i = t1" "timeout_3t5_us ?i = t3"
    using assms(3) by (simp_all add: initial_impl_def impl_app_def timestamp_us_def)
  have init: "curr_st (modbus_rtu_init ?i) = RTU_STATE_INIT" "updated (status (modbus_rtu_init ?i))"
      "user_data (modbus_rtu_init ?i) = ?i"
    by (simp_all add: modbus_rtu_init_def)
  with initial_inv [OF assms(1,2), of w mi] obtain s where
    s: "modbus_rtu_event linux_platform (modbus_rtu_init ?i) = Inr s" "rtu_inv impl_mode impl_ok s"
      "curr_st s = RTU_STATE_INIT" "\<not> updated (status s)" "impl_app (user_data s) = impl_app ?i"
    using linux_rtu.event_in_INIT_ok [of "modbus_rtu_init ?i"] by auto
  have "ticking ?i (shd (clock (dev ?i))) (stl (clock (dev ?i))) (user_data s)"
    using restart_ticks [OF s(1) [unfolded linux_platform_def] init(1,2)] by (simp only: init(3))
  then have "clocked t1 t3 t c (user_data s)" using i(2-4) by (simp add: ticking_def clocked_def)
  then show ?thesis
    using s assms(1) i(1) by (auto simp: run_start_def rested_def restarted_slave_def)
qed

end
