(* ===== verification/Linux_Session.thy ===== *)
theory Linux_Session
  imports Linux_Rounds Master_Slave
begin

text \<open>
  The slave process itself: from the start of \<open>modbus_rtu_run\<close>, with the time stamps it reads and
  the system calls it makes, through any traffic on its line. A delivery is a frame on the line as the
  process sees it: how it is read, in which pieces and after how many vain attempts, and how the silences
  behind it pass. A frame takes a round of the loop for each of its pieces and for each idle round.
\<close>

section \<open>Deliveries\<close>

text \<open>A frame on the line is a request to this slave or a good frame to another one.\<close>

datatype traffic = Mine request | Theirs "u8 list"

fun traffic_frame :: "u8 \<Rightarrow> traffic \<Rightarrow> u8 list" where
  "traffic_frame a (Mine q) = adu a (request_pdu q)"
| "traffic_frame a (Theirs f) = f"

text \<open>What a request writes must lie in the memory of the slave, in values of a byte: \<open>write_in_window\<close>.\<close>

fun traffic_ok :: "rtu_memory_impl \<Rightarrow> traffic \<Rightarrow> bool" where
  "traffic_ok mi (Mine q) =
     (request_wf q \<and> write_in_window (impl_memory mi) q \<and> length (request_pdu q) \<le> 253)"
| "traffic_ok mi (Theirs f) = (frame_ok linux_platform f \<and> length f \<le> 256 \<and> hd f \<noteq> self_addr mi)"

text \<open>
  Behind the last piece comes the silence of 1.5t, then the timer of 3.5t is started at \<open>armed\<close>. A
  request is answered behind the silence of 3.5t, with two readings in \<open>tty_write\<close> and one that starts the
  timer for the silence after the reply; for other frames these fields mean nothing.
\<close>

record delivery =
  brings :: traffic
  front :: arrival
  pieces :: "piece list"
  gap_1t5 :: "idle_round list"
  armed :: int
  gap_3t5 :: "idle_round list"
  replied :: "int \<times> int \<times> int"
  gap_reply :: "idle_round list"

definition delivered :: "delivery \<Rightarrow> u8 list" where
  "delivered x = head (front x) @ concat (map data (pieces x))"

definition reply_calls :: "delivery \<Rightarrow> syscall list" where
  "reply_calls x = [Poll_ret 1 True False, Write_ret 256, Drain_ret] @ idle_calls (gap_reply x)"

definition reply_clock :: "delivery \<Rightarrow> int list" where
  "reply_clock x = (case replied x of (c, c', c'') \<Rightarrow> c # c' # c'' # idle_clock (gap_reply x))"

definition delivery_calls :: "delivery \<Rightarrow> syscall list" where
  "delivery_calls x = arrival_calls (front x) @ concat (map piece_calls (pieces x)) @ idle_calls (gap_1t5 x) @ idle_calls (gap_3t5 x) @
     (case brings x of Mine q \<Rightarrow> reply_calls x | Theirs f \<Rightarrow> [])"

definition delivery_clock :: "delivery \<Rightarrow> int list" where
  "delivery_clock x = arrival_clock (front x) @ concat (map piece_clock (pieces x)) @ idle_clock (gap_1t5 x) @ armed x # idle_clock (gap_3t5 x) @
     (case brings x of Mine q \<Rightarrow> reply_clock x | Theirs f \<Rightarrow> [])"

text \<open>The pieces follow each other within 1.5t, and the silences last.\<close>

definition last_byte :: "delivery \<Rightarrow> int" where
  "last_byte x = last_stamp (last (head_stamps (front x))) (pieces x)"

definition delivery_timed :: "int \<Rightarrow> int \<Rightarrow> delivery \<Rightarrow> bool" where
  "delivery_timed t1 t3 x =
     (arrival_ok t1 (front x) \<and> pieces_ok t1 (last (head_stamps (front x))) (pieces x) \<and>
      silent t1 (last_byte x) (gap_1t5 x) \<and> silent t3 (armed x) (gap_3t5 x) \<and>
      (case brings x of Mine q \<Rightarrow> silent t3 (snd (snd (replied x))) (gap_reply x) | Theirs f \<Rightarrow> True))"

definition delivery_ok :: "rtu_memory_impl \<Rightarrow> delivery \<Rightarrow> bool" where
  "delivery_ok mi x = (traffic_ok mi (brings x) \<and> delivered x = traffic_frame (self_addr mi) (brings x))"

section \<open>Sessions\<close>

text \<open>The requests among the frames, the rounds of the loop they take, their calls and readings.\<close>

fun my_requests :: "delivery list \<Rightarrow> request list" where
  "my_requests [] = []"
| "my_requests (x # xs) = (case brings x of Mine q \<Rightarrow> q # my_requests xs | Theirs f \<Rightarrow> my_requests xs)"

definition frame_rounds :: "delivery \<Rightarrow> nat" where
  "frame_rounds x = Suc (sum_list (map piece_rounds (pieces x))) + length (gap_1t5 x) + length (gap_3t5 x)"

definition delivery_rounds :: "delivery \<Rightarrow> nat" where
  "delivery_rounds x = frame_rounds x + (case brings x of Mine q \<Rightarrow> length (gap_reply x) | Theirs f \<Rightarrow> 0)"

definition session_rounds :: "delivery list \<Rightarrow> nat" where
  "session_rounds xs = sum_list (map delivery_rounds xs)"

definition session_calls :: "delivery list \<Rightarrow> syscall list" where
  "session_calls xs = concat (map delivery_calls xs)"

definition session_clock :: "delivery list \<Rightarrow> int list" where
  "session_clock xs = concat (map delivery_clock xs)"

lemma session_simps [simp]:
  "session_rounds [] = 0" "session_rounds (x # xs) = delivery_rounds x + session_rounds xs"
  "session_calls [] = []" "session_calls (x # xs) = delivery_calls x @ session_calls xs"
  "session_clock [] = []" "session_clock (x # xs) = delivery_clock x @ session_clock xs"
  by (simp_all add: session_rounds_def session_calls_def session_clock_def)

lemma traffic_ok_shape:
  "same_shape (impl_memory mi) m' \<Longrightarrow> traffic_ok (mi\<lparr>impl_memory := m'\<rparr>) x = traffic_ok mi x"
proof (cases x)
  case (Mine q)
  assume "same_shape (impl_memory mi) m'"
  with Mine show ?thesis by (cases q) (simp_all add: same_shape_def)
qed simp

lemma traffic_length:
  "traffic_ok mi x \<Longrightarrow> 2 \<le> length (traffic_frame a x) \<and> length (traffic_frame a x) \<le> 256"
  by (cases x) (auto simp: frame_ok_def capacities)

lemma delivery_length: "delivery_ok mi x \<Longrightarrow> 2 \<le> length (delivered x) \<and> length (delivered x) \<le> 256"
  using traffic_length [of mi "brings x" "self_addr mi"] by (auto simp: delivery_ok_def)

text \<open>The rounds that every frame takes, until the silence of 1.5t is over.\<close>

lemma arrival_rounds:
  assumes "stage_of (mi, r, W, arrival_calls (front x) @ concat (map piece_calls (pieces x)) @ idle_calls (gap_1t5 x) @ cs) Ready [] s"
    and "clocked t1 t3 t (arrival_clock (front x) @- (concat (map piece_clock (pieces x)) @- (idle_clock (gap_1t5 x) @- (armed x ## c)))) (user_data s)"
    and "delivery_timed t1 t3 x" and "2 \<le> length (delivered x)" and "length (delivered x) \<le> 256" and "0 < t1"
  shows "\<exists>s'. run_rounds (Suc (sum_list (map piece_rounds (pieces x))) + length (gap_1t5 x) + k) ue s = run_rounds k ue s' \<and>
    stage_of (mi, r, W, cs) Ended (delivered x) s' \<and> clocked t1 t3 (armed x) c (user_data s')"
proof -
  let ?ps = "pieces x" and ?gap = "gap_1t5 x"
  let ?n = "sum_list (map piece_rounds ?ps)"
  note x = assms(3) [unfolded delivery_timed_def last_byte_def]
  have len: "length (head (front x)) \<le> 256" "length (head (front x)) + length (concat (map data ?ps)) \<le> 256"
    using assms(5) by (simp_all add: delivered_def)
  from frame_round [OF assms(1,2) _ len(1) assms(6), of ue] x obtain s1 where
    s1: "run_round ue s = Inr (s1, False)"
      "stage_of (mi, r, W, concat (map piece_calls ?ps) @ idle_calls ?gap @ cs) Receiving (head (front x)) s1"
      "clocked t1 t3 (last (head_stamps (front x))) (concat (map piece_clock ?ps) @- (idle_clock ?gap @- (armed x ## c))) (user_data s1)"
    by blast
  from pieces_rounds [OF s1(2,3) _ len(2) assms(6), of "length ?gap + k" ue] x obtain s2 where
    s2: "run_rounds (?n + (length ?gap + k)) ue s1 = run_rounds (length ?gap + k) ue s2"
      "stage_of (mi, r, W, idle_calls ?gap @ cs) Receiving (delivered x) s2"
      "clocked t1 t3 (last_byte x) (idle_clock ?gap @- (armed x ## c)) (user_data s2)"
    by (auto simp: delivered_def last_byte_def)
  from gap_rounds [OF s2(2,3) assms(4,6), of k ue] x obtain s3 where
    "run_rounds (length ?gap + k) ue s2 = run_rounds k ue s3" "stage_of (mi, r, W, cs) Ended (delivered x) s3"
    "clocked t1 t3 (armed x) c (user_data s3)"
    by (auto simp: last_byte_def)
  with s1(1) s2(1) show ?thesis
    by (intro exI [of _ s3]) (simp add: run_rounds_Suc ac_simps del: run_rounds.simps)
qed

text \<open>A request and a frame for another slave, from one idle state to the next.\<close>

lemma request_rounds:
  assumes "brings x = Mine q" and "stage_of (mi, r, W, delivery_calls x @ cs) Ready [] s"
    and "clocked t1 t3 t (delivery_clock x @- c) (user_data s)" and "0 < t1" and "0 < t3" and "delivery_timed t1 t3 x"
    and "mem_wf (impl_memory mi)" and "delivery_ok mi x" and "r \<noteq> B0"
  shows "\<exists>s' m' t'. run_rounds (delivery_rounds x + k) ue s = run_rounds k ue s' \<and> clocked t1 t3 t' c (user_data s') \<and>
    stage_of (mi\<lparr>impl_memory := m'\<rparr>, r, W @ adu (self_addr mi) (reply_pdu (snd (serve (mem_abs (impl_memory mi)) q))), cs) Ready [] s' \<and>
    mem_abs m' = fst (serve (mem_abs (impl_memory mi)) q) \<and> mem_wf m' \<and> same_shape (impl_memory mi) m'"
proof -
  let ?rest = "idle_calls (gap_reply x) @ cs" and ?W = "W @ adu (self_addr mi) (reply_pdu (snd (serve (mem_abs (impl_memory mi)) q)))"
  obtain c0 c1 c2 where rep: "replied x = (c0, c1, c2)" by (cases "replied x") auto
  have x: "silent t3 (armed x) (gap_3t5 x)" "silent t3 c2 (gap_reply x)"
    using assms(1,6) by (simp_all add: delivery_timed_def rep)
  have q: "delivered x = adu (self_addr mi) (request_pdu q)" "request_wf q" "write_in_window (impl_memory mi) q"
    using assms(1,8) by (simp_all add: delivery_ok_def)
  have "stage_of (mi, r, W, arrival_calls (front x) @ concat (map piece_calls (pieces x)) @ idle_calls (gap_1t5 x) @
      (idle_calls (gap_3t5 x) @ Poll_ret 1 True False # Write_ret 256 # Drain_ret # ?rest)) Ready [] s"
    using assms(1,2) by (simp add: delivery_calls_def reply_calls_def)
  moreover have "clocked t1 t3 t (arrival_clock (front x) @- (concat (map piece_clock (pieces x)) @- (idle_clock (gap_1t5 x) @-
      (armed x ## (idle_clock (gap_3t5 x) @- (c0 ## c1 ## c2 ## (idle_clock (gap_reply x) @- c))))))) (user_data s)"
    using assms(1,3) by (simp add: delivery_clock_def reply_clock_def rep)
  ultimately obtain s1 where
    s1: "run_rounds (frame_rounds x + (length (gap_reply x) + k)) ue s = run_rounds (length (gap_3t5 x) + (length (gap_reply x) + k)) ue s1"
      "stage_of (mi, r, W, idle_calls (gap_3t5 x) @ Poll_ret 1 True False # Write_ret 256 # Drain_ret # ?rest) Ended (adu (self_addr mi) (request_pdu q)) s1"
      "clocked t1 t3 (armed x) (idle_clock (gap_3t5 x) @- (c0 ## c1 ## c2 ## (idle_clock (gap_reply x) @- c))) (user_data s1)"
    using arrival_rounds [OF _ _ assms(6), of mi r W _ s t _ "length (gap_3t5 x) + (length (gap_reply x) + k)" ue]
      delivery_length [OF assms(8)] assms(4)
    by (force simp: frame_rounds_def q(1) ac_simps simp del: run_rounds.simps)
  from reply_rounds [OF s1(2,3) assms(5) x(1) assms(7) q(2,3) assms(9), of "length (gap_reply x) + k" ue] obtain s2 m' where
    s2: "run_rounds (length (gap_3t5 x) + (length (gap_reply x) + k)) ue s1 = run_rounds (length (gap_reply x) + k) ue s2"
      "clocked t1 t3 c2 (idle_clock (gap_reply x) @- c) (user_data s2)" "rested (mi\<lparr>impl_memory := m'\<rparr>) r ?W ?rest s2"
      "mem_abs m' = fst (serve (mem_abs (impl_memory mi)) q)" "mem_wf m'" "same_shape (impl_memory mi) m'"
    by auto
  from rest_rounds [OF s2(3,2) assms(5) x(2), of k ue] obtain s3 where
    s3: "run_rounds (length (gap_reply x) + k) ue s2 = run_rounds k ue s3" "stage_of (mi\<lparr>impl_memory := m'\<rparr>, r, ?W, cs) Ready [] s3"
      "clocked t1 t3 c2 c (user_data s3)"
    by blast
  have "run_rounds (delivery_rounds x + k) ue s = run_rounds k ue s3"
    using s1(1) s2(1) s3(1) assms(1) by (simp add: delivery_rounds_def ac_simps del: run_rounds.simps)
  with s3(2,3) s2(4-6) show ?thesis by blast
qed

lemma other_rounds:
  assumes "brings x = Theirs f" and "stage_of (mi, r, W, delivery_calls x @ cs) Ready [] s"
    and "clocked t1 t3 t (delivery_clock x @- c) (user_data s)" and "0 < t1" and "0 < t3" and "delivery_timed t1 t3 x"
    and "delivery_ok mi x"
  shows "\<exists>s' t'. run_rounds (delivery_rounds x + k) ue s = run_rounds k ue s' \<and> clocked t1 t3 t' c (user_data s') \<and>
    stage_of (mi, r, W, cs) Ready [] s'"
proof -
  have x: "silent t3 (armed x) (gap_3t5 x)" using assms(6) by (simp add: delivery_timed_def)
  have f: "frame_ok linux_platform (delivered x)" "hd (delivered x) \<noteq> self_addr mi"
    using assms(1,7) by (simp_all add: delivery_ok_def)
  have "stage_of (mi, r, W, arrival_calls (front x) @ concat (map piece_calls (pieces x)) @ idle_calls (gap_1t5 x) @
      (idle_calls (gap_3t5 x) @ cs)) Ready [] s"
    using assms(1,2) by (simp add: delivery_calls_def)
  moreover have "clocked t1 t3 t (arrival_clock (front x) @- (concat (map piece_clock (pieces x)) @- (idle_clock (gap_1t5 x) @-
      (armed x ## (idle_clock (gap_3t5 x) @- c))))) (user_data s)"
    using assms(1,3) by (simp add: delivery_clock_def)
  ultimately obtain s1 where
    s1: "run_rounds (frame_rounds x + k) ue s = run_rounds (length (gap_3t5 x) + k) ue s1"
      "stage_of (mi, r, W, idle_calls (gap_3t5 x) @ cs) Ended (delivered x) s1"
      "clocked t1 t3 (armed x) (idle_clock (gap_3t5 x) @- c) (user_data s1)"
    using arrival_rounds [OF _ _ assms(6), of mi r W _ s t _ "length (gap_3t5 x) + k" ue] delivery_length [OF assms(7)] assms(4)
    by (force simp: frame_rounds_def ac_simps simp del: run_rounds.simps)
  from ignore_rounds [OF s1(2,3) assms(5) x f, of k ue] obtain s2 where
    "run_rounds (length (gap_3t5 x) + k) ue s1 = run_rounds k ue s2" "stage_of (mi, r, W, cs) Ready [] s2"
    "clocked t1 t3 (armed x) c (user_data s2)"
    by blast
  with s1(1) assms(1) show ?thesis by (auto simp: delivery_rounds_def simp del: run_rounds.simps)
qed

lemma session_served:
  assumes "stage_of (mi, r, W, session_calls xs @ cs) Ready [] s" and "clocked t1 t3 t (session_clock xs @- c) (user_data s)"
    and "0 < t1" and "0 < t3" and "mem_wf (impl_memory mi)" and "r \<noteq> B0"
    and "list_all (\<lambda>x. delivery_ok mi x \<and> delivery_timed t1 t3 x) xs"
  shows "\<exists>s'. run_rounds (session_rounds xs) ue s = Inr (s', False) \<and>
    wire (dev (user_data s')) = W @ concat (map (\<lambda>rep. adu (self_addr mi) (reply_pdu rep))
      (snd (serve_all (mem_abs (impl_memory mi)) (my_requests xs)))) \<and>
    mem_abs (impl_memory (memory_impl (user_data s'))) = fst (serve_all (mem_abs (impl_memory mi)) (my_requests xs)) \<and>
    calls (dev (user_data s')) = cs \<and> curr_st s' = RTU_STATE_IDLE"
  using assms
proof (induction xs arbitrary: mi W s t)
  case Nil
  then show ?case by (auto simp: frame_at_def impl_app_def)
next
  case (Cons x xs)
  let ?m = "impl_memory mi"
  have x: "delivery_ok mi x" "delivery_timed t1 t3 x" using Cons.prems(7) by simp_all
  have s: "stage_of (mi, r, W, delivery_calls x @ (session_calls xs @ cs)) Ready [] s"
      "clocked t1 t3 t (delivery_clock x @- (session_clock xs @- c)) (user_data s)"
    using Cons.prems(1,2) by simp_all
  show ?case
  proof (cases "brings x")
    case (Mine q)
    let ?W = "W @ adu (self_addr mi) (reply_pdu (snd (serve (mem_abs ?m) q)))"
    from request_rounds [OF Mine s Cons.prems(3,4) x(2) Cons.prems(5) x(1) Cons.prems(6), of "session_rounds xs" ue]
    obtain s' m' t' where
      s': "run_rounds (delivery_rounds x + session_rounds xs) ue s = run_rounds (session_rounds xs) ue s'"
        "clocked t1 t3 t' (session_clock xs @- c) (user_data s')"
        "stage_of (mi\<lparr>impl_memory := m'\<rparr>, r, ?W, session_calls xs @ cs) Ready [] s'"
      and m': "mem_abs m' = fst (serve (mem_abs ?m) q)" "mem_wf m'" "same_shape ?m m'"
      by blast
    have "list_all (\<lambda>x. delivery_ok (mi\<lparr>impl_memory := m'\<rparr>) x \<and> delivery_timed t1 t3 x) xs"
      using Cons.prems(7) traffic_ok_shape [OF m'(3)] by (auto simp: list_all_iff delivery_ok_def)
    with Cons.IH [of "mi\<lparr>impl_memory := m'\<rparr>" ?W s' t'] s'(2,3) m'(2) Cons.prems(3,4,6) obtain s'' where
      "run_rounds (session_rounds xs) ue s' = Inr (s'', False)"
      "wire (dev (user_data s'')) = ?W @ concat (map (\<lambda>rep. adu (self_addr mi) (reply_pdu rep))
        (snd (serve_all (mem_abs m') (my_requests xs))))"
      "mem_abs (impl_memory (memory_impl (user_data s''))) = fst (serve_all (mem_abs m') (my_requests xs))"
      "calls (dev (user_data s'')) = cs" "curr_st s'' = RTU_STATE_IDLE"
      by auto
    with s'(1) m'(1) Mine show ?thesis
      by (simp add: split_beta Let_def del: run_rounds.simps serve.simps)
  next
    case (Theirs f)
    from other_rounds [OF Theirs s Cons.prems(3,4) x(2,1), of "session_rounds xs" ue] obtain s' t' where
      "run_rounds (delivery_rounds x + session_rounds xs) ue s = run_rounds (session_rounds xs) ue s'"
      "clocked t1 t3 t' (session_clock xs @- c) (user_data s')" "stage_of (mi, r, W, session_calls xs @ cs) Ready [] s'"
      by blast
    with Cons.IH [of mi W s' t'] Cons.prems(3-7) Theirs show ?thesis
      by (simp del: run_rounds.simps)
  qed
qed

section \<open>The property\<close>

text \<open>
  C1: \<open>modbus_rtu_run\<close>, started on a line that brings it frame after frame, requests to it whose writes
  stay in its memory (\<open>write_in_window\<close>, a run of registers with the values of bytes) and good frames for
  other slaves, answers every request and nothing else, with the intervals of its rate or custom ones. Each
  frame comes in any pieces that follow each other within 1.5t and with the silences of the protocol behind it;
  in front of a piece and in a silence \<open>tty_read_ll\<close> may try in vain and sleep any number of times,
  calls may be interrupted, and rounds may end before the timer has elapsed. The replies on the wire are then
  those of the abstract server over the sequence of the requests, and so is its memory; it neither hangs nor
  fails, and waits for the next frame.
\<close>

theorem run_serves_session:
  assumes "r \<noteq> B0" and "run_intervals r o1 o3 = Inr (t1, t3)" and "0 < t1" and "0 < t3" and "t1 \<noteq> t3"
    and "mem_wf (impl_memory mi)" and "list_all (\<lambda>x. delivery_ok mi x \<and> delivery_timed t1 t3 x) xs"
    and "silent t3 t0 gap" and "calls w = idle_calls gap @ session_calls xs @ cs"
    and "clock w = now ## t0 ## (idle_clock gap @ session_clock xs) @- c"
  shows "\<exists>s. modbus_rtu_run (length gap + session_rounds xs) w r o1 o3 mi user_event = Inr (s, False) \<and>
    wire (dev (user_data s)) = wire w @ concat (map (\<lambda>rep. adu (self_addr mi) (reply_pdu rep))
      (snd (serve_all (mem_abs (impl_memory mi)) (my_requests xs)))) \<and>
    mem_abs (impl_memory (memory_impl (user_data s))) = fst (serve_all (mem_abs (impl_memory mi)) (my_requests xs)) \<and>
    calls (dev (user_data s)) = cs \<and> curr_st s = RTU_STATE_IDLE"
proof -
  from run_start_rested [OF assms(2,5,10), of mi] obtain s where
    s: "run_start w r o1 o3 mi = Inr s" "rested mi r (wire w) (idle_calls gap @ (session_calls xs @ cs)) s"
      "clocked t1 t3 t0 (idle_clock gap @- (session_clock xs @- c)) (user_data s)"
    by (auto simp: assms(9))
  from rest_rounds [OF s(2,3) assms(4,8), of "session_rounds xs" user_event] obtain s1 where
    s1: "run_rounds (length gap + session_rounds xs) user_event s = run_rounds (session_rounds xs) user_event s1"
      "stage_of (mi, r, wire w, session_calls xs @ cs) Ready [] s1" "clocked t1 t3 t0 (session_clock xs @- c) (user_data s1)"
    by blast
  have "modbus_rtu_run (length gap + session_rounds xs) w r o1 o3 mi user_event = run_rounds (session_rounds xs) user_event s1"
    using s(1) s1(1) by (simp add: modbus_rtu_run_def del: run_rounds.simps)
  with session_served [OF s1(2,3) assms(3,4,6,1,7), of user_event] show ?thesis by simp
qed

text \<open>
  A session at 19200 bps. A silence of \<open>d\<close> is a vain attempt, a \<open>usleep\<close> and another attempt; a piece is
  read behind a vain attempt and an interrupted \<open>usleep\<close>; the first silence takes two rounds.
\<close>

definition demo_gap :: "int \<Rightarrow> int \<Rightarrow> idle_round" where
  "demo_gap t d = \<lparr>begun = t, tries = [\<lparr>woken = False, intr = False, after = t + 1\<rparr>, \<lparr>woken = False, intr = False, after = t + d\<rparr>],
     ended = t + d\<rparr>"

definition demo_start :: "idle_round list" where
  "demo_start =
     [\<lparr>begun = 0, tries = [\<lparr>woken = False, intr = True, after = 600\<rparr>, \<lparr>woken = True, intr = False, after = 1200\<rparr>], ended = 1200\<rparr>,
      demo_gap 1200 1750]"

fun demo_pieces :: "int \<Rightarrow> u8 list list \<Rightarrow> piece list" where
  "demo_pieces t [] = []"
| "demo_pieces t (bs # bss) =
     \<lparr>waits = [], asked = t, misses = [\<lparr>woken = False, intr = False, after = t + 1\<rparr>], dozed = True, data = bs,
      stamps = replicate (length bs) (t + 10), seen = t + 10\<rparr> # demo_pieces (t + 10) bss"

definition demo_delivery :: "int \<Rightarrow> traffic \<Rightarrow> u8 list \<Rightarrow> u8 list list \<Rightarrow> delivery" where
  "demo_delivery t x bs bss =
     \<lparr>brings = x,
      front = \<lparr>opened = t, interrupted = [t], polled = t, head = bs, head_stamps = replicate (length bs) t, head_seen = t\<rparr>,
      pieces = demo_pieces t bss, gap_1t5 = [demo_gap (t + 100) 750], armed = t + 1000, gap_3t5 = [demo_gap (t + 1000) 1750],
      replied = (t + 3000, t + 3000, t + 3000), gap_reply = [demo_gap (t + 3000) 1750]\<rparr>"

text \<open>Two requests in two and three pieces, and a frame for another slave between them.\<close>

definition demo_session :: "delivery list" where
  "demo_session =
     [demo_delivery 3000 (Mine (Wr_bytes 0x1001 [8, 9])) [7] [tl (adu 7 (request_pdu (Wr_bytes 0x1001 [8, 9])))],
      demo_delivery 9000 (Theirs (adu 8 [3])) (adu 8 [3]) [],
      demo_delivery 15000 (Mine (Rd_bytes 0x1001 2)) [7, 65] [[0x10], drop 3 (adu 7 (request_pdu (Rd_bytes 0x1001 2)))]]"

lemma demo_gap_silent: "1 < d \<Longrightarrow> t' \<le> t \<Longrightarrow> silent d t' [demo_gap t d]"
  by (simp add: silent_for_def waiting_def idle_ok_def demo_gap_def)

lemma demo_start_silent: "silent 1750 0 demo_start"
  by (simp add: silent_for_def waiting_def idle_ok_def demo_gap_def demo_start_def)

lemma demo_pieces_ok: "[] \<notin> set bss \<Longrightarrow> pieces_ok 750 t' (demo_pieces t bss) \<and> last_stamp t' (demo_pieces t bss) = (if bss = [] then t' else t + 10 * int (length bss))"
  by (induction bss arbitrary: t t') (auto simp: piece_ok_def waiting_def last_conv_nth)

lemma demo_pieces_data: "concat (map data (demo_pieces t bss)) = concat bss"
  by (induction bss arbitrary: t) simp_all

lemma demo_delivery_timed: "bs \<noteq> [] \<Longrightarrow> [] \<notin> set bss \<Longrightarrow> length bss \<le> 10 \<Longrightarrow> delivery_timed 750 1750 (demo_delivery t x bs bss)"
  using demo_pieces_ok [of bss t t]
  by (auto simp: delivery_timed_def demo_delivery_def arrival_ok_def last_byte_def last_conv_nth
      intro!: demo_gap_silent split: traffic.splits)

lemma demo_session_ok: "list_all (\<lambda>x. delivery_ok demo_memory x \<and> delivery_timed 750 1750 x) demo_session"
proof -
  have "frame_ok linux_platform (adu 8 [3])" by (rule frame_ok_adu) simp
  then have "list_all (delivery_ok demo_memory) demo_session"
    by (simp add: demo_session_def delivery_ok_def delivered_def demo_delivery_def demo_pieces_data request_pdu_def be16_def HIGH_BYTE_def LOW_BYTE_def)
      (simp add: demo_memory_def adu_def)
  moreover have "list_all (delivery_timed 750 1750) demo_session"
    unfolding demo_session_def list.pred_inject by (intro conjI demo_delivery_timed TrueI) (simp_all add: adu_def request_pdu_def)
  ultimately show ?thesis by (simp add: list_all_iff)
qed

theorem run_serves_session_witness:
  "\<exists>s. modbus_rtu_run 16
      (demo_os (0 ## 0 ## (idle_clock demo_start @ session_clock demo_session) @- sconst 0) (idle_calls demo_start @ session_calls demo_session))
      B19200 (- 1) (- 1) demo_memory False = Inr (s, False) \<and>
    wire (dev (user_data s)) = adu 7 (reply_pdu (Bytes_written 0x1001 2)) @ adu 7 (reply_pdu (Bytes_read 0x1001 [8, 9]))"
proof -
  let ?w = "demo_os (0 ## 0 ## (idle_clock demo_start @ session_clock demo_session) @- sconst 0)
    (idle_calls demo_start @ session_calls demo_session)"
  let ?reps = "snd (serve_all (mem_abs (impl_memory demo_memory)) (my_requests demo_session))"
  have rates: "run_intervals B19200 (- 1) (- 1) = Inr (750, 1750)"
    by (simp add: run_intervals_def calc_1t5_us_def calc_3t5_us_def)
  have w: "calls ?w = idle_calls demo_start @ session_calls demo_session @ []"
      "clock ?w = 0 ## 0 ## (idle_clock demo_start @ session_clock demo_session) @- sconst 0" "wire ?w = []"
    by (simp_all add: demo_os_def)
  have "length demo_start + session_rounds demo_session = 16"
    by (simp add: demo_session_def demo_start_def demo_delivery_def delivery_rounds_def frame_rounds_def piece_rounds_def)
  with run_serves_session [OF _ rates _ _ _ demo_memory_wf demo_session_ok demo_start_silent w(1,2), of False] w(3) obtain s where
    "modbus_rtu_run 16 ?w B19200 (- 1) (- 1) demo_memory False = Inr (s, False)"
    "wire (dev (user_data s)) = concat (map (\<lambda>rep. adu (self_addr demo_memory) (reply_pdu rep)) ?reps)"
    by auto
  moreover have "?reps = [Bytes_written 0x1001 2, Bytes_read 0x1001 [8, 9]]"
    by (simp add: demo_session_def demo_delivery_def mapped_def mem_abs_def demo_memory_def read_run_def upt_rec)
  ultimately show ?thesis by auto
qed

end
