(* ===== verification/Mcu_Port.thy ===== *)
theory Mcu_Port
  imports Linux_Properties "HOL-Library.While_Combinator"
begin

text \<open>
  What the ports to microcontrollers share: \<open>mcu\<close> is the data behind \<open>modbus_rtu_state\<close> of
  such a port, the state of its driver and that of the application.

  The drivers are not in the repository. Their macros and functions are parameters of the
  ports, of type \<open>'d \<Rightarrow> 'd\<close> for any type \<open>'d\<close> of driver states; what the ports need
  of them is stated on \<open>port_regs\<close>: the settings of a timer that decide whether its interrupt
  calls back and after how many ticks, and the bytes given to the transmitter. The application gives
  the port a PDU handler, which is a parameter as well; the locale \<open>pdu_provider\<close> is what the ports
  need of it, and \<open>rtu_memory_impl_pdu_cb\<close> provides it. \<open>port_session\<close>: a port that answers one request and
  then rests serves any sequence of them.
\<close>

record ('d, 'u) mcu =
  mcu_drv :: 'd
  mcu_app :: 'u

record port_regs =
  tr_top :: u16
  tr_clk :: u8
  tr_int :: bool
  tr_cb :: bool
  tx_sent :: "u8 list"

text \<open>A register write of a port.\<close>

definition on_drv :: "('d \<Rightarrow> 'd) \<Rightarrow> ('d, 'u, 'z) mcu_scheme modbus_rtu_state \<Rightarrow> ('d, 'u, 'z) mcu_scheme modbus_rtu_state" where
  "on_drv f s = s\<lparr>user_data := (user_data s)\<lparr>mcu_drv := f (mcu_drv (user_data s))\<rparr>\<rparr>"

lemma on_drv_simps [simp]:
  "user_data (on_drv f s) = (user_data s)\<lparr>mcu_drv := f (mcu_drv (user_data s))\<rparr>"
  "status (on_drv f s) = status s" "txbuf (on_drv f s) = txbuf s" "txbuf_curr (on_drv f s) = txbuf_curr s"
  "rxbuf (on_drv f s) = rxbuf s" "rxbuf_curr (on_drv f s) = rxbuf_curr s" "timer_cb (on_drv f s) = timer_cb s"
  by (simp_all add: on_drv_def)

lemma rtu_inv_new_data:
  "rtu_inv tmr good s \<Longrightarrow> tmr u = tmr (user_data s) \<Longrightarrow> good' u \<Longrightarrow> rtu_inv tmr good' (s\<lparr>user_data := u\<rparr>)"
  by (simp add: rtu_inv_def buffers_ok_def timer_agrees_def)

section \<open>The PDU handler\<close>

type_synonym 'u pdu_handler = "'u \<Rightarrow> u8 list \<Rightarrow> u8 \<Rightarrow> u8 \<Rightarrow> nat \<Rightarrow> nat \<Rightarrow> nat \<Rightarrow> cursor \<Rightarrow> ('u \<times> cursor) res"

definition mcu_pdu_cb :: "'u pdu_handler \<Rightarrow> ('d, 'u, 'z) mcu_scheme modbus_rtu_state \<Rightarrow> u8 \<Rightarrow> u8 \<Rightarrow> nat \<Rightarrow> nat \<Rightarrow> nat
    \<Rightarrow> nat \<Rightarrow> nat \<Rightarrow> (('d, 'u, 'z) mcu_scheme modbus_rtu_state \<times> nat) res" where
  "mcu_pdu_cb cb s addr fcode from to at dst_begin dst_end =
     bind_res (cb (mcu_app (user_data s)) (rxbuf s) addr fcode from to at (txbuf s, dst_begin)) (\<lambda>(app, buf, dst).
     Inr (s\<lparr>user_data := (user_data s)\<lparr>mcu_app := app\<rparr>, txbuf := buf\<rparr>, dst))"

text \<open>What \<open>rtu.c\<close> relies on: a reply leaves room for the CRC.\<close>

locale pdu_provider =
  fixes cb :: "'u pdu_handler"
  assumes reply_fits: "length tx = TXBUF_CAPACITY \<Longrightarrow> cb u rx a f from to at (tx, 0) = Inr (u', buf, dst) \<Longrightarrow>
    length buf = TXBUF_CAPACITY \<and> dst \<le> TXBUF_CAPACITY - 2"
begin

lemma mcu_pdu_ok:
  assumes "length (txbuf s) = TXBUF_CAPACITY"
    and "mcu_pdu_cb cb s a f b e c 0 (TXBUF_CAPACITY - 2) = Inr (s', dst)"
  shows "\<exists>app buf. s' = s\<lparr>user_data := (user_data s)\<lparr>mcu_app := app\<rparr>, txbuf := buf\<rparr> \<and>
    length buf = TXBUF_CAPACITY \<and> dst \<le> TXBUF_CAPACITY - 2"
proof -
  from assms(2) obtain app buf where
    h: "cb (mcu_app (user_data s)) (rxbuf s) a f b e c (txbuf s, 0) = Inr (app, buf, dst)"
    and s': "s' = s\<lparr>user_data := (user_data s)\<lparr>mcu_app := app\<rparr>, txbuf := buf\<rparr>"
    by (auto simp: mcu_pdu_cb_def bind_res_Inr_iff)
  from reply_fits [OF assms(1) h] s' show ?thesis by blast
qed

end

interpretation memory_handler: pdu_provider rtu_memory_impl_pdu_cb
  by unfold_locales (auto dest: memory_pdu_ok)

definition handler_fault :: "'u pdu_handler \<Rightarrow> fault \<Rightarrow> bool" where
  "handler_fault cb e \<longleftrightarrow> (\<exists>u rx a f from to at dst. cb u rx a f from to at dst = Inl e)"

lemma mcu_pdu_fault: "mcu_pdu_cb cb s a f b e c d d' = Inl x \<Longrightarrow> handler_fault cb x"
  unfolding mcu_pdu_cb_def handler_fault_def by (simp add: bind_res_Inl_iff split_beta) blast

section \<open>Executors of a port\<close>

text \<open>
  The interrupts of a port do their own work around the function of \<open>rtu.c\<close> that they call: they
  clear a flag, or arm the receiver again. An executor \<open>E\<close> wraps the input \<open>i\<close> when this work
  concerns the port's data only, and not what \<open>tmr\<close> and \<open>app\<close> read off it.
\<close>

definition wraps :: "'p platform \<Rightarrow> ('p \<Rightarrow> timer_mode) \<Rightarrow> ('p \<Rightarrow> bool) \<Rightarrow> ('p \<Rightarrow> 'a)
    \<Rightarrow> (input \<Rightarrow> 'p modbus_rtu_state \<Rightarrow> 'p modbus_rtu_state res) \<Rightarrow> input \<Rightarrow> bool" where
  "wraps P tmr good app E i \<longleftrightarrow> (\<forall>s. good (user_data s) \<longrightarrow> enabled tmr i s \<longrightarrow>
     (\<exists>mid u f. rtu_platform P tmr mid app \<and> mid u \<and> tmr u = tmr (user_data s) \<and> app u = app (user_data s) \<and>
       E i s = bind_res (exec P i (s\<lparr>user_data := u\<rparr>)) (\<lambda>t. Inr (t\<lparr>user_data := f (user_data t)\<rparr>)) \<and>
       (\<forall>v. mid v \<longrightarrow> good (f v) \<and> tmr (f v) = tmr v \<and> app (f v) = app v)))"

text \<open>The work before the call of \<open>rtu.c\<close> makes \<open>u s\<close> of the data, the work after it is \<open>f s\<close>.\<close>

lemma wrapsI:
  assumes "\<And>s. rtu_platform P tmr (mid s) app"
    and "\<And>s. good (user_data s) \<Longrightarrow> mid s (u s) \<and> tmr (u s) = tmr (user_data s) \<and> app (u s) = app (user_data s)"
    and "\<And>s. good (user_data s) \<Longrightarrow> enabled tmr i s \<Longrightarrow>
      E i s = bind_res (exec P i (s\<lparr>user_data := u s\<rparr>)) (\<lambda>t. Inr (t\<lparr>user_data := f s (user_data t)\<rparr>))"
    and "\<And>s v. mid s v \<Longrightarrow> good (f s v) \<and> tmr (f s v) = tmr v \<and> app (f s v) = app v"
  shows "wraps P tmr good app E i"
  unfolding wraps_def using assms by blast

lemma wraps_exec:
  assumes "rtu_platform P tmr good app" and "\<And>s. E i s = exec P i s"
  shows "wraps P tmr good app E i"
  by (rule wrapsI [where mid = "\<lambda>_. good" and u = user_data and f = "\<lambda>_. id"]) (simp_all add: assms)

lemma frame_at_new_data:
  assumes "frame_at tmr good app a st bs s" and "tmr u = tmr (user_data s)" and "good' u" and "app u = app (user_data s)"
  shows "frame_at tmr good' app a st bs (s\<lparr>user_data := u\<rparr>)"
proof -
  have "received (s\<lparr>user_data := u\<rparr>) = received s" by (rule received_cong) simp_all
  moreover have "at_stage st bs (s\<lparr>user_data := u\<rparr>)" using assms(1) by (cases st) (simp_all add: frame_at_def)
  moreover have "rtu_inv tmr good' (s\<lparr>user_data := u\<rparr>)"
    using assms by (intro rtu_inv_new_data [of tmr good s]) (simp_all add: frame_at_def)
  ultimately show ?thesis using assms by (simp add: frame_at_def)
qed

lemma wrapped_step:
  assumes w: "wraps P tmr good app E i" and at: "frame_at tmr good app a st bs s" and en: "enabled tmr i s"
    and step: "\<And>mid t. rtu_platform P tmr mid app \<Longrightarrow> frame_at tmr mid app a st bs t \<Longrightarrow>
      \<exists>t'. exec P i t = Inr t' \<and> frame_at tmr mid app a st' bs' t'"
  shows "\<exists>s'. E i s = Inr s' \<and> frame_at tmr good app a st' bs' s'"
proof -
  have "good (user_data s)" using at by (simp add: frame_at_def rtu_inv_def)
  with w en obtain mid u f where
    mid: "rtu_platform P tmr mid app" "mid u" "tmr u = tmr (user_data s)" "app u = app (user_data s)"
    and E: "E i s = bind_res (exec P i (s\<lparr>user_data := u\<rparr>)) (\<lambda>t. Inr (t\<lparr>user_data := f (user_data t)\<rparr>))"
    and f: "\<And>v. mid v \<Longrightarrow> good (f v) \<and> tmr (f v) = tmr v \<and> app (f v) = app v"
    unfolding wraps_def by blast
  from step [OF mid(1) frame_at_new_data [where u = u and good' = mid, OF at mid(3,2,4)]] obtain t where
    t: "exec P i (s\<lparr>user_data := u\<rparr>) = Inr t" "frame_at tmr mid app a st' bs' t" by blast
  then have "mid (user_data t)" by (simp add: frame_at_def rtu_inv_def)
  with f have "frame_at tmr good app a st' bs' (t\<lparr>user_data := f (user_data t)\<rparr>)"
    by (intro frame_at_new_data [OF t(2)]) simp_all
  with E t(1) show ?thesis by simp
qed

text \<open>The timer runs while a frame arrives.\<close>

lemma frame_timer_runs:
  assumes "frame_at tmr good app a st bs s" and "st = Receiving \<or> st = Ended"
  shows "enabled tmr Timeout s"
  using assms by (auto simp: frame_at_def rtu_inv_def timer_agrees_def split: if_split_asm)

lemma port_frame_machine:
  assumes plat: "rtu_platform P tmr good app" and recv: "\<And>b. wraps P tmr good app E (Recv b)"
    and timeout: "wraps P tmr good app E Timeout" and event: "\<And>s. E Event s = exec P Event s"
  shows "frame_machine E (frame_at tmr good app a)"
proof (unfold_locales, goal_cases)
  case (1 s b)
  show ?case
    by (rule wrapped_step [OF recv 1]) (use rtu_platform.frame_first_byte [of P tmr _ app a "[]"] in simp_all)
next
  case (2 bs s b)
  show ?case
    by (rule wrapped_step [OF recv 2(1)]) (use rtu_platform.frame_next_byte 2(2) in simp_all)
next
  case (3 bs s)
  show ?case
    by (rule wrapped_step [OF timeout 3(1) frame_timer_runs [OF 3(1)]], simp) (rule rtu_platform.frame_end [OF _ _ 3(2)])
next
  case (4 bs s)
  show ?case
    by (rule wrapped_step [OF timeout 4(1) frame_timer_runs [OF 4(1)]], simp) (rule rtu_platform.frame_confirmed)
next
  case (5 st bs s)
  from rtu_platform.frame_event [OF plat 5] show ?case unfolding event .
qed

section \<open>A request\<close>

text \<open>
  On every port with the memory handler and the CRC of the Linux build: the frame of a request
  ends in a call of \<open>serial_send\<close> on the frame of the abstract server's reply.
\<close>

lemma port_request:
  fixes P :: "('d, rtu_memory_impl, 'z) mcu_scheme platform"
  assumes plat: "rtu_platform P tmr good app" and P: "pdu_cb P = mcu_pdu_cb rtu_memory_impl_pdu_cb" "resume_cb P = None"
    and crc: "\<And>bs. calc_crc P bs = modbus_rtu_calc_crc (Some bs)" and app: "\<And>u. mcu_app u = g (app u)"
    and E: "frame_machine E (frame_at tmr good app x)" "\<And>s. E Event s = exec P Event s"
    and idle: "frame_at tmr good app x Ready [] s" and "is": "interrupts is = map Recv (adu a (request_pdu q))"
    and es: "set es \<subseteq> {Event}" and mi: "self_addr (g x) = a" "impl_memory (g x) = m" "mem_wf m"
    and q: "request_wf q" "write_in_window m q" "length (request_pdu q) \<le> 253"
  shows "\<exists>r u m'. run_inputs E (is @ Timeout # es @ [Timeout, Event]) s = serial_send P r \<and> rtu_inv tmr good r \<and>
    curr_st r = RTU_STATE_BUSY \<and> 2 < txbuf_curr r \<and> app u = x \<and> user_data r = u\<lparr>mcu_app := (g x)\<lparr>impl_memory := m'\<rparr>\<rparr> \<and>
    take (txbuf_curr r) (txbuf r) = adu a (reply_pdu (snd (serve (mem_abs m) q))) \<and>
    mem_abs m' = fst (serve (mem_abs m) q) \<and> mem_wf m' \<and> same_shape m m'"
proof -
  obtain pdu where pdu: "request_pdu q = request_fcode q # pdu" by (simp add: request_pdu_def)
  let ?f = "adu a (request_pdu q)"
  have len: "2 \<le> length ?f" "length ?f \<le> RXBUF_CAPACITY" using q(3) by (simp_all add: capacities)
  from frame_machine.whole_frame [OF E(1) idle "is" len es] obtain s1 where
    s1: "run_inputs E (is @ Timeout # es @ [Timeout]) s = Inr s1" "frame_at tmr good app x Complete ?f s1"
    by blast
  from rtu_platform.frame_processed [OF plat s1(2)] obtain t where
    t: "exec P Event s1 = bind_res (adu_process P t) (\<lambda>s. Inr (call_opt (resume_cb P) s))"
      "rtu_platform.pending tmr good t" "received t = ?f" "app (user_data t) = x"
    by blast
  have "run_inputs E (is @ Timeout # es @ [Timeout, Event]) s = E Event s1"
    using run_inputs_append [of E "is @ Timeout # es @ [Timeout]" "[Event]" s] s1(1) by (cases "E Event s1") simp_all
  also have "\<dots> = adu_process P t" unfolding E(2) t(1) P(2) by (cases "adu_process P t") (simp_all add: call_opt_def)
  finally have run: "run_inputs E (is @ Timeout # es @ [Timeout, Event]) s = adu_process P t" .
  have gx: "mcu_app (user_data t) = g x" using app [of "user_data t"] t(4) by simp
  have tx: "length (txbuf t) = TXBUF_CAPACITY" using t(2) by (simp add: rtu_platform.pending_def [OF plat])
  have "rxbuf t = ?f @ drop (rxbuf_curr t) (rxbuf t)"
    using t(3) unfolding received_def by (metis append_take_drop_id)
  then obtain rest where rx: "rxbuf t = a # request_pdu q @ rest" by (simp add: adu_def)
  let ?rp = "reply_pdu (snd (serve (mem_abs m) q))"
  from memory_pdu_request [OF tx mi(1) _ q(1), of rest, unfolded mi(2), OF mi(3) q(2), folded rx] obtain m' buf where
    h: "rtu_memory_impl_pdu_cb (g x) (rxbuf t) a (request_fcode q) 0 (Suc (length (request_pdu q))) 2 (txbuf t, 0) =
      Inr ((g x)\<lparr>impl_memory := m'\<rparr>, buf, Suc (length ?rp))"
    and buf: "take (Suc (length ?rp)) buf = a # ?rp"
    and m': "mem_abs m' = fst (serve (mem_abs m) q)" "mem_wf m'" "same_shape m m'"
    by blast
  have "pdu_cb P t a (request_fcode q) 0 (Suc (Suc (length pdu))) 2 0 (TXBUF_CAPACITY - 2) =
      Inr (t\<lparr>user_data := (user_data t)\<lparr>mcu_app := (g x)\<lparr>impl_memory := m'\<rparr>\<rparr>, txbuf := buf\<rparr>, Suc (length ?rp))"
    using h pdu by (simp add: P(1) mcu_pdu_cb_def gx)
  from rtu_platform.process_reply [OF plat t(2) t(3) [unfolded pdu] crc this buf] obtain r where
    "adu_process P t = serial_send P r" "rtu_inv tmr good r" "curr_st r = RTU_STATE_BUSY" "2 < txbuf_curr r"
    "user_data r = (user_data t)\<lparr>mcu_app := (g x)\<lparr>impl_memory := m'\<rparr>\<rparr>" "take (txbuf_curr r) (txbuf r) = adu a ?rp"
    by blast
  with run m' t(4) show ?thesis
    by (intro exI [of _ r] exI [of _ "user_data t"] exI [of _ m']) simp
qed

section \<open>A session\<close>

text \<open>A slave that waits for a frame.\<close>

definition port_idle :: "('p \<Rightarrow> timer_mode) \<Rightarrow> ('p \<Rightarrow> bool) \<Rightarrow> 'p modbus_rtu_state \<Rightarrow> bool" where
  "port_idle tmr good s = (rtu_inv tmr good s \<and> curr_st s = RTU_STATE_IDLE \<and> \<not> updated (status s))"

lemma port_idle_ready:
  "port_idle tmr good s \<Longrightarrow> frame_at tmr good app (app (user_data s)) Ready [] s"
  by (auto simp: port_idle_def frame_at_def rtu_inv_def buffers_ok_def received_def)

text \<open>The transmitter has sent the reply, the machine restarts, and a silence of 3.5t later it is idle.\<close>

lemma port_rests:
  assumes plat: "rtu_platform P tmr good app" and timeout: "wraps P tmr good app E Timeout"
    and E: "\<And>s. E Event s = exec P Event s" "E Sent s = Inr (serial_sent_cb s)"
    and s: "rtu_inv tmr good s" "curr_st s = RTU_STATE_BUSY"
  shows "\<exists>s'. run_inputs E [Sent, Event, Timeout, Event] s = Inr s' \<and> port_idle tmr good s' \<and>
    app (user_data s') = app (user_data s)"
proof -
  let ?s = "serial_sent_cb s"
  have "rtu_inv tmr good ?s" "curr_st ?s = RTU_STATE_INIT" "user_data ?s = user_data s"
    using serial_sent_inv [OF s(1)] s(2) by (simp_all add: serial_sent_cb_def state_defs)
  with rtu_platform.event_in_INIT_ok [OF plat, of ?s] obtain s1 where
    s1: "modbus_rtu_event P ?s = Inr s1" "rtu_inv tmr good s1" "curr_st s1 = RTU_STATE_INIT" "\<not> updated (status s1)"
      "app (user_data s1) = app (user_data s)"
    by auto
  have t: "good (user_data s1)" "tmr (user_data s1) = Running_3t5" "timer_cb s1 = Some Timer_silent_interval_cb"
      "\<not> st_error (status s1)"
    using s1(2-4) by (auto simp: rtu_inv_def timer_agrees_def)
  from timeout [unfolded wraps_def, rule_format, OF t(1)] t(2) obtain mid u f where
    mid: "rtu_platform P tmr mid app" "mid u" "tmr u = tmr (user_data s1)" "app u = app (user_data s1)"
    and E_timeout: "E Timeout s1 = bind_res (exec P Timeout (s1\<lparr>user_data := u\<rparr>)) (\<lambda>t. Inr (t\<lparr>user_data := f (user_data t)\<rparr>))"
    and f: "\<And>v. mid v \<Longrightarrow> good (f v) \<and> tmr (f v) = tmr v \<and> app (f v) = app v"
    by auto
  let ?t = "update_state RTU_STATE_IDLE (s1\<lparr>user_data := u\<rparr>)"
  have "rtu_inv tmr mid (s1\<lparr>user_data := u\<rparr>)" by (rule rtu_inv_new_data [where u = u and good' = mid, OF s1(2) mid(3,2)])
  from rtu_platform.silent_interval [OF mid(1) this] s1(3) obtain v where
    v: "timer_silent_interval_cb P (s1\<lparr>user_data := u\<rparr>) = Inr (?t\<lparr>user_data := v\<rparr>)"
      "rtu_inv tmr mid (?t\<lparr>user_data := v\<rparr>)" "app v = app u"
    by auto
  let ?r = "?t\<lparr>user_data := f v\<rparr>"
  have "mid v" using v(2) by (simp add: rtu_inv_def)
  then have r: "rtu_inv tmr good ?r" using rtu_inv_new_data [OF v(2), of "f v" good] f [of v] by simp
  have "E Timeout s1 = Inr ?r" unfolding E_timeout using v(1) t(3) by (simp add: call_timer_cb_def)
  moreover have "updated (status ?r)" "\<not> st_error (status ?r)" "curr_st ?r = RTU_STATE_IDLE" "prev_st ?r = RTU_STATE_INIT"
    using t(4) s1(3) by (simp_all add: state_defs)
  then have event: "E Event ?r = Inr (?r\<lparr>status := (status ?r)\<lparr>updated := False\<rparr>\<rparr>)"
    by (simp add: E(1) event_is_live [OF r] event_live_def Let_def)
  moreover have "rtu_inv tmr good (?r\<lparr>status := (status ?r)\<lparr>updated := False\<rparr>\<rparr>)"
    using rtu_platform.modbus_rtu_event_inv [OF plat r] event by (simp add: E(1))
  ultimately show ?thesis
    using s1(1,5) v(3) mid(4) f [OF \<open>mid v\<close>]
    by (intro exI [of _ "?r\<lparr>status := (status ?r)\<lparr>updated := False\<rparr>\<rparr>"]) (simp add: E port_idle_def state_defs)
qed

text \<open>
  A request with the inputs that bring it: its bytes with calls of the main loop in between, and the calls
  between its two timeouts. The reply goes out and the silence after it follows.
\<close>

type_synonym exchange = "request \<times> input list \<times> input list"

fun exchange_ok :: "u8 \<Rightarrow> rtu_memory \<Rightarrow> exchange \<Rightarrow> bool" where
  "exchange_ok a m (q, is, es) =
     (interrupts is = map Recv (adu a (request_pdu q)) \<and> set es \<subseteq> {Event} \<and>
      request_wf q \<and> write_in_window m q \<and> length (request_pdu q) \<le> 253)"

fun session_inputs :: "exchange list \<Rightarrow> input list" where
  "session_inputs [] = []"
| "session_inputs ((q, is, es) # xs) =
     (is @ Timeout # es @ [Timeout, Event]) @ [Sent, Event, Timeout, Event] @ session_inputs xs"

lemma exchange_ok_shape: "same_shape m m' \<Longrightarrow> exchange_ok a m' x = exchange_ok a m x"
proof (cases x)
  case (fields q "is" es)
  assume "same_shape m m'"
  with fields show ?thesis by (cases q) (simp_all add: same_shape_def)
qed

text \<open>A port that answers one request and then rests serves any sequence of them.\<close>

lemma port_session:
  assumes answers: "\<And>s m q is es. idle s \<Longrightarrow> self_addr (memory s) = a \<Longrightarrow> impl_memory (memory s) = m \<Longrightarrow> mem_wf m \<Longrightarrow>
      exchange_ok a m (q, is, es) \<Longrightarrow>
      \<exists>s' m'. run_inputs E (is @ Timeout # es @ [Timeout, Event]) s = Inr s' \<and> busy s' \<and>
        memory s' = (memory s)\<lparr>impl_memory := m'\<rparr> \<and> sent s' = sent s @ adu a (reply_pdu (snd (serve (mem_abs m) q))) \<and>
        mem_abs m' = fst (serve (mem_abs m) q) \<and> mem_wf m' \<and> same_shape m m'"
    and rests: "\<And>s. busy s \<Longrightarrow> \<exists>s'. run_inputs E [Sent, Event, Timeout, Event] s = Inr s' \<and> idle s' \<and>
        memory s' = memory s \<and> sent s' = sent s"
    and "idle s" and "self_addr (memory s) = a" and "impl_memory (memory s) = m" and "mem_wf m"
    and "list_all (exchange_ok a m) xs"
  shows "\<exists>s'. run_inputs E (session_inputs xs) s = Inr s' \<and> idle s' \<and>
    sent s' = sent s @ concat (map (\<lambda>rep. adu a (reply_pdu rep)) (snd (serve_all (mem_abs m) (map fst xs)))) \<and>
    mem_abs (impl_memory (memory s')) = fst (serve_all (mem_abs m) (map fst xs))"
  using assms(3-7)
proof (induction xs arbitrary: s m)
  case (Cons x xs)
  obtain q "is" es where x: "x = (q, is, es)" by (cases x)
  from answers [OF Cons.prems(1-4), of q "is" es] Cons.prems(5) obtain s1 m' where
    s1: "run_inputs E (is @ Timeout # es @ [Timeout, Event]) s = Inr s1" "busy s1"
      "memory s1 = (memory s)\<lparr>impl_memory := m'\<rparr>" "sent s1 = sent s @ adu a (reply_pdu (snd (serve (mem_abs m) q)))"
    and m': "mem_abs m' = fst (serve (mem_abs m) q)" "mem_wf m'" "same_shape m m'"
    by (auto simp: x)
  from rests [OF s1(2)] obtain s2 where
    s2: "run_inputs E [Sent, Event, Timeout, Event] s1 = Inr s2" "idle s2" "memory s2 = memory s1" "sent s2 = sent s1"
    by blast
  have "list_all (exchange_ok a m') xs" using Cons.prems(5) exchange_ok_shape [OF m'(3)] by (simp add: list_all_iff)
  with Cons.IH [OF s2(2), of m'] s2(3) s1(3) Cons.prems(2) m'(2) obtain s3 where
    s3: "run_inputs E (session_inputs xs) s2 = Inr s3" "idle s3"
      "sent s3 = sent s2 @ concat (map (\<lambda>rep. adu a (reply_pdu rep)) (snd (serve_all (mem_abs m') (map fst xs))))"
      "mem_abs (impl_memory (memory s3)) = fst (serve_all (mem_abs m') (map fst xs))"
    by auto
  have "run_inputs E (session_inputs (x # xs)) s = Inr s3"
    by (simp only: x session_inputs.simps run_inputs_append [of E "is @ Timeout # es @ [Timeout, Event]"]
        run_inputs_append [of E "[Sent, Event, Timeout, Event]"] s1(1) s2(1) s3(1) bind_res.simps)
  with s1(4) s2(4) s3 m'(1) show ?case
    by (intro exI [of _ s3]) (simp add: x split_beta Let_def del: session_inputs.simps serve.simps)
qed simp

text \<open>The exchanges of the witnesses of the ports: two bytes are written and read back.\<close>

definition demo_exchanges :: "exchange list" where
  "demo_exchanges =
     [(Wr_bytes 0x1001 [8, 9], Event # map Recv (adu 7 (request_pdu (Wr_bytes 0x1001 [8, 9]))), [Event]),
      (Rd_bytes 0x1001 2, map Recv (adu 7 (request_pdu (Rd_bytes 0x1001 2))), [])]"

lemma demo_exchanges_ok: "list_all (exchange_ok 7 (impl_memory demo_memory)) demo_exchanges"
  by (simp add: demo_exchanges_def request_pdu_def) (simp add: demo_memory_def)

lemma demo_replies:
  "concat (map (\<lambda>rep. adu 7 (reply_pdu rep)) (snd (serve_all (mem_abs (impl_memory demo_memory)) (map fst demo_exchanges)))) =
    adu 7 [FCODE_WR_BYTES, 0x10, 0x01, 2] @ adu 7 [FCODE_RD_BYTES, 0x10, 0x01, 2, 8, 9]"
proof -
  have "snd (serve_all (mem_abs (impl_memory demo_memory)) (map fst demo_exchanges)) =
      [Bytes_written 0x1001 2, Bytes_read 0x1001 [8, 9]]"
    by (simp add: demo_exchanges_def mapped_def mem_abs_def demo_memory_def read_run_def upt_rec)
  then show ?thesis by (simp add: be16_def HIGH_BYTE_def LOW_BYTE_def)
qed

section \<open>Inputs of a port\<close>

lemma port_exec_ok:
  assumes "rtu_platform P tmr good app" and "rtu_inv tmr good s" and "enabled tmr i s" and "i \<noteq> Event"
  shows "\<exists>s'. exec P i s = Inr s' \<and> rtu_inv tmr good s'"
proof (cases "exec P i s")
  case (Inl e)
  with rtu_platform.exec_fault [OF assms(1-3)] assms(4) show ?thesis by blast
next
  case (Inr s')
  with rtu_platform.exec_inv [OF assms(1-3)] show ?thesis by blast
qed

lemma port_event_fault:
  assumes "rtu_platform P tmr good app" and "rtu_inv tmr good s" and "modbus_rtu_event P s = Inl e"
    and "pdu_cb P = mcu_pdu_cb cb" and "\<And>t. rtu_inv tmr good t \<Longrightarrow> is_ok (serial_send P t)"
  shows "handler_fault cb e"
proof -
  have "client_fault P tmr good e"
    by (rule rtu_platform.modbus_rtu_event_fault [OF assms(1-3)])
  moreover have "serial_send P t \<noteq> Inl e" if "rtu_inv tmr good t" for t
    using assms(5) [OF that] by auto
  ultimately show ?thesis by (auto simp: client_fault_def assms(4) dest: mcu_pdu_fault)
qed

section \<open>The receive queue\<close>

text \<open>\<open>while (RX_READY()) (void)RD();\<close> after an error of the line; \<open>None\<close> is a loop without end.\<close>

definition flush_rx :: "('d \<Rightarrow> bool) \<Rightarrow> ('d \<Rightarrow> 'd) \<Rightarrow> 'd \<Rightarrow> 'd option" where
  "flush_rx ready rd d = while_option ready rd d"

text \<open>A queue that ends, and whose reads leave the timer alone, is emptied.\<close>

lemma flush_rx_ends:
  assumes "\<And>d. ready d \<Longrightarrow> queue (rd d) < (queue d :: nat)" and "\<And>d. regs (rd d) = regs d"
  shows "\<exists>d'. flush_rx ready rd d = Some d' \<and> \<not> ready d' \<and> regs d' = regs d"
proof -
  obtain d' where d': "while_option ready rd d = Some d'"
    using measure_while_option_Some [of "\<lambda>_. True" ready rd queue d] assms(1) by auto
  moreover have "regs d' = regs d"
    using while_option_rule [of "\<lambda>x. regs x = regs d" ready rd d d'] d' assms(2) by auto
  ultimately show ?thesis
    using while_option_stop [OF d'] by (auto simp: flush_rx_def)
qed

end
