(* ===== verification/Avr_Slave.thy ===== *)
theory Avr_Slave
  imports Mcu_Port
begin

text \<open>
  The port to the ATmega328P: \<open>atmega328p/rtu_impl.c\<close>, \<open>rtu_memory_impl.c\<close>,
  \<open>rtu_main.c\<close> and \<open>crc.c\<close>.

  \<open>avr_drv\<close> holds the macros and functions of \<open>atmega328p_drv\<close>, a submodule that is not in
  the repository, under their names; \<open>avr_drv_ok\<close> states what the registers of the timer and
  the interface of the driver promise of them. \<open>timer0_cb\<close> gets \<open>True\<close> for the callback
  \<open>tmr_cb\<close> and \<open>False\<close> for \<open>NULL\<close>. Logging is left out.
\<close>

section \<open>The driver\<close>

record 'd avr_drv =
  TMR0_MODE_CTC :: "'d \<Rightarrow> 'd"
  timer0_cb :: "bool \<Rightarrow> 'd \<Rightarrow> 'd"
  TMR0_WR_A :: "u8 \<Rightarrow> 'd \<Rightarrow> 'd"
  TMR0_WR_CNTR :: "u8 \<Rightarrow> 'd \<Rightarrow> 'd"
  TMR0_A_INT_ENABLE :: "'d \<Rightarrow> 'd"
  TMR0_A_INT_DISABLE :: "'d \<Rightarrow> 'd"
  TMR0_A_INT_CLEAR :: "'d \<Rightarrow> 'd"
  TMR0_CLK_DIV_256 :: "'d \<Rightarrow> 'd"
  TMR0_CLK_DISABLE :: "'d \<Rightarrow> 'd"
  TMR0_CLK_RD :: "'d \<Rightarrow> u8"
  TMR0_CLK_WR :: "u8 \<Rightarrow> 'd \<Rightarrow> 'd"
  CALC_BR :: "nat \<Rightarrow> nat \<Rightarrow> u16"
  USART0_BR :: "u16 \<Rightarrow> 'd \<Rightarrow> 'd"
  USART0_PARITY_EVEN :: "'d \<Rightarrow> 'd"
  USART0_RX_ENABLE :: "'d \<Rightarrow> 'd"
  USART0_TX_ENABLE :: "'d \<Rightarrow> 'd"
  USART0_RX_READY :: "'d \<Rightarrow> bool"
  USART0_RD :: "'d \<Rightarrow> 'd"
  usart0_async_send :: "u8 list \<Rightarrow> 'd \<Rightarrow> 'd"
  usart0_async_recv_cb :: "'d \<Rightarrow> 'd"

section \<open>The code\<close>

type_synonym ('d, 'u) avr_state = "('d, 'u) mcu modbus_rtu_state"

text \<open>\<open>crc.c\<close>; \<open>upd\<close> is \<open>_crc16_update\<close> of avr-libc.\<close>

definition avr_calc_crc :: "(u16 \<Rightarrow> u8 \<Rightarrow> u16) \<Rightarrow> u8 list \<Rightarrow> modbus_rtu_crc" where
  "avr_calc_crc upd bs = word_to_modbus_rtu_crc (foldl upd 0xFFFF bs)"

definition avr_tmr_init :: "'d avr_drv \<Rightarrow> 'd \<Rightarrow> 'd" where
  "avr_tmr_init D d = TMR0_MODE_CTC D d"

definition avr_tmr_start_1t5 :: "'d avr_drv \<Rightarrow> ('d, 'u) avr_state \<Rightarrow> ('d, 'u) avr_state res" where
  "avr_tmr_start_1t5 D s =
     (let s = on_drv (timer0_cb D True) s; s = on_drv (TMR0_WR_A D 47) s; s = on_drv (TMR0_WR_CNTR D 0) s;
          s = on_drv (TMR0_A_INT_ENABLE D) s
      in Inr (on_drv (TMR0_CLK_DIV_256 D) s))"

definition avr_tmr_start_3t5 :: "'d avr_drv \<Rightarrow> ('d, 'u) avr_state \<Rightarrow> ('d, 'u) avr_state res" where
  "avr_tmr_start_3t5 D s =
     (let s = on_drv (timer0_cb D True) s; s = on_drv (TMR0_WR_A D 110) s; s = on_drv (TMR0_WR_CNTR D 0) s;
          s = on_drv (TMR0_A_INT_ENABLE D) s
      in Inr (on_drv (TMR0_CLK_DIV_256 D) s))"

definition avr_tmr_stop :: "'d avr_drv \<Rightarrow> ('d, 'u) avr_state \<Rightarrow> ('d, 'u) avr_state res" where
  "avr_tmr_stop D s =
     (let s = on_drv (TMR0_CLK_DISABLE D) s; s = on_drv (TMR0_A_INT_DISABLE D) s;
          s = on_drv (TMR0_A_INT_CLEAR D) s
      in Inr (on_drv (timer0_cb D False) s))"

definition avr_tmr_reset :: "'d avr_drv \<Rightarrow> ('d, 'u) avr_state \<Rightarrow> ('d, 'u) avr_state res" where
  "avr_tmr_reset D s =
     (let value = TMR0_CLK_RD D (mcu_drv (user_data s)); s = on_drv (TMR0_CLK_DISABLE D) s;
          s = on_drv (TMR0_WR_CNTR D 0) s; s = on_drv (TMR0_A_INT_CLEAR D) s
      in Inr (on_drv (TMR0_CLK_WR D value) s))"

definition avr_usart_init :: "'d avr_drv \<Rightarrow> nat \<Rightarrow> 'd \<Rightarrow> 'd" where
  "avr_usart_init D CPU_CLK d =
     (let d = USART0_BR D (CALC_BR D CPU_CLK 19200) d; d = USART0_PARITY_EVEN D d; d = USART0_RX_ENABLE D d
      in USART0_TX_ENABLE D d)"

definition avr_serial_send :: "'d avr_drv \<Rightarrow> ('d, 'u) avr_state \<Rightarrow> ('d, 'u) avr_state res" where
  "avr_serial_send D s =
     bind_res (load_all Txbuf (txbuf s) 0 (txbuf_curr s)) (\<lambda>bs. Inr (on_drv (usart0_async_send D bs) s))"

text \<open>The functions that \<open>modbus_rtu_impl\<close> gives to \<open>modbus_rtu_init\<close>; \<open>main\<close> has no \<open>suspend\<close> and \<open>resume\<close>.\<close>

definition avr_platform :: "'d avr_drv \<Rightarrow> (u16 \<Rightarrow> u8 \<Rightarrow> u16) \<Rightarrow> 'u pdu_handler \<Rightarrow> ('d, 'u) mcu platform" where
  "avr_platform D upd cb =
     \<lparr>timer_start_1t5 = avr_tmr_start_1t5 D, timer_start_3t5 = avr_tmr_start_3t5 D,
      timer_stop = avr_tmr_stop D, timer_reset = avr_tmr_reset D, serial_send = avr_serial_send D,
      pdu_cb = mcu_pdu_cb cb, suspend_cb = None, resume_cb = None, calc_crc = avr_calc_crc upd\<rparr>"

definition avr_rtu_impl :: "'d avr_drv \<Rightarrow> nat \<Rightarrow> 'd \<Rightarrow> 'u \<Rightarrow> ('d, 'u) avr_state" where
  "avr_rtu_impl D CPU_CLK d app =
     (let d = avr_usart_init D CPU_CLK d; d = avr_tmr_init D d
      in on_drv (usart0_async_recv_cb D) (modbus_rtu_init \<lparr>mcu_drv = d, mcu_app = app\<rparr>))"

text \<open>The interrupt callbacks.\<close>

definition avr_tmr_cb :: "('d, 'u) mcu platform \<Rightarrow> ('d, 'u) avr_state \<Rightarrow> ('d, 'u) avr_state res" where
  "avr_tmr_cb P s = call_timer_cb P s"

definition avr_usart_rx_recv_cb :: "'d avr_drv \<Rightarrow> ('d, 'u) mcu platform \<Rightarrow> u8 \<Rightarrow> u8 \<Rightarrow> ('d, 'u) avr_state
    \<Rightarrow> ('d, 'u) avr_state res" where
  "avr_usart_rx_recv_cb D P data fop_errors s =
     (if fop_errors = 0 then serial_recv_cb P s data
      else case flush_rx (USART0_RX_READY D) (USART0_RD D) (mcu_drv (user_data s)) of
        None \<Rightarrow> Inl OutOfFuel
      | Some d \<Rightarrow> Inr (serial_recv_err_cb (on_drv (\<lambda>_. d) s) data))"

definition avr_usart_tx_complete_cb :: "('d, 'u) avr_state \<Rightarrow> ('d, 'u) avr_state" where
  "avr_usart_tx_complete_cb s = serial_sent_cb s"

text \<open>\<open>rtu_memory_impl.c\<close>.\<close>

definition avr_memory_impl_clear :: "nat \<Rightarrow> rtu_memory_impl" where
  "avr_memory_impl_clear sz =
     \<lparr>self_addr = 0, impl_memory = \<lparr>addr_begin = 0, addr_end = 0, mem_bytes = replicate sz 0\<rparr>\<rparr>"

definition avr_memory_impl_init :: "u16 \<Rightarrow> u16 \<Rightarrow> rtu_memory_impl \<Rightarrow> rtu_memory_impl" where
  "avr_memory_impl_init addr sz impl =
     (let m = (impl_memory impl)\<lparr>addr_begin := addr\<rparr>; m = m\<lparr>addr_end := addr + sz\<rparr> in impl\<lparr>impl_memory := m\<rparr>)"

definition avr_memory_impl_pdu_cb :: "rtu_memory_impl pdu_handler" where
  "avr_memory_impl_pdu_cb impl rx addr fcode from to at dst =
     (if self_addr impl \<noteq> addr then Inr (impl, dst)
      else bind_res (put Txbuf dst addr) (\<lambda>dst.
           bind_res (rtu_memory_pdu_cb (impl_memory impl) rx fcode (from + 1) to at dst) (\<lambda>(m, dst).
           Inr (impl\<lparr>impl_memory := m\<rparr>, dst))))"

text \<open>
  \<open>main\<close> up to its loop, and a round of it. \<open>tlog\<close> is \<open>TLOG_INIT\<close> on the bytes of
  the memory, \<open>eeprom\<close> the byte read at \<open>EEPROM_ADDR_RTU_ADDR\<close>; \<open>dispatch\<close> is empty.
\<close>

definition avr_main :: "'d avr_drv \<Rightarrow> nat \<Rightarrow> (u8 list \<Rightarrow> u8 list) \<Rightarrow> u8 \<Rightarrow> u16 \<Rightarrow> u16 \<Rightarrow> 'd
    \<Rightarrow> ('d, rtu_memory_impl) avr_state" where
  "avr_main D CPU_CLK tlog eeprom addr sz d =
     (let mi = avr_memory_impl_init addr sz (avr_memory_impl_clear (unat sz));
          m = impl_memory mi; mi = mi\<lparr>impl_memory := m\<lparr>mem_bytes := tlog (mem_bytes m)\<rparr>\<rparr>;
          mi = mi\<lparr>self_addr := eeprom\<rparr>
      in avr_rtu_impl D CPU_CLK d mi)"

definition avr_main_round :: "('d, 'u) mcu platform \<Rightarrow> ('d, 'u) avr_state \<Rightarrow> ('d, 'u) avr_state res" where
  "avr_main_round P s = modbus_rtu_event P s"

section \<open>What the driver promises\<close>

text \<open>
  Each macro writes the register it is named after: \<open>TMR0_CLK_DIV_256\<close> the clock select bits
  100, \<open>TMR0_CLK_DISABLE\<close> 000; the functions of the USART leave the timer alone, the bytes of
  \<open>usart0_async_send\<close> go out, and a read takes a byte out of the receive queue. \<open>regs\<close> and \<open>queue\<close> observe the driver.
\<close>

definition avr_drv_ok :: "'d avr_drv \<Rightarrow> ('d \<Rightarrow> port_regs) \<Rightarrow> ('d \<Rightarrow> nat) \<Rightarrow> bool" where
  "avr_drv_ok D regs queue \<longleftrightarrow>
     (\<forall>d. regs (TMR0_MODE_CTC D d) = regs d) \<and>
     (\<forall>d b. regs (timer0_cb D b d) = (regs d)\<lparr>tr_cb := b\<rparr>) \<and>
     (\<forall>d v. regs (TMR0_WR_A D v d) = (regs d)\<lparr>tr_top := ucast v\<rparr>) \<and>
     (\<forall>d v. regs (TMR0_WR_CNTR D v d) = regs d) \<and>
     (\<forall>d. regs (TMR0_A_INT_ENABLE D d) = (regs d)\<lparr>tr_int := True\<rparr>) \<and>
     (\<forall>d. regs (TMR0_A_INT_DISABLE D d) = (regs d)\<lparr>tr_int := False\<rparr>) \<and>
     (\<forall>d. regs (TMR0_A_INT_CLEAR D d) = regs d) \<and>
     (\<forall>d. regs (TMR0_CLK_DIV_256 D d) = (regs d)\<lparr>tr_clk := 4\<rparr>) \<and>
     (\<forall>d. regs (TMR0_CLK_DISABLE D d) = (regs d)\<lparr>tr_clk := 0\<rparr>) \<and>
     (\<forall>d. TMR0_CLK_RD D d = tr_clk (regs d)) \<and>
     (\<forall>d v. regs (TMR0_CLK_WR D v d) = (regs d)\<lparr>tr_clk := v\<rparr>) \<and>
     (\<forall>d v. regs (USART0_BR D v d) = regs d) \<and> (\<forall>d. regs (USART0_PARITY_EVEN D d) = regs d) \<and>
     (\<forall>d. regs (USART0_RX_ENABLE D d) = regs d) \<and> (\<forall>d. regs (USART0_TX_ENABLE D d) = regs d) \<and>
     (\<forall>d. regs (USART0_RD D d) = regs d) \<and> (\<forall>d. USART0_RX_READY D d \<longrightarrow> queue (USART0_RD D d) < queue d) \<and>
     (\<forall>d bs. regs (usart0_async_send D bs d) = (regs d)\<lparr>tx_sent := tx_sent (regs d) @ bs\<rparr>) \<and> (\<forall>d. regs (usart0_async_recv_cb D d) = regs d)"

text \<open>Which timer runs, and what holds of a timer that runs.\<close>

definition avr_mode :: "('d \<Rightarrow> port_regs) \<Rightarrow> ('d, 'u) mcu \<Rightarrow> timer_mode" where
  "avr_mode regs u = (let r = regs (mcu_drv u) in
     if tr_clk r = 0 then Stopped else if tr_top r = 47 then Running_1t5 else Running_3t5)"

definition avr_good :: "('d \<Rightarrow> port_regs) \<Rightarrow> ('d, 'u) mcu \<Rightarrow> bool" where
  "avr_good regs u = (let r = regs (mcu_drv u) in
     tr_clk r \<noteq> 0 \<longrightarrow> tr_clk r = 4 \<and> tr_int r \<and> tr_cb r \<and> (tr_top r = 47 \<or> tr_top r = 110))"

lemmas avr_mode_defs = avr_mode_def avr_good_def Let_def

lemma avr_platform_simps [simp]:
  "timer_start_1t5 (avr_platform D upd cb) = avr_tmr_start_1t5 D"
  "timer_start_3t5 (avr_platform D upd cb) = avr_tmr_start_3t5 D"
  "timer_stop (avr_platform D upd cb) = avr_tmr_stop D" "timer_reset (avr_platform D upd cb) = avr_tmr_reset D"
  "serial_send (avr_platform D upd cb) = avr_serial_send D" "pdu_cb (avr_platform D upd cb) = mcu_pdu_cb cb"
  "suspend_cb (avr_platform D upd cb) = None" "resume_cb (avr_platform D upd cb) = None"
  by (simp_all add: avr_platform_def)

lemma avr_drv_keeps:
  assumes "rtu_inv (avr_mode regs) (avr_good regs) s"
    and "tr_clk (regs (f (mcu_drv (user_data s)))) = tr_clk (regs (mcu_drv (user_data s)))"
    and "tr_top (regs (f (mcu_drv (user_data s)))) = tr_top (regs (mcu_drv (user_data s)))"
    and "tr_int (regs (f (mcu_drv (user_data s)))) = tr_int (regs (mcu_drv (user_data s)))"
    and "tr_cb (regs (f (mcu_drv (user_data s)))) = tr_cb (regs (mcu_drv (user_data s)))"
  shows "rtu_inv (avr_mode regs) (avr_good regs) (on_drv f s)"
  unfolding on_drv_def
  using assms by (intro rtu_inv_user_data) (simp_all add: rtu_inv_def avr_mode_defs)

lemma avr_rtu_platform:
  assumes D: "avr_drv_ok D regs queue" and cb: "pdu_provider cb"
  shows "rtu_platform (avr_platform D upd cb) (avr_mode regs) (avr_good regs)
    (\<lambda>u. (mcu_app u, tx_sent (regs (mcu_drv u))))"
proof (unfold_locales, goal_cases)
  case (1 s)
  then show ?case
    using D by (intro exI [of _ "user_data (projr (avr_tmr_start_1t5 D s))"])
      (simp add: avr_tmr_start_1t5_def Let_def on_drv_def avr_drv_ok_def avr_mode_defs)
next
  case (2 s)
  then show ?case
    using D by (intro exI [of _ "user_data (projr (avr_tmr_start_3t5 D s))"])
      (simp add: avr_tmr_start_3t5_def Let_def on_drv_def avr_drv_ok_def avr_mode_defs)
next
  case (3 s)
  then show ?case
    using D by (intro exI [of _ "user_data (projr (avr_tmr_stop D s))"])
      (simp add: avr_tmr_stop_def Let_def on_drv_def avr_drv_ok_def avr_mode_defs)
next
  case (4 s)
  then show ?case
    using D by (intro exI [of _ "user_data (projr (avr_tmr_reset D s))"])
      (simp add: avr_tmr_reset_def Let_def on_drv_def avr_drv_ok_def avr_mode_defs)
next
  case (7 s s' dst)
  from pdu_provider.mcu_pdu_ok [OF cb 7(3) 7(6) [simplified]] obtain app buf where
    "s' = s\<lparr>user_data := (user_data s)\<lparr>mcu_app := app\<rparr>, txbuf := buf\<rparr>" "length buf = TXBUF_CAPACITY"
    "dst \<le> TXBUF_CAPACITY - 2" by blast
  then show ?case
    using 7(1) by (intro exI [of _ "(user_data s)\<lparr>mcu_app := app\<rparr>"] exI [of _ buf]) (simp add: avr_mode_defs)
next
  case (8 s s')
  then obtain bs where "s' = on_drv (usart0_async_send D bs) s"
    by (auto simp: avr_serial_send_def bind_res_Inr_iff)
  with 8(1) D show ?case by (simp add: avr_drv_keeps avr_drv_ok_def)
qed simp_all

section \<open>The slave\<close>

text \<open>
  The interrupts and the main loop in any order. The hardware may change the driver behind the
  registers, and the application its data (the log is a part of the memory).
\<close>

inductive avr_step :: "'d avr_drv \<Rightarrow> (u16 \<Rightarrow> u8 \<Rightarrow> u16) \<Rightarrow> 'u pdu_handler \<Rightarrow> ('d \<Rightarrow> port_regs)
    \<Rightarrow> ('d, 'u) avr_state \<Rightarrow> ('d, 'u) avr_state \<Rightarrow> bool" for D upd cb regs where
  tmr: "avr_mode regs (user_data s) \<noteq> Stopped \<Longrightarrow> avr_tmr_cb (avr_platform D upd cb) s = Inr s' \<Longrightarrow>
    avr_step D upd cb regs s s'"
| rx: "avr_usart_rx_recv_cb D (avr_platform D upd cb) data fop_errors s = Inr s' \<Longrightarrow> avr_step D upd cb regs s s'"
| tx: "avr_step D upd cb regs s (avr_usart_tx_complete_cb s)"
| main: "avr_main_round (avr_platform D upd cb) s = Inr s' \<Longrightarrow> avr_step D upd cb regs s s'"
| hw: "regs d = regs (mcu_drv (user_data s)) \<Longrightarrow> avr_step D upd cb regs s (on_drv (\<lambda>_. d) s)"
| app: "avr_step D upd cb regs s (s\<lparr>user_data := (user_data s)\<lparr>mcu_app := x\<rparr>\<rparr>)"

inductive avr_reachable :: "'d avr_drv \<Rightarrow> (u16 \<Rightarrow> u8 \<Rightarrow> u16) \<Rightarrow> 'u pdu_handler \<Rightarrow> ('d \<Rightarrow> port_regs)
    \<Rightarrow> ('d, 'u) avr_state \<Rightarrow> ('d, 'u) avr_state \<Rightarrow> bool" for D upd cb regs s0 where
  init: "avr_reachable D upd cb regs s0 s0"
| step: "avr_reachable D upd cb regs s0 s \<Longrightarrow> avr_step D upd cb regs s s' \<Longrightarrow> avr_reachable D upd cb regs s0 s'"

lemma avr_rx_eq:
  assumes D: "avr_drv_ok D regs queue"
  shows "\<exists>d. regs d = regs (mcu_drv (user_data s)) \<and> avr_usart_rx_recv_cb D P data fop_errors s =
    (if fop_errors = 0 then exec P (Recv data) s else exec P (Recv_err data) (on_drv (\<lambda>_. d) s))"
proof -
  have "\<exists>d. flush_rx (USART0_RX_READY D) (USART0_RD D) (mcu_drv (user_data s)) = Some d \<and>
      \<not> USART0_RX_READY D d \<and> regs d = regs (mcu_drv (user_data s))"
    using D by (intro flush_rx_ends [where queue = queue]) (simp_all add: avr_drv_ok_def)
  then show ?thesis by (auto simp: avr_usart_rx_recv_cb_def)
qed

lemma avr_step_inv:
  assumes D: "avr_drv_ok D regs queue" and cb: "pdu_provider cb"
    and step: "avr_step D upd cb regs s s'" and inv: "rtu_inv (avr_mode regs) (avr_good regs) s"
  shows "rtu_inv (avr_mode regs) (avr_good regs) s'"
proof -
  note exec = rtu_platform.exec_inv [OF avr_rtu_platform [OF D cb, of upd]]
  note hw = avr_drv_keeps [OF inv]
  show ?thesis
    using step
  proof cases
    case tmr
    then show ?thesis using exec [OF inv, of Timeout s'] by (simp add: avr_tmr_cb_def)
  next
    case (rx data fop_errors)
    with avr_rx_eq [OF D, of s "avr_platform D upd cb" data fop_errors] obtain d where
      "regs d = regs (mcu_drv (user_data s))"
      "(if fop_errors = 0 then exec (avr_platform D upd cb) (Recv data) s
        else exec (avr_platform D upd cb) (Recv_err data) (on_drv (\<lambda>_. d) s)) = Inr s'"
      by auto
    with exec [OF inv, of "Recv data" s'] exec [OF hw [of "\<lambda>_. d"], of "Recv_err data" s'] show ?thesis
      by (auto split: if_split_asm)
  next
    case tx
    then show ?thesis using serial_sent_inv [OF inv] by (simp add: avr_usart_tx_complete_cb_def)
  next
    case main
    then show ?thesis using exec [OF inv, of Event s'] by (simp add: avr_main_round_def)
  next
    case (hw d)
    then show ?thesis by (simp add: avr_drv_keeps [OF inv])
  next
    case (app x)
    show ?thesis
      unfolding app by (rule rtu_inv_user_data [OF inv]) (use inv in \<open>simp_all add: rtu_inv_def avr_mode_defs\<close>)
  qed
qed

lemma avr_impl_inv:
  assumes "avr_drv_ok D regs queue" and "tr_clk (regs d) = 0"
  shows "rtu_inv (avr_mode regs) (avr_good regs) (avr_rtu_impl D CPU_CLK d app)"
  unfolding avr_rtu_impl_def Let_def avr_usart_init_def avr_tmr_init_def
  using assms by (intro avr_drv_keeps rtu_inv_init) (simp_all add: avr_drv_ok_def avr_mode_defs modbus_rtu_init_def)

lemma avr_reachable_inv:
  assumes "avr_drv_ok D regs queue" and "pdu_provider cb" and "tr_clk (regs d) = 0"
    and "avr_reachable D upd cb regs (avr_rtu_impl D CPU_CLK d app) s"
  shows "rtu_inv (avr_mode regs) (avr_good regs) s"
  using assms(4) by induction (auto intro: avr_step_inv [OF assms(1,2)] avr_impl_inv [OF assms(1,3)])



lemma avr_memory_handler: "avr_memory_impl_pdu_cb = rtu_memory_impl_pdu_cb"
  by (simp add: fun_eq_iff avr_memory_impl_pdu_cb_def rtu_memory_impl_pdu_cb_def)

interpretation avr_memory: pdu_provider avr_memory_impl_pdu_cb
  unfolding avr_memory_handler by (rule memory_handler.pdu_provider_axioms)


section \<open>A driver that keeps its promises\<close>

text \<open>The registers themselves, and the number of bytes that wait.\<close>

definition demo_avr :: "(port_regs \<times> nat) avr_drv" where
  "demo_avr = \<lparr>TMR0_MODE_CTC = id,
     timer0_cb = (\<lambda>b (r, n). (r\<lparr>tr_cb := b\<rparr>, n)),
     TMR0_WR_A = (\<lambda>v (r, n). (r\<lparr>tr_top := ucast v\<rparr>, n)), TMR0_WR_CNTR = (\<lambda>v. id),
     TMR0_A_INT_ENABLE = (\<lambda>(r, n). (r\<lparr>tr_int := True\<rparr>, n)),
     TMR0_A_INT_DISABLE = (\<lambda>(r, n). (r\<lparr>tr_int := False\<rparr>, n)), TMR0_A_INT_CLEAR = id,
     TMR0_CLK_DIV_256 = (\<lambda>(r, n). (r\<lparr>tr_clk := 4\<rparr>, n)), TMR0_CLK_DISABLE = (\<lambda>(r, n). (r\<lparr>tr_clk := 0\<rparr>, n)),
     TMR0_CLK_RD = (\<lambda>(r, n). tr_clk r), TMR0_CLK_WR = (\<lambda>v (r, n). (r\<lparr>tr_clk := v\<rparr>, n)),
     CALC_BR = (\<lambda>clk bps. of_nat (clk div (16 * bps) - 1)), USART0_BR = (\<lambda>v. id), USART0_PARITY_EVEN = id,
     USART0_RX_ENABLE = id, USART0_TX_ENABLE = id,
     USART0_RX_READY = (\<lambda>(r, n). 0 < n), USART0_RD = (\<lambda>(r, n). (r, n - 1)),
     usart0_async_send = (\<lambda>bs (r, n). (r\<lparr>tx_sent := tx_sent r @ bs\<rparr>, n)), usart0_async_recv_cb = id\<rparr>"

definition demo_port :: "port_regs \<times> nat" where
  "demo_port = (\<lparr>tr_top = 0, tr_clk = 0, tr_int = False, tr_cb = False, tx_sent = []\<rparr>, 0)"

lemma demo_avr_ok: "avr_drv_ok demo_avr fst snd"
  by (simp add: avr_drv_ok_def demo_avr_def split_beta)

definition demo_upd :: "u16 \<Rightarrow> u8 \<Rightarrow> u16" where
  "demo_upd c b = (crc_shift ^^ 8) (c XOR ucast b)"

section \<open>Properties\<close>

text \<open>
  C28: on the ATmega328P, whatever the order of interrupts, rounds of the main loop and changes of
  the hardware behind its registers: the state machine keeps its invariant with the timer mode read
  off the registers, every interrupt returns (the loop that empties the receive queue too), and the
  main loop fails only where the PDU handler does.
\<close>

theorem avr_slave_safe:
  assumes "avr_drv_ok D regs queue" and "pdu_provider cb" and "tr_clk (regs d) = 0"
    and "avr_reachable D upd cb regs (avr_rtu_impl D CPU_CLK d app) s"
  shows "rtu_inv (avr_mode regs) (avr_good regs) s \<and>
    (avr_mode regs (user_data s) \<noteq> Stopped \<longrightarrow> is_ok (avr_tmr_cb (avr_platform D upd cb) s)) \<and>
    is_ok (avr_usart_rx_recv_cb D (avr_platform D upd cb) data fop_errors s) \<and>
    (avr_main_round (avr_platform D upd cb) s = Inl e \<longrightarrow> handler_fault cb e)"
proof -
  let ?P = "avr_platform D upd cb"
  note plat = avr_rtu_platform [OF assms(1,2), of upd]
  have inv: "rtu_inv (avr_mode regs) (avr_good regs) s" by (rule avr_reachable_inv [OF assms])
  have timer: "avr_mode regs (user_data s) \<noteq> Stopped \<longrightarrow> is_ok (avr_tmr_cb ?P s)"
    using port_exec_ok [OF plat inv, of Timeout] by (auto simp: avr_tmr_cb_def)
  obtain x where "avr_usart_rx_recv_cb D ?P data fop_errors s =
      (if fop_errors = 0 then exec ?P (Recv data) s else exec ?P (Recv_err data) (on_drv (\<lambda>_. x) s))"
    using avr_rx_eq [OF assms(1)] by blast
  then have rx: "is_ok (avr_usart_rx_recv_cb D ?P data fop_errors s)"
    using port_exec_ok [OF plat inv, of "Recv data"] by auto
  have main: "handler_fault cb e" if "avr_main_round ?P s = Inl e"
    by (rule port_event_fault [OF plat inv that [unfolded avr_main_round_def]])
      (simp_all add: avr_serial_send_def load_all_ok rtu_inv_def buffers_ok_def)
  from inv timer rx main show ?thesis by blast
qed

text \<open>After the first event and the silence that it waits for, the machine is idle.\<close>

theorem avr_slave_safe_witness:
  "\<exists>s. avr_main_round (avr_platform demo_avr demo_upd avr_memory_impl_pdu_cb)
      (avr_main demo_avr 16000000 id 7 0x1000 16 demo_port) = Inr s \<and>
    avr_mode fst (user_data s) = Running_3t5 \<and>
    is_ok (avr_tmr_cb (avr_platform demo_avr demo_upd avr_memory_impl_pdu_cb) s)"
proof -
  let ?P = "avr_platform demo_avr demo_upd avr_memory_impl_pdu_cb"
  let ?mi = "\<lparr>self_addr = 7, impl_memory = \<lparr>addr_begin = 0x1000, addr_end = 0x1010, mem_bytes = replicate 16 0\<rparr>\<rparr>"
  let ?s0 = "avr_rtu_impl demo_avr 16000000 demo_port ?mi"
  have main: "avr_main demo_avr 16000000 id 7 0x1000 16 demo_port = ?s0"
    by (simp add: avr_main_def avr_memory_impl_init_def avr_memory_impl_clear_def)
  obtain s where s: "avr_main_round ?P ?s0 = Inr s" "avr_mode fst (user_data s) = Running_3t5"
    by (simp add: avr_main_round_def modbus_rtu_event_def event_dispatch_def event_restart_def avr_rtu_impl_def Let_def
        modbus_rtu_init_def reset_rxbuf_def reset_txbuf_def avr_tmr_stop_def avr_tmr_start_3t5_def avr_usart_init_def
        avr_tmr_init_def avr_mode_def on_drv_def demo_avr_def demo_port_def)
  have "avr_reachable demo_avr demo_upd avr_memory_impl_pdu_cb fst ?s0 s"
    using avr_reachable.init avr_step.main [OF s(1)] avr_reachable.step by blast
  from avr_slave_safe [OF demo_avr_ok avr_memory.pdu_provider_axioms _ this] s show ?thesis
    unfolding main by (auto simp: demo_port_def)
qed






end
