(* ===== verification/Stm32_Slave.thy ===== *)
theory Stm32_Slave
  imports Mcu_Port
begin

text \<open>
  The port to the STM32F103: \<open>stm32f103c8/rtu_impl.c\<close>.

  \<open>stm32_drv\<close> holds the macros and functions of the driver, which is not in the repository,
  under their names and for the timer and the USART that the port uses; \<open>stm32_drv_ok\<close> states what
  they promise. The static variables of the file are fields of the data, with \<open>static_\<close> in front:
  \<open>static_state\<close> is whether that pointer is set, and \<open>static_rx_ctrl\<close>, \<open>static_tx_ctrl\<close> are
  the blocks given to the driver, with pointers as offsets.

  The file does not compile against \<open>rtu.h\<close> and \<open>crc.h\<close> of the repository: it passes a slave address to
  \<open>modbus_rtu_init\<close>, its \<open>serial_send\<close> has a second parameter, a callback that it ignores, and
  \<open>modbus_rtu_calc_crc\<close> of its \<open>crc.c\<close> returns \<open>uint16_t\<close> where \<open>rtu.c\<close> uses the two bytes of
  \<open>modbus_rtu_crc_t\<close>. What is modelled is the port adapted to these headers in three places and no other:
  the address is not passed, the second parameter is dropped, and the CRC is made into its two bytes by
  \<open>word_to_modbus_rtu_crc\<close> of \<open>rtu.h\<close>.
\<close>

section \<open>The driver\<close>

datatype pin_cfg = CFN_OUT_ALT_PUSH_PULL | CFN_IN_PULL_UP_DOWN

datatype pin_mode = MODE_50MHz | MODE_INPUT

record 'd stm32_drv =
  TIM2_CLK_ENABLE :: "'d \<Rightarrow> 'd"
  TIM_AUTO_RELOAD_PRELOAD_ENABLE :: "'d \<Rightarrow> 'd"
  TIM_CLK_DIV :: "u16 \<Rightarrow> 'd \<Rightarrow> 'd"
  ISR_ENABLE_TIM2 :: "'d \<Rightarrow> 'd"
  TIM_WR_TARGET :: "u16 \<Rightarrow> 'd \<Rightarrow> 'd"
  TIM_WR_CNTR :: "u16 \<Rightarrow> 'd \<Rightarrow> 'd"
  TIM_UPDATE_INT_ENABLE :: "'d \<Rightarrow> 'd"
  TIM_UPDATE_INT_DISABLE :: "'d \<Rightarrow> 'd"
  TIM_UPDATE_INT_CLEAR :: "'d \<Rightarrow> 'd"
  TIM_ENABLE :: "'d \<Rightarrow> 'd"
  TIM_DISABLE :: "'d \<Rightarrow> 'd"
  TIM_ENABLED :: "'d \<Rightarrow> bool"
  PORTA_CLK_ENABLE :: "'d \<Rightarrow> 'd"
  USART1_CLK_ENABLE :: "'d \<Rightarrow> 'd"
  GPIO_CFG :: "nat \<Rightarrow> pin_cfg \<Rightarrow> pin_mode \<Rightarrow> 'd \<Rightarrow> 'd"
  GPIO_PULL_UP :: "nat \<Rightarrow> 'd \<Rightarrow> 'd"
  USART_ENABLE :: "'d \<Rightarrow> 'd"
  USART_PARITY_EVEN :: "'d \<Rightarrow> 'd"
  USART_PARITY_ENABLE :: "'d \<Rightarrow> 'd"
  CALC_BR :: "nat \<Rightarrow> nat \<Rightarrow> u16"
  USART_BR :: "u16 \<Rightarrow> 'd \<Rightarrow> 'd"
  USART_TX_ENABLE :: "'d \<Rightarrow> 'd"
  USART_RX_ENABLE :: "'d \<Rightarrow> 'd"
  ISR_ENABLE_USART1 :: "'d \<Rightarrow> 'd"
  USART_RX_READY :: "'d \<Rightarrow> bool"
  USART_RD :: "'d \<Rightarrow> 'd"
  usart_async_recv :: "'d \<Rightarrow> 'd"
  usart_async_send :: "u8 list \<Rightarrow> 'd \<Rightarrow> 'd"

section \<open>The code\<close>

record rx_ctrl =
  rx_begin :: nat
  rx_next :: nat
  rx_end :: nat
  rx_flags :: u8
  rx_user_data :: bool

record tx_ctrl =
  tx_end :: nat
  tx_user_data :: bool

record ('d, 'u) stm32 = "('d, 'u) mcu" +
  static_state :: bool
  tim2spurious :: "32 word"
  static_rxbuf :: "u8 list"
  static_rx_ctrl :: rx_ctrl
  static_tx_ctrl :: tx_ctrl

type_synonym ('d, 'u) stm32_state = "('d, 'u) stm32 modbus_rtu_state"

abbreviation upd_stm32 :: "(('d, 'u) stm32 \<Rightarrow> ('d, 'u) stm32) \<Rightarrow> ('d, 'u) stm32_state \<Rightarrow> ('d, 'u) stm32_state" where
  "upd_stm32 f s \<equiv> s\<lparr>user_data := f (user_data s)\<rparr>"

definition tim_start :: "'d stm32_drv \<Rightarrow> u16 \<Rightarrow> ('d, 'u) stm32_state \<Rightarrow> ('d, 'u) stm32_state res" where
  "tim_start D ticks s =
     (if static_state (user_data s) then Inl (CheckFailed ''!state_'')
      else let s = upd_stm32 (\<lambda>u. u\<lparr>static_state := True\<rparr>) s; s = on_drv (TIM_WR_TARGET D ticks) s;
               s = on_drv (TIM_WR_CNTR D 0) s; s = on_drv (TIM_UPDATE_INT_ENABLE D) s;
               s = on_drv (TIM_UPDATE_INT_CLEAR D) s
           in Inr (on_drv (TIM_ENABLE D) s))"

definition stm32_tim_start_1t5 :: "'d stm32_drv \<Rightarrow> ('d, 'u) stm32_state \<Rightarrow> ('d, 'u) stm32_state res" where
  "stm32_tim_start_1t5 D = tim_start D 75"

definition stm32_tim_start_3t5 :: "'d stm32_drv \<Rightarrow> ('d, 'u) stm32_state \<Rightarrow> ('d, 'u) stm32_state res" where
  "stm32_tim_start_3t5 D = tim_start D 175"

definition stm32_tim_stop :: "'d stm32_drv \<Rightarrow> ('d, 'u) stm32_state \<Rightarrow> ('d, 'u) stm32_state res" where
  "stm32_tim_stop D s =
     (let s = on_drv (TIM_DISABLE D) s; s = on_drv (TIM_UPDATE_INT_DISABLE D) s;
          s = on_drv (TIM_UPDATE_INT_CLEAR D) s
      in Inr (upd_stm32 (\<lambda>u. u\<lparr>static_state := False\<rparr>) s))"

definition stm32_tim_reset :: "'d stm32_drv \<Rightarrow> ('d, 'u) stm32_state \<Rightarrow> ('d, 'u) stm32_state res" where
  "stm32_tim_reset D s =
     (let s = on_drv (TIM_DISABLE D) s; s = on_drv (TIM_WR_CNTR D 0) s; s = on_drv (TIM_UPDATE_INT_CLEAR D) s
      in Inr (on_drv (TIM_ENABLE D) s))"

text \<open>\<open>tim_init\<close> and \<open>usart_init\<close>.\<close>

definition stm32_tim_init :: "'d stm32_drv \<Rightarrow> ('d, 'u) stm32 \<Rightarrow> ('d, 'u) stm32 res" where
  "stm32_tim_init D u =
     (if static_state u then Inl (CheckFailed ''!state_'')
      else let d = TIM2_CLK_ENABLE D (mcu_drv u); d = TIM_AUTO_RELOAD_PRELOAD_ENABLE D d; d = TIM_CLK_DIV D 359 d
           in Inr (u\<lparr>mcu_drv := ISR_ENABLE_TIM2 D d\<rparr>))"

definition stm32_usart_init :: "'d stm32_drv \<Rightarrow> nat \<Rightarrow> 'd \<Rightarrow> 'd" where
  "stm32_usart_init D APB2_CLK d =
     (let d = PORTA_CLK_ENABLE D d; d = USART1_CLK_ENABLE D d; d = GPIO_CFG D 9 CFN_OUT_ALT_PUSH_PULL MODE_50MHz d;
          d = GPIO_CFG D 10 CFN_IN_PULL_UP_DOWN MODE_INPUT d; d = GPIO_PULL_UP D 10 d;
          d = USART_ENABLE D d; d = USART_PARITY_EVEN D d; d = USART_PARITY_ENABLE D d;
          d = USART_BR D (CALC_BR D APB2_CLK 19200) d; d = USART_TX_ENABLE D d; d = USART_RX_ENABLE D d
      in ISR_ENABLE_USART1 D d)"

definition stm32_serial_send :: "'d stm32_drv \<Rightarrow> ('d, 'u) stm32_state \<Rightarrow> ('d, 'u) stm32_state res" where
  "stm32_serial_send D s =
     (let s = upd_stm32 (\<lambda>u. u\<lparr>static_tx_ctrl := \<lparr>tx_end = txbuf_curr s, tx_user_data = True\<rparr>\<rparr>) s in
      bind_res (load_all Txbuf (txbuf s) 0 (tx_end (static_tx_ctrl (user_data s)))) (\<lambda>bs.
      Inr (on_drv (usart_async_send D bs) s)))"

definition stm32_platform :: "'d stm32_drv \<Rightarrow> 'u pdu_handler \<Rightarrow> ('d, 'u) stm32 platform" where
  "stm32_platform D cb =
     \<lparr>timer_start_1t5 = stm32_tim_start_1t5 D, timer_start_3t5 = stm32_tim_start_3t5 D,
      timer_stop = stm32_tim_stop D, timer_reset = stm32_tim_reset D, serial_send = stm32_serial_send D,
      pdu_cb = mcu_pdu_cb cb, suspend_cb = None, resume_cb = None,
      calc_crc = (\<lambda>bs. word_to_modbus_rtu_crc (stm32_calc_crc bs))\<rparr>"

definition stm32_rtu_impl :: "'d stm32_drv \<Rightarrow> nat \<Rightarrow> ('d, 'u) stm32 \<Rightarrow> ('d, 'u) stm32_state res" where
  "stm32_rtu_impl D APB2_CLK u =
     bind_res (stm32_tim_init D (u\<lparr>mcu_drv := stm32_usart_init D APB2_CLK (mcu_drv u)\<rparr>)) (\<lambda>u.
     let s = modbus_rtu_init u;
         s = upd_stm32 (\<lambda>u. u\<lparr>static_rx_ctrl := (static_rx_ctrl u)\<lparr>rx_begin := 0, rx_end := 1, rx_next := 0, rx_user_data := True\<rparr>\<rparr>) s
     in Inr (on_drv (usart_async_recv D) s))"

text \<open>The interrupts of the timer and, behind the driver's interrupt of the USART, its two callbacks.\<close>

definition isrTIM2 :: "'d stm32_drv \<Rightarrow> ('d, 'u) stm32 platform \<Rightarrow> ('d, 'u) stm32_state \<Rightarrow> ('d, 'u) stm32_state res" where
  "isrTIM2 D P s =
     (let s = on_drv (TIM_UPDATE_INT_CLEAR D) s in
      if \<not> TIM_ENABLED D (mcu_drv (user_data s))
      then Inr (upd_stm32 (\<lambda>u. u\<lparr>tim2spurious := tim2spurious u + 1\<rparr>) s)
      else if \<not> static_state (user_data s) then Inl (CheckFailed ''state_'')
      else call_timer_cb P s)"

definition rx_complete :: "'d stm32_drv \<Rightarrow> ('d, 'u) stm32 platform \<Rightarrow> ('d, 'u) stm32_state \<Rightarrow> ('d, 'u) stm32_state res" where
  "rx_complete D P s =
     (let ctrl = static_rx_ctrl (user_data s) in
      bind_res (load Data (static_rxbuf (user_data s)) (rx_begin ctrl)) (\<lambda>data.
      bind_res
        (if rx_flags ctrl = 0 then serial_recv_cb P s data
         else case flush_rx (USART_RX_READY D) (USART_RD D) (mcu_drv (user_data s)) of
           None \<Rightarrow> Inl OutOfFuel
         | Some d \<Rightarrow> Inr (serial_recv_err_cb (on_drv (\<lambda>_. d) s) data)) (\<lambda>s.
      let s = upd_stm32 (\<lambda>u. u\<lparr>static_rx_ctrl := (static_rx_ctrl u)\<lparr>rx_begin := 0, rx_next := 0, rx_flags := 0\<rparr>\<rparr>) s
      in Inr (on_drv (usart_async_recv D) s))))"

definition tx_complete :: "('d, 'u) stm32_state \<Rightarrow> ('d, 'u) stm32_state res" where
  "tx_complete s =
     (if \<not> tx_user_data (static_tx_ctrl (user_data s)) then Inl (CheckFailed ''ctrl->user_data'')
      else Inr (serial_sent_cb s))"

text \<open>
  The interrupt of the USART. What it reads of the hardware is \<open>stm32_usart\<close>; \<open>rx_isr\<close> and \<open>tx_isr\<close>
  are the handlers of the driver, \<open>usart_rx_isr\<close> and \<open>usart_tx_isr\<close>, on the two static blocks.
\<close>

record 'd stm32_usart =
  USART_RX_INT_ENABLED :: "'d \<Rightarrow> bool"
  USART_TX_READY_INT_ENABLED :: "'d \<Rightarrow> bool"
  USART_TX_READY :: "'d \<Rightarrow> bool"
  USART_TX_COMPLETE_INT_ENABLED :: "'d \<Rightarrow> bool"
  USART_TX_COMPLETE :: "'d \<Rightarrow> bool"

definition isrUSART1 :: "'d stm32_drv \<Rightarrow> 'd stm32_usart \<Rightarrow> (('d, 'u) stm32_state \<Rightarrow> ('d, 'u) stm32_state res)
    \<Rightarrow> (('d, 'u) stm32_state \<Rightarrow> ('d, 'u) stm32_state res) \<Rightarrow> ('d, 'u) stm32_state \<Rightarrow> ('d, 'u) stm32_state res" where
  "isrUSART1 D U rx_isr tx_isr s =
     (let d = mcu_drv (user_data s) in
      bind_res (if USART_RX_INT_ENABLED U d \<and> USART_RX_READY D d then rx_isr s else Inr s) (\<lambda>s.
      let d = mcu_drv (user_data s) in
      if USART_TX_READY_INT_ENABLED U d \<and> USART_TX_READY U d \<or> USART_TX_COMPLETE_INT_ENABLED U d \<and> USART_TX_COMPLETE U d
      then tx_isr s else Inr s))"

text \<open>What the driver does before it calls \<open>rx_complete\<close>: the byte and its flags are in the block.\<close>

definition rx_delivered :: "u8 \<Rightarrow> u8 \<Rightarrow> ('d, 'u) stm32 \<Rightarrow> ('d, 'u) stm32" where
  "rx_delivered data flags u =
     u\<lparr>static_rxbuf := (static_rxbuf u)[rx_next (static_rx_ctrl u) := data],
       static_rx_ctrl := (static_rx_ctrl u)\<lparr>rx_next := Suc (rx_next (static_rx_ctrl u)), rx_flags := flags\<rparr>\<rparr>"

section \<open>What the driver promises\<close>

text \<open>\<open>TIM_ENABLE\<close> and \<open>TIM_DISABLE\<close> switch the timer's clock; the timer has no callback of its own.\<close>

definition stm32_drv_ok :: "'d stm32_drv \<Rightarrow> ('d \<Rightarrow> port_regs) \<Rightarrow> ('d \<Rightarrow> nat) \<Rightarrow> bool" where
  "stm32_drv_ok D regs queue \<longleftrightarrow>
     (\<forall>d. regs (TIM2_CLK_ENABLE D d) = regs d) \<and> (\<forall>d. regs (TIM_AUTO_RELOAD_PRELOAD_ENABLE D d) = regs d) \<and>
     (\<forall>d v. regs (TIM_CLK_DIV D v d) = regs d) \<and> (\<forall>d. regs (ISR_ENABLE_TIM2 D d) = regs d) \<and>
     (\<forall>d v. regs (TIM_WR_TARGET D v d) = (regs d)\<lparr>tr_top := v\<rparr>) \<and>
     (\<forall>d v. regs (TIM_WR_CNTR D v d) = regs d) \<and>
     (\<forall>d. regs (TIM_UPDATE_INT_ENABLE D d) = (regs d)\<lparr>tr_int := True\<rparr>) \<and>
     (\<forall>d. regs (TIM_UPDATE_INT_DISABLE D d) = (regs d)\<lparr>tr_int := False\<rparr>) \<and>
     (\<forall>d. regs (TIM_UPDATE_INT_CLEAR D d) = regs d) \<and>
     (\<forall>d. regs (TIM_ENABLE D d) = (regs d)\<lparr>tr_clk := 1\<rparr>) \<and>
     (\<forall>d. regs (TIM_DISABLE D d) = (regs d)\<lparr>tr_clk := 0\<rparr>) \<and>
     (\<forall>d. TIM_ENABLED D d \<longleftrightarrow> tr_clk (regs d) \<noteq> 0) \<and>
     (\<forall>d. regs (PORTA_CLK_ENABLE D d) = regs d) \<and> (\<forall>d. regs (USART1_CLK_ENABLE D d) = regs d) \<and>
     (\<forall>d p c m. regs (GPIO_CFG D p c m d) = regs d) \<and> (\<forall>d p. regs (GPIO_PULL_UP D p d) = regs d) \<and>
     (\<forall>d. regs (USART_ENABLE D d) = regs d) \<and>
     (\<forall>d. regs (USART_PARITY_EVEN D d) = regs d) \<and> (\<forall>d. regs (USART_PARITY_ENABLE D d) = regs d) \<and>
     (\<forall>d v. regs (USART_BR D v d) = regs d) \<and> (\<forall>d. regs (USART_TX_ENABLE D d) = regs d) \<and>
     (\<forall>d. regs (USART_RX_ENABLE D d) = regs d) \<and> (\<forall>d. regs (ISR_ENABLE_USART1 D d) = regs d) \<and>
     (\<forall>d. regs (USART_RD D d) = regs d) \<and> (\<forall>d. USART_RX_READY D d \<longrightarrow> queue (USART_RD D d) < queue d) \<and>
     (\<forall>d. regs (usart_async_recv D d) = regs d) \<and>
     (\<forall>d bs. regs (usart_async_send D bs d) = (regs d)\<lparr>tx_sent := tx_sent (regs d) @ bs\<rparr>)"

definition stm32_mode :: "('d \<Rightarrow> port_regs) \<Rightarrow> ('d, 'u) stm32 \<Rightarrow> timer_mode" where
  "stm32_mode regs u = (let r = regs (mcu_drv u) in
     if tr_clk r = 0 then Stopped else if tr_top r = 75 then Running_1t5 else Running_3t5)"

text \<open>The pointer \<open>state_\<close> is set exactly while the timer runs; what was sent was sent with
  \<open>tx_ctrl_\<close>; \<open>n\<close> bytes are in the receive block.\<close>

definition stm32_good :: "('d \<Rightarrow> port_regs) \<Rightarrow> nat \<Rightarrow> ('d, 'u) stm32 \<Rightarrow> bool" where
  "stm32_good regs n u = (let r = regs (mcu_drv u) in
     (static_state u \<longleftrightarrow> tr_clk r \<noteq> 0) \<and> (tr_clk r \<noteq> 0 \<longrightarrow> tr_int r \<and> (tr_top r = 75 \<or> tr_top r = 175)) \<and>
     length (static_rxbuf u) = 1 \<and> rx_begin (static_rx_ctrl u) = 0 \<and> rx_next (static_rx_ctrl u) = n \<and>
     (tx_sent r \<noteq> [] \<longrightarrow> tx_user_data (static_tx_ctrl u)))"

abbreviation stm32_app :: "('d \<Rightarrow> port_regs) \<Rightarrow> ('d, 'u) stm32 \<Rightarrow> 'u \<times> u8 list" where
  "stm32_app regs u \<equiv> (mcu_app u, tx_sent (regs (mcu_drv u)))"

lemmas stm32_mode_defs = stm32_mode_def stm32_good_def Let_def

lemma stm32_platform_simps [simp]:
  "timer_start_1t5 (stm32_platform D cb) = stm32_tim_start_1t5 D"
  "timer_start_3t5 (stm32_platform D cb) = stm32_tim_start_3t5 D"
  "timer_stop (stm32_platform D cb) = stm32_tim_stop D" "timer_reset (stm32_platform D cb) = stm32_tim_reset D"
  "serial_send (stm32_platform D cb) = stm32_serial_send D" "pdu_cb (stm32_platform D cb) = mcu_pdu_cb cb"
  "suspend_cb (stm32_platform D cb) = None" "resume_cb (stm32_platform D cb) = None"
  by (simp_all add: stm32_platform_def)

lemma stm32_send_eq:
  assumes "txbuf_curr s \<le> length (txbuf s)"
  shows "stm32_serial_send D s = Inr (s\<lparr>user_data := (user_data s)\<lparr>
    static_tx_ctrl := \<lparr>tx_end = txbuf_curr s, tx_user_data = True\<rparr>,
    mcu_drv := usart_async_send D (take (txbuf_curr s) (txbuf s)) (mcu_drv (user_data s))\<rparr>\<rparr>)"
  using assms by (simp add: stm32_serial_send_def Let_def load_all_ok on_drv_def)

lemma stm32_rtu_platform:
  assumes D: "stm32_drv_ok D regs queue" and cb: "pdu_provider cb"
  shows "rtu_platform (stm32_platform D cb) (stm32_mode regs) (stm32_good regs n) (stm32_app regs)"
proof (unfold_locales, goal_cases)
  case (1 s)
  then show ?case
    using D by (intro exI [of _ "user_data (projr (stm32_tim_start_1t5 D s))"])
      (simp add: stm32_tim_start_1t5_def tim_start_def on_drv_def stm32_drv_ok_def stm32_mode_defs split: if_split_asm)
next
  case (2 s)
  then show ?case
    using D by (intro exI [of _ "user_data (projr (stm32_tim_start_3t5 D s))"])
      (simp add: stm32_tim_start_3t5_def tim_start_def on_drv_def stm32_drv_ok_def stm32_mode_defs split: if_split_asm)
next
  case (3 s)
  then show ?case
    using D by (intro exI [of _ "user_data (projr (stm32_tim_stop D s))"])
      (simp add: stm32_tim_stop_def on_drv_def stm32_drv_ok_def stm32_mode_defs)
next
  case (4 s)
  then show ?case
    using D by (intro exI [of _ "user_data (projr (stm32_tim_reset D s))"])
      (simp add: stm32_tim_reset_def on_drv_def stm32_drv_ok_def stm32_mode_defs split: if_split_asm)
next
  case (7 s s' dst)
  from pdu_provider.mcu_pdu_ok [OF cb 7(3) 7(6) [simplified]] obtain app buf where
    "s' = s\<lparr>user_data := (user_data s)\<lparr>mcu_app := app\<rparr>, txbuf := buf\<rparr>" "length buf = TXBUF_CAPACITY"
    "dst \<le> TXBUF_CAPACITY - 2" by blast
  then show ?case
    using 7(1) by (intro exI [of _ "(user_data s)\<lparr>mcu_app := app\<rparr>"] exI [of _ buf]) (simp add: stm32_mode_defs)
next
  case (8 s s')
  have "txbuf_curr s \<le> length (txbuf s)" using 8(1) by (simp add: rtu_inv_def buffers_ok_def)
  with 8(4) have s': "s' = s\<lparr>user_data := (user_data s)\<lparr>
    static_tx_ctrl := \<lparr>tx_end = txbuf_curr s, tx_user_data = True\<rparr>,
    mcu_drv := usart_async_send D (take (txbuf_curr s) (txbuf s)) (mcu_drv (user_data s))\<rparr>\<rparr>"
    by (simp add: stm32_send_eq)
  show ?case
    unfolding s' by (rule rtu_inv_new_data [OF 8(1)]) (use 8(1) D in \<open>simp_all add: rtu_inv_def stm32_drv_ok_def stm32_mode_defs\<close>)
qed simp_all

section \<open>The slave\<close>

text \<open>
  The interrupts and the main loop in any order. \<open>isrTIM2\<close> runs at any time: an interrupt that
  was pending when the timer was stopped comes late. The transmitter completes what was sent.
\<close>

inductive stm32_step :: "'d stm32_drv \<Rightarrow> 'u pdu_handler \<Rightarrow> ('d \<Rightarrow> port_regs)
    \<Rightarrow> ('d, 'u) stm32_state \<Rightarrow> ('d, 'u) stm32_state \<Rightarrow> bool" for D cb regs where
  tim: "isrTIM2 D (stm32_platform D cb) s = Inr s' \<Longrightarrow> stm32_step D cb regs s s'"
| rx: "rx_complete D (stm32_platform D cb) (upd_stm32 (rx_delivered data flags) s) = Inr s' \<Longrightarrow>
    stm32_step D cb regs s s'"
| tx: "tx_sent (regs (mcu_drv (user_data s))) \<noteq> [] \<Longrightarrow> tx_complete s = Inr s' \<Longrightarrow> stm32_step D cb regs s s'"
| event: "modbus_rtu_event (stm32_platform D cb) s = Inr s' \<Longrightarrow> stm32_step D cb regs s s'"
| hw: "regs d = regs (mcu_drv (user_data s)) \<Longrightarrow> stm32_step D cb regs s (on_drv (\<lambda>_. d) s)"
| app: "stm32_step D cb regs s (upd_stm32 (\<lambda>u. u\<lparr>mcu_app := x\<rparr>) s)"

inductive stm32_reachable :: "'d stm32_drv \<Rightarrow> 'u pdu_handler \<Rightarrow> ('d \<Rightarrow> port_regs)
    \<Rightarrow> ('d, 'u) stm32_state \<Rightarrow> ('d, 'u) stm32_state \<Rightarrow> bool" for D cb regs s0 where
  init: "stm32_reachable D cb regs s0 s0"
| step: "stm32_reachable D cb regs s0 s \<Longrightarrow> stm32_step D cb regs s s' \<Longrightarrow> stm32_reachable D cb regs s0 s'"

text \<open>
  The interrupt takes steps of the slave, as each handler of the driver does: it moves a byte, or
  it has completed a transfer and calls the callback.
\<close>

lemma isrUSART1_steps:
  assumes "\<And>s s'. rx_isr s = Inr s' \<Longrightarrow> stm32_step D cb regs s s'" and "\<And>s s'. tx_isr s = Inr s' \<Longrightarrow> stm32_step D cb regs s s'"
    and "stm32_reachable D cb regs s0 s" and "isrUSART1 D U rx_isr tx_isr s = Inr s'"
  shows "stm32_reachable D cb regs s0 s'"
  using assms(3,4)
  by (auto simp: isrUSART1_def Let_def bind_res_Inr_iff split: if_split_asm
      intro: stm32_reachable.step assms(1,2))

abbreviation stm32_inv :: "('d \<Rightarrow> port_regs) \<Rightarrow> nat \<Rightarrow> ('d, 'u) stm32_state \<Rightarrow> bool" where
  "stm32_inv regs n \<equiv> rtu_inv (stm32_mode regs) (stm32_good regs n)"

lemma stm32_on_drv:
  "stm32_inv regs n s \<Longrightarrow> regs (f (mcu_drv (user_data s))) = regs (mcu_drv (user_data s)) \<Longrightarrow> stm32_inv regs n (on_drv f s)"
  unfolding on_drv_def
  by (rule rtu_inv_new_data) (simp_all add: rtu_inv_def stm32_mode_defs)

text \<open>A late interrupt of a timer that is stopped is counted; the others call the timer's callback.\<close>

lemma isrTIM2_ok:
  assumes D: "stm32_drv_ok D regs queue" and cb: "pdu_provider cb" and inv: "stm32_inv regs n s"
  shows "\<exists>s'. isrTIM2 D (stm32_platform D cb) s = Inr s' \<and> stm32_inv regs n s' \<and>
    (stm32_mode regs (user_data s) = Stopped \<longrightarrow> status s' = status s \<and> rxbuf s' = rxbuf s \<and> timer_cb s' = timer_cb s)"
proof -
  let ?s = "on_drv (TIM_UPDATE_INT_CLEAR D) s"
  have inv': "stm32_inv regs n ?s" using D by (intro stm32_on_drv [OF inv]) (simp add: stm32_drv_ok_def)
  have mode: "stm32_mode regs (user_data ?s) = stm32_mode regs (user_data s)"
    using D by (simp add: stm32_drv_ok_def stm32_mode_def)
  have enabled: "TIM_ENABLED D (mcu_drv (user_data ?s)) \<longleftrightarrow> stm32_mode regs (user_data ?s) \<noteq> Stopped"
    using D by (simp add: stm32_drv_ok_def stm32_mode_def Let_def)
  show ?thesis
  proof (cases "stm32_mode regs (user_data ?s) = Stopped")
    case True
    let ?r = "upd_stm32 (\<lambda>u. u\<lparr>tim2spurious := tim2spurious u + 1\<rparr>) ?s"
    have "stm32_inv regs n ?r"
      by (rule rtu_inv_new_data [OF inv']) (use inv' in \<open>simp_all add: rtu_inv_def stm32_mode_defs\<close>)
    with True enabled show ?thesis by (simp add: isrTIM2_def Let_def)
  next
    case False
    then have "static_state (user_data ?s)" using inv' by (auto simp: rtu_inv_def stm32_mode_defs split: if_split_asm)
    with False enabled mode port_exec_ok [OF stm32_rtu_platform [OF D cb] inv', of Timeout] show ?thesis
      by (auto simp: isrTIM2_def Let_def)
  qed
qed

lemma rx_complete_ok:
  assumes D: "stm32_drv_ok D regs queue" and cb: "pdu_provider cb" and inv: "stm32_inv regs 0 s"
  shows "\<exists>s'. rx_complete D (stm32_platform D cb) (upd_stm32 (rx_delivered data flags) s) = Inr s' \<and> stm32_inv regs 0 s'"
proof -
  let ?s = "upd_stm32 (rx_delivered data flags) s" and ?P = "stm32_platform D cb"
  have inv1: "stm32_inv regs 1 ?s"
    by (rule rtu_inv_new_data [OF inv])
      (use inv in \<open>simp_all add: rtu_inv_def stm32_mode_defs rx_delivered_def\<close>)
  have load: "load Data (static_rxbuf (user_data ?s)) (rx_begin (static_rx_ctrl (user_data ?s))) = Inr data"
    using inv by (simp add: rtu_inv_def stm32_mode_defs rx_delivered_def load_ok)
  have rearm: "stm32_inv regs 0 (on_drv (usart_async_recv D) (upd_stm32 (\<lambda>u. u\<lparr>static_rx_ctrl :=
      (static_rx_ctrl u)\<lparr>rx_begin := 0, rx_next := 0, rx_flags := 0\<rparr>\<rparr>) t))" if "stm32_inv regs 1 t" for t
  proof (rule stm32_on_drv)
    show "stm32_inv regs 0 (upd_stm32 (\<lambda>u. u\<lparr>static_rx_ctrl :=
      (static_rx_ctrl u)\<lparr>rx_begin := 0, rx_next := 0, rx_flags := 0\<rparr>\<rparr>) t)"
      by (rule rtu_inv_new_data [OF that]) (use that in \<open>simp_all add: rtu_inv_def stm32_mode_defs\<close>)
  qed (use D in \<open>simp add: stm32_drv_ok_def\<close>)
  show ?thesis
  proof (cases "flags = 0")
    case True
    from port_exec_ok [OF stm32_rtu_platform [OF D cb] inv1, of "Recv data"] obtain t where
      "serial_recv_cb ?P ?s data = Inr t" "stm32_inv regs 1 t" by auto
    with True load rearm show ?thesis by (simp add: rx_complete_def Let_def rx_delivered_def)
  next
    case False
    have "\<exists>d. flush_rx (USART_RX_READY D) (USART_RD D) (mcu_drv (user_data ?s)) = Some d \<and>
        \<not> USART_RX_READY D d \<and> regs d = regs (mcu_drv (user_data ?s))"
      using D by (intro flush_rx_ends [where queue = queue]) (simp_all add: stm32_drv_ok_def)
    then obtain d where d: "flush_rx (USART_RX_READY D) (USART_RD D) (mcu_drv (user_data ?s)) = Some d"
        "regs d = regs (mcu_drv (user_data ?s))"
      by blast
    have "stm32_inv regs 1 (serial_recv_err_cb (on_drv (\<lambda>_. d) ?s) data)"
      by (intro serial_recv_err_inv stm32_on_drv [OF inv1]) (simp add: d)
    with False load rearm d show ?thesis by (simp add: rx_complete_def Let_def rx_delivered_def)
  qed
qed

lemma stm32_step_inv:
  assumes D: "stm32_drv_ok D regs queue" and cb: "pdu_provider cb"
    and step: "stm32_step D cb regs s s'" and inv: "stm32_inv regs 0 s"
  shows "stm32_inv regs 0 s'"
  using step
proof cases
  case tim
  with isrTIM2_ok [OF D cb inv] show ?thesis by auto
next
  case (rx data flags)
  with rx_complete_ok [OF D cb inv, of data flags] show ?thesis by auto
next
  case tx
  then show ?thesis using serial_sent_inv [OF inv] by (simp add: tx_complete_def split: if_split_asm)
next
  case event
  with rtu_platform.exec_inv [OF stm32_rtu_platform [OF D cb] inv, of Event s'] show ?thesis by simp
next
  case (hw d)
  then show ?thesis by (simp add: stm32_on_drv [OF inv])
next
  case (app x)
  show ?thesis
    unfolding app by (rule rtu_inv_new_data [OF inv]) (use inv in \<open>simp_all add: rtu_inv_def stm32_mode_defs\<close>)
qed

text \<open>The static variables after a reset, and a driver that has sent nothing and whose timer is off.\<close>

definition stm32_reset :: "('d \<Rightarrow> port_regs) \<Rightarrow> ('d, 'u) stm32 \<Rightarrow> bool" where
  "stm32_reset regs u \<longleftrightarrow> \<not> static_state u \<and> static_rxbuf u = [0] \<and> tr_clk (regs (mcu_drv u)) = 0 \<and>
     tx_sent (regs (mcu_drv u)) = []"

lemma stm32_impl_ok:
  assumes D: "stm32_drv_ok D regs queue" and "stm32_reset regs u"
  shows "\<exists>s. stm32_rtu_impl D APB2_CLK u = Inr s \<and> stm32_inv regs 0 s"
proof -
  let ?s = "projr (stm32_rtu_impl D APB2_CLK u)"
  have "stm32_rtu_impl D APB2_CLK u = Inr ?s"
    using assms(2) by (simp add: stm32_rtu_impl_def stm32_tim_init_def stm32_reset_def Let_def)
  moreover have "stm32_inv regs 0 ?s"
    using assms
    by (simp add: stm32_rtu_impl_def stm32_tim_init_def stm32_usart_init_def stm32_reset_def on_drv_def modbus_rtu_init_def
        rtu_inv_defs stm32_mode_defs stm32_drv_ok_def)
  ultimately show ?thesis by blast
qed

text \<open>The inputs of \<open>rtu.c\<close> as the driver delivers them; a byte with an error has one flag set.\<close>

fun stm32_exec :: "'d stm32_drv \<Rightarrow> ('d, 'u) stm32 platform \<Rightarrow> input \<Rightarrow> ('d, 'u) stm32_state \<Rightarrow> ('d, 'u) stm32_state res" where
  "stm32_exec D P (Recv b) s = rx_complete D P (upd_stm32 (rx_delivered b 0) s)"
| "stm32_exec D P (Recv_err b) s = rx_complete D P (upd_stm32 (rx_delivered b 1) s)"
| "stm32_exec D P Timeout s = isrTIM2 D P s"
| "stm32_exec D P Sent s = tx_complete s"
| "stm32_exec D P Event s = modbus_rtu_event P s"

text \<open>
  Around \<open>serial_recv_cb\<close>, the byte comes through the receive block and the receiver is armed again;
  in front of the timer's callback its flag is cleared.
\<close>

lemma stm32_wraps_recv:
  assumes D: "stm32_drv_ok D regs queue" and cb: "pdu_provider cb"
  shows "wraps (stm32_platform D cb) (stm32_mode regs) (stm32_good regs 0) (stm32_app regs)
    (stm32_exec D (stm32_platform D cb)) (Recv b)"
  by (rule wrapsI [where mid = "\<lambda>_. stm32_good regs 1" and u = "\<lambda>s. rx_delivered b 0 (user_data s)" and
    f = "\<lambda>_ u. u\<lparr>static_rx_ctrl := (static_rx_ctrl u)\<lparr>rx_begin := 0, rx_next := 0, rx_flags := 0\<rparr>,
      mcu_drv := usart_async_recv D (mcu_drv u)\<rparr>"])
    (use D stm32_rtu_platform [OF D cb] in \<open>simp_all add: rx_complete_def rx_delivered_def on_drv_def stm32_drv_ok_def
      stm32_mode_defs load_ok\<close>)

lemma stm32_wraps_timeout:
  assumes D: "stm32_drv_ok D regs queue" and cb: "pdu_provider cb"
  shows "wraps (stm32_platform D cb) (stm32_mode regs) (stm32_good regs 0) (stm32_app regs)
    (stm32_exec D (stm32_platform D cb)) Timeout"
proof (rule wrapsI [where mid = "\<lambda>_. stm32_good regs 0" and f = "\<lambda>_. id" and
    u = "\<lambda>s. (user_data s)\<lparr>mcu_drv := TIM_UPDATE_INT_CLEAR D (mcu_drv (user_data s))\<rparr>"])
qed (use D stm32_rtu_platform [OF D cb] in \<open>simp_all add: isrTIM2_def on_drv_def stm32_drv_ok_def stm32_mode_defs split: if_split_asm\<close>)

lemma stm32_frame_machine:
  assumes D: "stm32_drv_ok D regs queue" and cb: "pdu_provider cb"
  shows "frame_machine (stm32_exec D (stm32_platform D cb))
    (frame_at (stm32_mode regs) (stm32_good regs 0) (stm32_app regs) a)"
  by (rule port_frame_machine [OF stm32_rtu_platform [OF D cb] stm32_wraps_recv [OF D cb] stm32_wraps_timeout [OF D cb]])
    simp

section \<open>A driver that keeps its promises\<close>

definition demo_stm32 :: "(port_regs \<times> nat) stm32_drv" where
  "demo_stm32 = \<lparr>TIM2_CLK_ENABLE = id, TIM_AUTO_RELOAD_PRELOAD_ENABLE = id, TIM_CLK_DIV = (\<lambda>v. id),
     ISR_ENABLE_TIM2 = id, TIM_WR_TARGET = (\<lambda>v (r, n). (r\<lparr>tr_top := v\<rparr>, n)), TIM_WR_CNTR = (\<lambda>v. id),
     TIM_UPDATE_INT_ENABLE = (\<lambda>(r, n). (r\<lparr>tr_int := True\<rparr>, n)),
     TIM_UPDATE_INT_DISABLE = (\<lambda>(r, n). (r\<lparr>tr_int := False\<rparr>, n)), TIM_UPDATE_INT_CLEAR = id,
     TIM_ENABLE = (\<lambda>(r, n). (r\<lparr>tr_clk := 1\<rparr>, n)), TIM_DISABLE = (\<lambda>(r, n). (r\<lparr>tr_clk := 0\<rparr>, n)),
     TIM_ENABLED = (\<lambda>(r, n). tr_clk r \<noteq> 0), PORTA_CLK_ENABLE = id, USART1_CLK_ENABLE = id,
     GPIO_CFG = (\<lambda>p c m. id), GPIO_PULL_UP = (\<lambda>p. id), USART_ENABLE = id, USART_PARITY_EVEN = id,
     USART_PARITY_ENABLE = id, CALC_BR = (\<lambda>clk bps. of_nat (clk div bps)), USART_BR = (\<lambda>v. id),
     USART_TX_ENABLE = id, USART_RX_ENABLE = id, ISR_ENABLE_USART1 = id,
     USART_RX_READY = (\<lambda>(r, n). 0 < n), USART_RD = (\<lambda>(r, n). (r, n - 1)), usart_async_recv = id,
     usart_async_send = (\<lambda>bs (r, n). (r\<lparr>tx_sent := tx_sent r @ bs\<rparr>, n))\<rparr>"

lemma demo_stm32_ok: "stm32_drv_ok demo_stm32 fst snd"
  by (simp add: stm32_drv_ok_def demo_stm32_def split_beta)

definition demo_stm32_data :: "(port_regs \<times> nat, rtu_memory_impl) stm32" where
  "demo_stm32_data = \<lparr>mcu_drv = (\<lparr>tr_top = 0, tr_clk = 0, tr_int = False, tr_cb = False, tx_sent = []\<rparr>, 0),
     mcu_app = demo_memory, static_state = False, tim2spurious = 0, static_rxbuf = [0],
     static_rx_ctrl = \<lparr>rx_begin = 0, rx_next = 0, rx_end = 0, rx_flags = 0, rx_user_data = False\<rparr>,
     static_tx_ctrl = \<lparr>tx_end = 0, tx_user_data = False\<rparr>\<rparr>"

section \<open>Properties\<close>

text \<open>
  C29: on the STM32F103, whatever the order of interrupts, events and changes of the hardware
  behind its registers, and with timer interrupts that come when the timer is stopped: no
  \<open>ASSERT\<close> of the port fails, every interrupt returns, the pointer \<open>state_\<close> is set exactly
  while the timer runs, the state machine keeps its invariant, and an interrupt of a stopped timer does
  not reach it.
\<close>

theorem stm32_asserts_never_fail:
  assumes "stm32_drv_ok D regs queue" and "pdu_provider cb" and "stm32_reset regs u"
    and "stm32_rtu_impl D APB2_CLK u = Inr s0" and "stm32_reachable D cb regs s0 s"
  shows "stm32_inv regs 0 s \<and>
    (static_state (user_data s) \<longleftrightarrow> stm32_mode regs (user_data s) \<noteq> Stopped) \<and>
    (\<exists>s'. isrTIM2 D (stm32_platform D cb) s = Inr s' \<and>
      (stm32_mode regs (user_data s) = Stopped \<longrightarrow> status s' = status s)) \<and>
    is_ok (rx_complete D (stm32_platform D cb) (upd_stm32 (rx_delivered data flags) s)) \<and>
    (tx_sent (regs (mcu_drv (user_data s))) \<noteq> [] \<longrightarrow> is_ok (tx_complete s)) \<and>
    (modbus_rtu_event (stm32_platform D cb) s = Inl e \<longrightarrow> handler_fault cb e)"
proof -
  let ?P = "stm32_platform D cb"
  have "stm32_inv regs 0 s0" using stm32_impl_ok [OF assms(1,3), of APB2_CLK] assms(4) by auto
  with assms(5) have inv: "stm32_inv regs 0 s"
    by induction (auto intro: stm32_step_inv [OF assms(1,2)])
  have st: "static_state (user_data s) \<longleftrightarrow> stm32_mode regs (user_data s) \<noteq> Stopped"
    using inv by (auto simp: rtu_inv_def stm32_mode_defs)
  have tx: "tx_sent (regs (mcu_drv (user_data s))) \<noteq> [] \<longrightarrow> is_ok (tx_complete s)"
    using inv by (simp add: rtu_inv_def stm32_good_def tx_complete_def Let_def)
  have ev: "handler_fault cb e" if "modbus_rtu_event ?P s = Inl e"
    by (rule port_event_fault [OF stm32_rtu_platform [OF assms(1,2)] inv that])
      (simp_all add: stm32_send_eq rtu_inv_def buffers_ok_def)
  from inv st tx ev isrTIM2_ok [OF assms(1,2) inv] rx_complete_ok [OF assms(1,2) inv, of data flags]
  show ?thesis by auto
qed

theorem stm32_asserts_never_fail_witness:
  "\<exists>s0 s. stm32_rtu_impl demo_stm32 72000000 demo_stm32_data = Inr s0 \<and>
    modbus_rtu_event (stm32_platform demo_stm32 rtu_memory_impl_pdu_cb) s0 = Inr s \<and>
    stm32_mode fst (user_data s) = Running_3t5 \<and> static_state (user_data s) \<and>
    is_ok (rx_complete demo_stm32 (stm32_platform demo_stm32 rtu_memory_impl_pdu_cb) (upd_stm32 (rx_delivered 7 1) s))"
proof -
  let ?P = "stm32_platform demo_stm32 rtu_memory_impl_pdu_cb"
  let ?s0 = "projr (stm32_rtu_impl demo_stm32 72000000 demo_stm32_data)"
  have reset: "stm32_reset fst demo_stm32_data" by (simp add: stm32_reset_def demo_stm32_data_def)
  have s0: "stm32_rtu_impl demo_stm32 72000000 demo_stm32_data = Inr ?s0"
    by (simp add: stm32_rtu_impl_def stm32_tim_init_def demo_stm32_data_def Let_def)
  obtain s where s: "modbus_rtu_event ?P ?s0 = Inr s" "stm32_mode fst (user_data s) = Running_3t5"
    by (simp add: modbus_rtu_event_def event_dispatch_def event_restart_def stm32_rtu_impl_def stm32_tim_init_def Let_def
        modbus_rtu_init_def reset_rxbuf_def reset_txbuf_def stm32_tim_stop_def stm32_tim_start_3t5_def tim_start_def
        stm32_usart_init_def stm32_mode_def on_drv_def demo_stm32_def demo_stm32_data_def)
  have "stm32_reachable demo_stm32 rtu_memory_impl_pdu_cb fst ?s0 s"
    using stm32_reachable.init stm32_step.event [OF s(1)] stm32_reachable.step by blast
  from stm32_asserts_never_fail [OF demo_stm32_ok memory_handler.pdu_provider_axioms reset s0 this, of 7 1] s s0 show ?thesis
    by (intro exI [of _ ?s0] exI [of _ s]) simp
qed

text \<open>
  An idle slave that receives the frame of a request to its address, each byte through the one-byte
  block of the receiver, gives its transmitter exactly the frame of the reply of the abstract server,
  and its memory becomes the server's. The transmitter then finds the state in its block.
\<close>

abbreviation stm32_busy :: "('d \<Rightarrow> port_regs) \<Rightarrow> ('d, 'u) stm32_state \<Rightarrow> bool" where
  "stm32_busy regs s \<equiv> stm32_inv regs 0 s \<and> curr_st s = RTU_STATE_BUSY \<and> tx_user_data (static_tx_ctrl (user_data s))"

lemma stm32_answers_request:
  assumes D: "stm32_drv_ok D regs queue" and idle: "port_idle (stm32_mode regs) (stm32_good regs 0) s"
    and mi: "self_addr (mcu_app (user_data s)) = a" "impl_memory (mcu_app (user_data s)) = m" "mem_wf m"
    and q: "exchange_ok a m (q, is, es)"
  shows "\<exists>s' m'. run_inputs (stm32_exec D (stm32_platform D rtu_memory_impl_pdu_cb)) (is @ Timeout # es @ [Timeout, Event]) s = Inr s' \<and>
    stm32_busy regs s' \<and> mcu_app (user_data s') = (mcu_app (user_data s))\<lparr>impl_memory := m'\<rparr> \<and>
    tx_sent (regs (mcu_drv (user_data s'))) =
      tx_sent (regs (mcu_drv (user_data s))) @ adu a (reply_pdu (snd (serve (mem_abs m) q))) \<and>
    mem_abs m' = fst (serve (mem_abs m) q) \<and> mem_wf m' \<and> same_shape m m'"
proof -
  let ?P = "stm32_platform D rtu_memory_impl_pdu_cb" and ?reply = "adu a (reply_pdu (snd (serve (mem_abs m) q)))"
  note handler = memory_handler.pdu_provider_axioms
  note plat = stm32_rtu_platform [OF D handler, of 0]
  have "is": "interrupts is = map Recv (adu a (request_pdu q))" "set es \<subseteq> {Event}" using q by simp_all
  from port_request [OF plat _ _ _ _ stm32_frame_machine [OF D handler] _ port_idle_ready [OF idle] "is", where g = fst and m = m] mi q
  obtain r u m' where
    r: "run_inputs (stm32_exec D ?P) (is @ Timeout # es @ [Timeout, Event]) s = stm32_serial_send D r"
      "stm32_inv regs 0 r" "curr_st r = RTU_STATE_BUSY" "2 < txbuf_curr r"
      "stm32_app regs u = stm32_app regs (user_data s)" "user_data r = u\<lparr>mcu_app := (mcu_app (user_data s))\<lparr>impl_memory := m'\<rparr>\<rparr>"
      "take (txbuf_curr r) (txbuf r) = ?reply"
      "mem_abs m' = fst (serve (mem_abs m) q)" "mem_wf m'" "same_shape m m'"
    by (auto simp: stm32_crc_is_linux_crc stm32_platform_def)
  let ?u = "(user_data r)\<lparr>static_tx_ctrl := \<lparr>tx_end = txbuf_curr r, tx_user_data = True\<rparr>,
    mcu_drv := usart_async_send D ?reply (mcu_drv (user_data r))\<rparr>"
  have send: "stm32_serial_send D r = Inr (r\<lparr>user_data := ?u\<rparr>)"
    using r(2,7) by (simp add: stm32_send_eq rtu_inv_def buffers_ok_def)
  moreover have "stm32_inv regs 0 (r\<lparr>user_data := ?u\<rparr>)"
    by (rule rtu_inv_new_data [OF r(2)]) (use r(2) D in \<open>simp_all add: rtu_inv_def stm32_drv_ok_def stm32_mode_defs\<close>)
  ultimately show ?thesis
    using r D by (intro exI [of _ "r\<lparr>user_data := ?u\<rparr>"] exI [of _ m']) (auto simp: stm32_drv_ok_def)
qed

lemma stm32_rests:
  assumes D: "stm32_drv_ok D regs queue" and s: "stm32_busy regs s"
  shows "\<exists>s'. run_inputs (stm32_exec D (stm32_platform D rtu_memory_impl_pdu_cb)) [Sent, Event, Timeout, Event] s = Inr s' \<and>
    port_idle (stm32_mode regs) (stm32_good regs 0) s' \<and> mcu_app (user_data s') = mcu_app (user_data s) \<and>
    tx_sent (regs (mcu_drv (user_data s'))) = tx_sent (regs (mcu_drv (user_data s)))"
proof -
  note handler = memory_handler.pdu_provider_axioms
  from port_rests [OF stm32_rtu_platform [OF D handler] stm32_wraps_timeout [OF D handler], of s] s show ?thesis
    by (simp add: tx_complete_def)
qed

text \<open>
  C26: an idle STM32F103 slave, its port adapted to \<open>rtu.h\<close> and \<open>crc.h\<close> as said at the top of this
  theory, through any sequence of requests to its address whose writes stay in its memory
  (\<open>write_in_window\<close>, a part of \<open>exchange_ok\<close>), each byte through the one-byte block of the receiver, with any number of calls of \<open>modbus_rtu_event\<close> among the bytes and
  followed by the completion of the reply and a silence of 3.5t, gives its transmitter exactly the frames
  of the replies of the abstract server over the sequence, its memory becomes the server's, no
  \<open>ASSERT\<close> fails, and it is idle again.
\<close>

theorem stm32_serves_session:
  assumes "stm32_drv_ok D regs queue" and "stm32_inv regs 0 s" and "curr_st s = RTU_STATE_IDLE" and "\<not> updated (status s)"
    and "self_addr (mcu_app (user_data s)) = a" and "impl_memory (mcu_app (user_data s)) = m" and "mem_wf m"
    and "list_all (exchange_ok a m) xs"
  shows "\<exists>s'. run_inputs (stm32_exec D (stm32_platform D rtu_memory_impl_pdu_cb)) (session_inputs xs) s = Inr s' \<and>
    tx_sent (regs (mcu_drv (user_data s'))) = tx_sent (regs (mcu_drv (user_data s))) @
      concat (map (\<lambda>rep. adu a (reply_pdu rep)) (snd (serve_all (mem_abs m) (map fst xs)))) \<and>
    mem_abs (impl_memory (mcu_app (user_data s'))) = fst (serve_all (mem_abs m) (map fst xs)) \<and>
    stm32_inv regs 0 s' \<and> curr_st s' = RTU_STATE_IDLE \<and> \<not> updated (status s')"
proof -
  have idle: "port_idle (stm32_mode regs) (stm32_good regs 0) s" using assms(2-4) by (simp add: port_idle_def)
  show ?thesis
    using port_session [where idle = "port_idle (stm32_mode regs) (stm32_good regs 0)" and busy = "\<lambda>s. stm32_busy regs s" and
        memory = "\<lambda>s. mcu_app (user_data s)" and sent = "\<lambda>s. tx_sent (regs (mcu_drv (user_data s)))",
        OF stm32_answers_request [OF assms(1)] stm32_rests [OF assms(1)] idle assms(5-8)]
    unfolding port_idle_def by blast
qed

theorem stm32_serves_session_witness:
  "\<exists>s s'. run_inputs (stm32_exec demo_stm32 (stm32_platform demo_stm32 rtu_memory_impl_pdu_cb)) (session_inputs demo_exchanges) s = Inr s' \<and>
    tx_sent (fst (mcu_drv (user_data s'))) =
      adu 7 [FCODE_WR_BYTES, 0x10, 0x01, 2] @ adu 7 [FCODE_RD_BYTES, 0x10, 0x01, 2, 8, 9]"
proof -
  let ?s = "(modbus_rtu_init demo_stm32_data)\<lparr>status :=
      \<lparr>updated = False, st_error = False, st_prev = RTU_STATE_INIT, st_curr = RTU_STATE_IDLE\<rparr>\<rparr>"
  have inv: "stm32_inv fst 0 ?s"
    by (simp add: rtu_inv_defs modbus_rtu_init_def stm32_mode_defs demo_stm32_data_def)
  from stm32_serves_session [OF demo_stm32_ok inv _ _ _ _ demo_memory_wf demo_exchanges_ok] obtain s' where
    "run_inputs (stm32_exec demo_stm32 (stm32_platform demo_stm32 rtu_memory_impl_pdu_cb)) (session_inputs demo_exchanges) ?s = Inr s'"
    "tx_sent (fst (mcu_drv (user_data s'))) = concat (map (\<lambda>rep. adu 7 (reply_pdu rep))
      (snd (serve_all (mem_abs (impl_memory demo_memory)) (map fst demo_exchanges))))"
    by (auto simp: modbus_rtu_init_def demo_stm32_data_def)
  then show ?thesis unfolding demo_replies by auto
qed

end
