(* ===== verification/Stm8_Slave.thy ===== *)
theory Stm8_Slave
  imports Mcu_Port
begin

text \<open>
  The port to the STM8S003: \<open>stm8s003f3/rtu_impl.c\<close> and \<open>crc.c\<close>.

  \<open>stm8_drv\<close> holds the macros and functions of the driver, which is not in the repository,
  under their names; \<open>stm8_drv_ok\<close> states what they promise. \<open>tim4_cb\<close> gets \<open>True\<close> for the
  callback \<open>tim_cb\<close> and \<open>False\<close> for \<open>NULL\<close>.

  As the port to the STM32 the files do not compile against \<open>rtu.h\<close> and \<open>crc.h\<close> of the repository, and
  what is modelled is the port adapted to them in the same three places: the slave address is not passed to
  \<open>modbus_rtu_init\<close>, the second parameter of \<open>serial_send\<close> is dropped, and the \<open>uint16_t\<close> of
  \<open>modbus_rtu_calc_crc\<close> is made into the two bytes of \<open>modbus_rtu_crc_t\<close> by
  \<open>word_to_modbus_rtu_crc\<close>.
\<close>

section \<open>The driver\<close>

record 'd stm8_drv =
  TIM4_AUTO_RELOAD_PRELOAD_ENABLE :: "'d \<Rightarrow> 'd"
  TIM4_CLK_DIV_128 :: "'d \<Rightarrow> 'd"
  tim4_cb :: "bool \<Rightarrow> 'd \<Rightarrow> 'd"
  TIM4_WR_TOP :: "u8 \<Rightarrow> 'd \<Rightarrow> 'd"
  TIM4_WR_CNTR :: "u8 \<Rightarrow> 'd \<Rightarrow> 'd"
  TIM4_INT_ENABLE :: "'d \<Rightarrow> 'd"
  TIM4_INT_DISABLE :: "'d \<Rightarrow> 'd"
  TIM4_INT_CLEAR :: "'d \<Rightarrow> 'd"
  TIM4_ENABLE :: "'d \<Rightarrow> 'd"
  TIM4_DISABLE :: "'d \<Rightarrow> 'd"
  CALC_BR :: "nat \<Rightarrow> nat \<Rightarrow> u16"
  UART1_BR :: "u16 \<Rightarrow> 'd \<Rightarrow> 'd"
  UART1_PARITY_EVEN :: "'d \<Rightarrow> 'd"
  UART1_RX_ENABLE :: "'d \<Rightarrow> 'd"
  UART1_TX_ENABLE :: "'d \<Rightarrow> 'd"
  UART1_RX_READY :: "'d \<Rightarrow> bool"
  UART1_RD :: "'d \<Rightarrow> 'd"
  uart1_async_send :: "u8 list \<Rightarrow> 'd \<Rightarrow> 'd"
  uart1_async_recv_cb :: "'d \<Rightarrow> 'd"

section \<open>The code\<close>

type_synonym ('d, 'u) stm8_state = "('d, 'u) mcu modbus_rtu_state"

definition stm8_crc16_update :: "u16 \<Rightarrow> u8 \<Rightarrow> u16" where
  "stm8_crc16_update crc data = (crc_shift ^^ 8) (crc XOR ucast data)"

definition stm8_calc_crc :: "u8 list \<Rightarrow> u16" where
  "stm8_calc_crc bs = foldl stm8_crc16_update 0xFFFF bs"

definition stm8_tim_init :: "'d stm8_drv \<Rightarrow> 'd \<Rightarrow> 'd" where
  "stm8_tim_init D d = TIM4_CLK_DIV_128 D (TIM4_AUTO_RELOAD_PRELOAD_ENABLE D d)"

definition stm8_tim_cb :: "'d stm8_drv \<Rightarrow> ('d, 'u) mcu platform \<Rightarrow> ('d, 'u) stm8_state \<Rightarrow> ('d, 'u) stm8_state res" where
  "stm8_tim_cb D P s = call_timer_cb P (on_drv (TIM4_INT_CLEAR D) s)"

definition stm8_tim_start_1t5 :: "'d stm8_drv \<Rightarrow> ('d, 'u) stm8_state \<Rightarrow> ('d, 'u) stm8_state res" where
  "stm8_tim_start_1t5 D s =
     (let s = on_drv (tim4_cb D True) s; s = on_drv (TIM4_WR_TOP D 47) s; s = on_drv (TIM4_WR_CNTR D 0) s;
          s = on_drv (TIM4_INT_ENABLE D) s; s = on_drv (TIM4_INT_CLEAR D) s
      in Inr (on_drv (TIM4_ENABLE D) s))"

definition stm8_tim_start_3t5 :: "'d stm8_drv \<Rightarrow> ('d, 'u) stm8_state \<Rightarrow> ('d, 'u) stm8_state res" where
  "stm8_tim_start_3t5 D s =
     (let s = on_drv (tim4_cb D True) s; s = on_drv (TIM4_WR_TOP D 110) s; s = on_drv (TIM4_WR_CNTR D 0) s;
          s = on_drv (TIM4_INT_ENABLE D) s; s = on_drv (TIM4_INT_CLEAR D) s
      in Inr (on_drv (TIM4_ENABLE D) s))"

definition stm8_tim_stop :: "'d stm8_drv \<Rightarrow> ('d, 'u) stm8_state \<Rightarrow> ('d, 'u) stm8_state res" where
  "stm8_tim_stop D s =
     (let s = on_drv (TIM4_DISABLE D) s; s = on_drv (TIM4_INT_DISABLE D) s; s = on_drv (TIM4_INT_CLEAR D) s
      in Inr (on_drv (tim4_cb D False) s))"

definition stm8_tim_reset :: "'d stm8_drv \<Rightarrow> ('d, 'u) stm8_state \<Rightarrow> ('d, 'u) stm8_state res" where
  "stm8_tim_reset D s =
     (let s = on_drv (TIM4_DISABLE D) s; s = on_drv (TIM4_WR_CNTR D 0) s; s = on_drv (TIM4_INT_CLEAR D) s
      in Inr (on_drv (TIM4_ENABLE D) s))"

definition stm8_uart_init :: "'d stm8_drv \<Rightarrow> nat \<Rightarrow> 'd \<Rightarrow> 'd" where
  "stm8_uart_init D CPU_CLK d =
     (let d = UART1_BR D (CALC_BR D CPU_CLK 19200) d; d = UART1_PARITY_EVEN D d; d = UART1_RX_ENABLE D d
      in UART1_TX_ENABLE D d)"

definition stm8_uart_rx_recv_cb :: "'d stm8_drv \<Rightarrow> ('d, 'u) mcu platform \<Rightarrow> u8 \<Rightarrow> u8 \<Rightarrow> ('d, 'u) stm8_state
    \<Rightarrow> ('d, 'u) stm8_state res" where
  "stm8_uart_rx_recv_cb D P data fopn s =
     (if fopn = 0 then serial_recv_cb P s data
      else case flush_rx (UART1_RX_READY D) (UART1_RD D) (mcu_drv (user_data s)) of
        None \<Rightarrow> Inl OutOfFuel
      | Some d \<Rightarrow> Inr (serial_recv_err_cb (on_drv (\<lambda>_. d) s) data))"

definition stm8_uart_tx_complete_cb :: "('d, 'u) stm8_state \<Rightarrow> ('d, 'u) stm8_state" where
  "stm8_uart_tx_complete_cb s = serial_sent_cb s"

definition stm8_serial_send :: "'d stm8_drv \<Rightarrow> ('d, 'u) stm8_state \<Rightarrow> ('d, 'u) stm8_state res" where
  "stm8_serial_send D s =
     bind_res (load_all Txbuf (txbuf s) 0 (txbuf_curr s)) (\<lambda>bs. Inr (on_drv (uart1_async_send D bs) s))"

definition stm8_platform :: "'d stm8_drv \<Rightarrow> 'u pdu_handler \<Rightarrow> ('d, 'u) mcu platform" where
  "stm8_platform D cb =
     \<lparr>timer_start_1t5 = stm8_tim_start_1t5 D, timer_start_3t5 = stm8_tim_start_3t5 D,
      timer_stop = stm8_tim_stop D, timer_reset = stm8_tim_reset D, serial_send = stm8_serial_send D,
      pdu_cb = mcu_pdu_cb cb, suspend_cb = None, resume_cb = None,
      calc_crc = (\<lambda>bs. word_to_modbus_rtu_crc (stm8_calc_crc bs))\<rparr>"

definition stm8_rtu_impl :: "'d stm8_drv \<Rightarrow> nat \<Rightarrow> 'd \<Rightarrow> 'u \<Rightarrow> ('d, 'u) stm8_state" where
  "stm8_rtu_impl D CPU_CLK d app =
     (let d = stm8_uart_init D CPU_CLK d; d = stm8_tim_init D d
      in on_drv (uart1_async_recv_cb D) (modbus_rtu_init \<lparr>mcu_drv = d, mcu_app = app\<rparr>))"

section \<open>What the driver promises\<close>

definition stm8_drv_ok :: "'d stm8_drv \<Rightarrow> ('d \<Rightarrow> port_regs) \<Rightarrow> ('d \<Rightarrow> nat) \<Rightarrow> bool" where
  "stm8_drv_ok D regs queue \<longleftrightarrow>
     (\<forall>d. regs (TIM4_AUTO_RELOAD_PRELOAD_ENABLE D d) = regs d) \<and> (\<forall>d. regs (TIM4_CLK_DIV_128 D d) = regs d) \<and>
     (\<forall>d b. regs (tim4_cb D b d) = (regs d)\<lparr>tr_cb := b\<rparr>) \<and>
     (\<forall>d v. regs (TIM4_WR_TOP D v d) = (regs d)\<lparr>tr_top := ucast v\<rparr>) \<and>
     (\<forall>d v. regs (TIM4_WR_CNTR D v d) = regs d) \<and>
     (\<forall>d. regs (TIM4_INT_ENABLE D d) = (regs d)\<lparr>tr_int := True\<rparr>) \<and>
     (\<forall>d. regs (TIM4_INT_DISABLE D d) = (regs d)\<lparr>tr_int := False\<rparr>) \<and>
     (\<forall>d. regs (TIM4_INT_CLEAR D d) = regs d) \<and>
     (\<forall>d. regs (TIM4_ENABLE D d) = (regs d)\<lparr>tr_clk := 1\<rparr>) \<and>
     (\<forall>d. regs (TIM4_DISABLE D d) = (regs d)\<lparr>tr_clk := 0\<rparr>) \<and>
     (\<forall>d v. regs (UART1_BR D v d) = regs d) \<and> (\<forall>d. regs (UART1_PARITY_EVEN D d) = regs d) \<and>
     (\<forall>d. regs (UART1_RX_ENABLE D d) = regs d) \<and> (\<forall>d. regs (UART1_TX_ENABLE D d) = regs d) \<and>
     (\<forall>d. regs (UART1_RD D d) = regs d) \<and> (\<forall>d. UART1_RX_READY D d \<longrightarrow> queue (UART1_RD D d) < queue d) \<and>
     (\<forall>d bs. regs (uart1_async_send D bs d) = (regs d)\<lparr>tx_sent := tx_sent (regs d) @ bs\<rparr>) \<and>
     (\<forall>d. regs (uart1_async_recv_cb D d) = regs d)"

definition stm8_mode :: "('d \<Rightarrow> port_regs) \<Rightarrow> ('d, 'u) mcu \<Rightarrow> timer_mode" where
  "stm8_mode regs u = (let r = regs (mcu_drv u) in
     if tr_clk r = 0 then Stopped else if tr_top r = 47 then Running_1t5 else Running_3t5)"

definition stm8_good :: "('d \<Rightarrow> port_regs) \<Rightarrow> ('d, 'u) mcu \<Rightarrow> bool" where
  "stm8_good regs u = (let r = regs (mcu_drv u) in
     tr_clk r \<noteq> 0 \<longrightarrow> tr_int r \<and> tr_cb r \<and> (tr_top r = 47 \<or> tr_top r = 110))"

lemmas stm8_mode_defs = stm8_mode_def stm8_good_def Let_def

lemma stm8_platform_simps [simp]:
  "timer_start_1t5 (stm8_platform D cb) = stm8_tim_start_1t5 D"
  "timer_start_3t5 (stm8_platform D cb) = stm8_tim_start_3t5 D"
  "timer_stop (stm8_platform D cb) = stm8_tim_stop D" "timer_reset (stm8_platform D cb) = stm8_tim_reset D"
  "serial_send (stm8_platform D cb) = stm8_serial_send D" "pdu_cb (stm8_platform D cb) = mcu_pdu_cb cb"
  "suspend_cb (stm8_platform D cb) = None" "resume_cb (stm8_platform D cb) = None"
  by (simp_all add: stm8_platform_def)

lemma stm8_drv_keeps:
  assumes "rtu_inv (stm8_mode regs) (stm8_good regs) s"
    and "(regs (f (mcu_drv (user_data s))))\<lparr>tx_sent := x\<rparr> = (regs (mcu_drv (user_data s)))\<lparr>tx_sent := x\<rparr>"
  shows "rtu_inv (stm8_mode regs) (stm8_good regs) (on_drv f s)"
proof -
  have "tr_clk (regs (f (mcu_drv (user_data s)))) = tr_clk (regs (mcu_drv (user_data s)))"
    "tr_top (regs (f (mcu_drv (user_data s)))) = tr_top (regs (mcu_drv (user_data s)))"
    "tr_int (regs (f (mcu_drv (user_data s)))) = tr_int (regs (mcu_drv (user_data s)))"
    "tr_cb (regs (f (mcu_drv (user_data s)))) = tr_cb (regs (mcu_drv (user_data s)))"
    using arg_cong [OF assms(2), of tr_clk] arg_cong [OF assms(2), of tr_top] arg_cong [OF assms(2), of tr_int]
      arg_cong [OF assms(2), of tr_cb] by simp_all
  with assms(1) show ?thesis
    unfolding on_drv_def by (intro rtu_inv_user_data) (simp_all add: rtu_inv_def stm8_mode_defs)
qed

lemma stm8_send_eq:
  "txbuf_curr s \<le> length (txbuf s) \<Longrightarrow>
   stm8_serial_send D s = Inr (on_drv (uart1_async_send D (take (txbuf_curr s) (txbuf s))) s)"
  by (simp add: stm8_serial_send_def load_all_ok)

lemma stm8_rtu_platform:
  assumes D: "stm8_drv_ok D regs queue" and cb: "pdu_provider cb"
  shows "rtu_platform (stm8_platform D cb) (stm8_mode regs) (stm8_good regs)
    (\<lambda>u. (mcu_app u, tx_sent (regs (mcu_drv u))))"
proof (unfold_locales, goal_cases)
  case (1 s)
  then show ?case
    using D by (intro exI [of _ "user_data (projr (stm8_tim_start_1t5 D s))"])
      (simp add: stm8_tim_start_1t5_def on_drv_def stm8_drv_ok_def stm8_mode_defs)
next
  case (2 s)
  then show ?case
    using D by (intro exI [of _ "user_data (projr (stm8_tim_start_3t5 D s))"])
      (simp add: stm8_tim_start_3t5_def on_drv_def stm8_drv_ok_def stm8_mode_defs)
next
  case (3 s)
  then show ?case
    using D by (intro exI [of _ "user_data (projr (stm8_tim_stop D s))"])
      (simp add: stm8_tim_stop_def on_drv_def stm8_drv_ok_def stm8_mode_defs)
next
  case (4 s)
  then show ?case
    using D by (intro exI [of _ "user_data (projr (stm8_tim_reset D s))"])
      (simp add: stm8_tim_reset_def on_drv_def stm8_drv_ok_def stm8_mode_defs split: if_split_asm)
next
  case (7 s s' dst)
  from pdu_provider.mcu_pdu_ok [OF cb 7(3) 7(6) [simplified]] obtain app buf where
    "s' = s\<lparr>user_data := (user_data s)\<lparr>mcu_app := app\<rparr>, txbuf := buf\<rparr>" "length buf = TXBUF_CAPACITY"
    "dst \<le> TXBUF_CAPACITY - 2" by blast
  then show ?case
    using 7(1) by (intro exI [of _ "(user_data s)\<lparr>mcu_app := app\<rparr>"] exI [of _ buf]) (simp add: stm8_mode_defs)
next
  case (8 s s')
  then have "s' = on_drv (uart1_async_send D (take (txbuf_curr s) (txbuf s))) s"
    by (simp add: stm8_send_eq rtu_inv_def buffers_ok_def)
  with 8(1) D show ?case by (simp add: stm8_drv_keeps stm8_drv_ok_def)
qed simp_all

section \<open>The slave\<close>

text \<open>The interrupts and the main loop in any order, with changes of the hardware and the application.\<close>

inductive stm8_step :: "'d stm8_drv \<Rightarrow> 'u pdu_handler \<Rightarrow> ('d \<Rightarrow> port_regs)
    \<Rightarrow> ('d, 'u) stm8_state \<Rightarrow> ('d, 'u) stm8_state \<Rightarrow> bool" for D cb regs where
  tim: "stm8_mode regs (user_data s) \<noteq> Stopped \<Longrightarrow> stm8_tim_cb D (stm8_platform D cb) s = Inr s' \<Longrightarrow>
    stm8_step D cb regs s s'"
| rx: "stm8_uart_rx_recv_cb D (stm8_platform D cb) data fopn s = Inr s' \<Longrightarrow> stm8_step D cb regs s s'"
| tx: "stm8_step D cb regs s (stm8_uart_tx_complete_cb s)"
| event: "modbus_rtu_event (stm8_platform D cb) s = Inr s' \<Longrightarrow> stm8_step D cb regs s s'"
| hw: "regs d = regs (mcu_drv (user_data s)) \<Longrightarrow> stm8_step D cb regs s (on_drv (\<lambda>_. d) s)"
| app: "stm8_step D cb regs s (s\<lparr>user_data := (user_data s)\<lparr>mcu_app := x\<rparr>\<rparr>)"

inductive stm8_reachable :: "'d stm8_drv \<Rightarrow> 'u pdu_handler \<Rightarrow> ('d \<Rightarrow> port_regs)
    \<Rightarrow> ('d, 'u) stm8_state \<Rightarrow> ('d, 'u) stm8_state \<Rightarrow> bool" for D cb regs s0 where
  init: "stm8_reachable D cb regs s0 s0"
| step: "stm8_reachable D cb regs s0 s \<Longrightarrow> stm8_step D cb regs s s' \<Longrightarrow> stm8_reachable D cb regs s0 s'"

abbreviation stm8_inv :: "('d \<Rightarrow> port_regs) \<Rightarrow> ('d, 'u) stm8_state \<Rightarrow> bool" where
  "stm8_inv regs \<equiv> rtu_inv (stm8_mode regs) (stm8_good regs)"

lemma stm8_rx_ok:
  assumes D: "stm8_drv_ok D regs queue" and cb: "pdu_provider cb" and inv: "stm8_inv regs s"
  shows "\<exists>s'. stm8_uart_rx_recv_cb D (stm8_platform D cb) data fopn s = Inr s' \<and> stm8_inv regs s'"
proof (cases "fopn = 0")
  case True
  with port_exec_ok [OF stm8_rtu_platform [OF D cb] inv, of "Recv data"] show ?thesis
    by (simp add: stm8_uart_rx_recv_cb_def)
next
  case False
  have "\<exists>d. flush_rx (UART1_RX_READY D) (UART1_RD D) (mcu_drv (user_data s)) = Some d \<and>
      \<not> UART1_RX_READY D d \<and> regs d = regs (mcu_drv (user_data s))"
    using D by (intro flush_rx_ends [where queue = queue]) (simp_all add: stm8_drv_ok_def)
  then obtain d where d: "flush_rx (UART1_RX_READY D) (UART1_RD D) (mcu_drv (user_data s)) = Some d"
      "regs d = regs (mcu_drv (user_data s))"
    by blast
  have "stm8_inv regs (serial_recv_err_cb (on_drv (\<lambda>_. d) s) data)"
    by (intro serial_recv_err_inv stm8_drv_keeps [OF inv]) (simp add: d)
  with False d show ?thesis by (simp add: stm8_uart_rx_recv_cb_def)
qed

lemma stm8_tim_ok:
  assumes D: "stm8_drv_ok D regs queue" and cb: "pdu_provider cb" and inv: "stm8_inv regs s"
    and run: "stm8_mode regs (user_data s) \<noteq> Stopped"
  shows "\<exists>s'. stm8_tim_cb D (stm8_platform D cb) s = Inr s' \<and> stm8_inv regs s'"
proof -
  have "stm8_inv regs (on_drv (TIM4_INT_CLEAR D) s)"
    using D by (intro stm8_drv_keeps [OF inv]) (simp add: stm8_drv_ok_def)
  moreover have "stm8_mode regs (user_data (on_drv (TIM4_INT_CLEAR D) s)) = stm8_mode regs (user_data s)"
    using D by (simp add: stm8_drv_ok_def stm8_mode_def)
  ultimately show ?thesis
    using port_exec_ok [OF stm8_rtu_platform [OF D cb], of "on_drv (TIM4_INT_CLEAR D) s" Timeout] run
    by (simp add: stm8_tim_cb_def)
qed

lemma stm8_step_inv:
  assumes D: "stm8_drv_ok D regs queue" and cb: "pdu_provider cb"
    and step: "stm8_step D cb regs s s'" and inv: "stm8_inv regs s"
  shows "stm8_inv regs s'"
  using step
proof cases
  case tim
  with stm8_tim_ok [OF D cb inv] show ?thesis by auto
next
  case (rx data fopn)
  with stm8_rx_ok [OF D cb inv, of data fopn] show ?thesis by auto
next
  case tx
  then show ?thesis using serial_sent_inv [OF inv] by (simp add: stm8_uart_tx_complete_cb_def)
next
  case event
  with rtu_platform.exec_inv [OF stm8_rtu_platform [OF D cb] inv, of Event s'] show ?thesis by simp
next
  case (hw d)
  then show ?thesis by (simp add: stm8_drv_keeps [OF inv])
next
  case (app x)
  show ?thesis
    unfolding app by (rule rtu_inv_new_data [OF inv]) (use inv in \<open>simp_all add: rtu_inv_def stm8_mode_defs\<close>)
qed

lemma stm8_impl_inv:
  assumes "stm8_drv_ok D regs queue" and "tr_clk (regs d) = 0"
  shows "stm8_inv regs (stm8_rtu_impl D CPU_CLK d app)"
  unfolding stm8_rtu_impl_def Let_def stm8_uart_init_def stm8_tim_init_def
  using assms by (intro stm8_drv_keeps rtu_inv_init) (simp_all add: stm8_drv_ok_def stm8_mode_defs modbus_rtu_init_def)

lemma stm8_crc: "word_to_modbus_rtu_crc (stm8_calc_crc bs) = modbus_rtu_calc_crc (Some bs)"
proof -
  have "stm8_calc_crc bs = stm32_calc_crc bs"
    by (simp add: stm8_calc_crc_def stm32_calc_crc_def stm8_crc16_update_def [abs_def] stm32_crc16_update_def [abs_def])
  then show ?thesis by (simp only: stm32_crc_is_linux_crc)
qed

text \<open>The inputs of \<open>rtu.c\<close> as the port delivers them; a byte with an error has one flag set.\<close>

fun stm8_exec :: "'d stm8_drv \<Rightarrow> ('d, 'u) mcu platform \<Rightarrow> input \<Rightarrow> ('d, 'u) stm8_state \<Rightarrow> ('d, 'u) stm8_state res" where
  "stm8_exec D P (Recv b) s = stm8_uart_rx_recv_cb D P b 0 s"
| "stm8_exec D P (Recv_err b) s = stm8_uart_rx_recv_cb D P b 1 s"
| "stm8_exec D P Timeout s = stm8_tim_cb D P s"
| "stm8_exec D P Sent s = Inr (stm8_uart_tx_complete_cb s)"
| "stm8_exec D P Event s = modbus_rtu_event P s"

abbreviation stm8_app :: "('d \<Rightarrow> port_regs) \<Rightarrow> ('d, 'u) mcu \<Rightarrow> 'u \<times> u8 list" where
  "stm8_app regs u \<equiv> (mcu_app u, tx_sent (regs (mcu_drv u)))"

text \<open>The timer's interrupt clears its flag, which neither the mode nor the transmitter shows.\<close>

lemma stm8_wraps_timeout:
  assumes D: "stm8_drv_ok D regs queue" and P: "rtu_platform P (stm8_mode regs) (stm8_good regs) (stm8_app regs)"
  shows "wraps P (stm8_mode regs) (stm8_good regs) (stm8_app regs) (stm8_exec D P) Timeout"
proof (rule wrapsI [where mid = "\<lambda>_. stm8_good regs" and f = "\<lambda>_. id" and
    u = "\<lambda>s. (user_data s)\<lparr>mcu_drv := TIM4_INT_CLEAR D (mcu_drv (user_data s))\<rparr>"])
qed (use D P in \<open>simp_all add: stm8_tim_cb_def on_drv_def stm8_drv_ok_def stm8_mode_defs\<close>)

lemma stm8_frame_machine:
  assumes D: "stm8_drv_ok D regs queue" and P: "rtu_platform P (stm8_mode regs) (stm8_good regs) (stm8_app regs)"
  shows "frame_machine (stm8_exec D P) (frame_at (stm8_mode regs) (stm8_good regs) (stm8_app regs) a)"
  by (rule port_frame_machine [OF P wraps_exec [OF P] stm8_wraps_timeout [OF D P]])
    (simp_all add: stm8_uart_rx_recv_cb_def)

section \<open>A driver that keeps its promises\<close>

definition demo_stm8 :: "(port_regs \<times> nat) stm8_drv" where
  "demo_stm8 = \<lparr>TIM4_AUTO_RELOAD_PRELOAD_ENABLE = id, TIM4_CLK_DIV_128 = id,
     tim4_cb = (\<lambda>b (r, n). (r\<lparr>tr_cb := b\<rparr>, n)),
     TIM4_WR_TOP = (\<lambda>v (r, n). (r\<lparr>tr_top := ucast v\<rparr>, n)), TIM4_WR_CNTR = (\<lambda>v. id),
     TIM4_INT_ENABLE = (\<lambda>(r, n). (r\<lparr>tr_int := True\<rparr>, n)),
     TIM4_INT_DISABLE = (\<lambda>(r, n). (r\<lparr>tr_int := False\<rparr>, n)), TIM4_INT_CLEAR = id,
     TIM4_ENABLE = (\<lambda>(r, n). (r\<lparr>tr_clk := 1\<rparr>, n)), TIM4_DISABLE = (\<lambda>(r, n). (r\<lparr>tr_clk := 0\<rparr>, n)),
     CALC_BR = (\<lambda>clk bps. of_nat (clk div bps)), UART1_BR = (\<lambda>v. id), UART1_PARITY_EVEN = id,
     UART1_RX_ENABLE = id, UART1_TX_ENABLE = id, UART1_RX_READY = (\<lambda>(r, n). 0 < n),
     UART1_RD = (\<lambda>(r, n). (r, n - 1)), uart1_async_send = (\<lambda>bs (r, n). (r\<lparr>tx_sent := tx_sent r @ bs\<rparr>, n)),
     uart1_async_recv_cb = id\<rparr>"

lemma demo_stm8_ok: "stm8_drv_ok demo_stm8 fst snd"
  by (simp add: stm8_drv_ok_def demo_stm8_def split_beta)

section \<open>Properties\<close>

text \<open>
  C30: on the STM8S003, whatever the order of interrupts, events and changes of the hardware behind
  its registers: the state machine keeps its invariant, every interrupt returns, the event fails
  only where the PDU handler does, and the CRC of its frames is that of the Linux build.
\<close>

theorem stm8_slave_safe:
  assumes "stm8_drv_ok D regs queue" and "pdu_provider cb" and "tr_clk (regs d) = 0"
    and "stm8_reachable D cb regs (stm8_rtu_impl D CPU_CLK d app) s"
  shows "stm8_inv regs s \<and>
    (stm8_mode regs (user_data s) \<noteq> Stopped \<longrightarrow> is_ok (stm8_tim_cb D (stm8_platform D cb) s)) \<and>
    is_ok (stm8_uart_rx_recv_cb D (stm8_platform D cb) data fopn s) \<and>
    (modbus_rtu_event (stm8_platform D cb) s = Inl e \<longrightarrow> handler_fault cb e) \<and>
    calc_crc (stm8_platform D cb) bs = modbus_rtu_calc_crc (Some bs)"
proof -
  have inv: "stm8_inv regs s"
    using assms(4) by induction (auto intro: stm8_step_inv [OF assms(1,2)] stm8_impl_inv [OF assms(1,3)])
  have "handler_fault cb e" if "modbus_rtu_event (stm8_platform D cb) s = Inl e"
    by (rule port_event_fault [OF stm8_rtu_platform [OF assms(1,2)] inv that])
      (simp_all add: stm8_send_eq rtu_inv_def buffers_ok_def)
  then show ?thesis
    using inv stm8_tim_ok [OF assms(1,2) inv] stm8_rx_ok [OF assms(1,2) inv, of data fopn]
    by (auto simp: stm8_platform_def stm8_crc)
qed

theorem stm8_slave_safe_witness:
  "\<exists>s. modbus_rtu_event (stm8_platform demo_stm8 rtu_memory_impl_pdu_cb)
      (stm8_rtu_impl demo_stm8 8000000 (\<lparr>tr_top = 0, tr_clk = 0, tr_int = False, tr_cb = False, tx_sent = []\<rparr>, 0) demo_memory)
      = Inr s \<and> stm8_mode fst (user_data s) = Running_3t5 \<and>
    is_ok (stm8_tim_cb demo_stm8 (stm8_platform demo_stm8 rtu_memory_impl_pdu_cb) s)"
proof -
  let ?P = "stm8_platform demo_stm8 rtu_memory_impl_pdu_cb"
  let ?d = "(\<lparr>tr_top = 0, tr_clk = 0, tr_int = False, tr_cb = False, tx_sent = []\<rparr>, 0 :: nat)"
  let ?s0 = "stm8_rtu_impl demo_stm8 8000000 ?d demo_memory"
  obtain s where s: "modbus_rtu_event ?P ?s0 = Inr s" "stm8_mode fst (user_data s) = Running_3t5"
    by (simp add: modbus_rtu_event_def event_dispatch_def event_restart_def stm8_rtu_impl_def Let_def
        modbus_rtu_init_def reset_rxbuf_def reset_txbuf_def stm8_tim_stop_def stm8_tim_start_3t5_def stm8_uart_init_def
        stm8_tim_init_def stm8_mode_def on_drv_def demo_stm8_def)
  have "stm8_reachable demo_stm8 rtu_memory_impl_pdu_cb fst ?s0 s"
    using stm8_reachable.init stm8_step.event [OF s(1)] stm8_reachable.step by blast
  from stm8_slave_safe [OF demo_stm8_ok memory_handler.pdu_provider_axioms _ this, of 0 0 undefined "[]"] s show ?thesis by simp
qed

text \<open>
  An idle slave that receives the frame of a request to its address, with any number of calls of
  \<open>modbus_rtu_event\<close> in between, gives its transmitter exactly the frame of the reply of the
  abstract server, and its memory becomes the server's.
\<close>

lemma stm8_answers_request:
  assumes D: "stm8_drv_ok D regs queue" and idle: "port_idle (stm8_mode regs) (stm8_good regs) s"
    and mi: "self_addr (mcu_app (user_data s)) = a" "impl_memory (mcu_app (user_data s)) = m" "mem_wf m"
    and q: "exchange_ok a m (q, is, es)"
  shows "\<exists>s' m'. run_inputs (stm8_exec D (stm8_platform D rtu_memory_impl_pdu_cb)) (is @ Timeout # es @ [Timeout, Event]) s = Inr s' \<and>
    (stm8_inv regs s' \<and> curr_st s' = RTU_STATE_BUSY) \<and> mcu_app (user_data s') = (mcu_app (user_data s))\<lparr>impl_memory := m'\<rparr> \<and>
    tx_sent (regs (mcu_drv (user_data s'))) =
      tx_sent (regs (mcu_drv (user_data s))) @ adu a (reply_pdu (snd (serve (mem_abs m) q))) \<and>
    mem_abs m' = fst (serve (mem_abs m) q) \<and> mem_wf m' \<and> same_shape m m'"
proof -
  let ?P = "stm8_platform D rtu_memory_impl_pdu_cb"
  note plat = stm8_rtu_platform [OF D memory_handler.pdu_provider_axioms]
  have "is": "interrupts is = map Recv (adu a (request_pdu q))" "set es \<subseteq> {Event}" using q by simp_all
  from port_request [OF plat _ _ _ _ stm8_frame_machine [OF D plat] _ port_idle_ready [OF idle] "is", where g = fst and m = m] mi q
  obtain r u m' where
    r: "run_inputs (stm8_exec D ?P) (is @ Timeout # es @ [Timeout, Event]) s = stm8_serial_send D r"
      "stm8_inv regs r" "curr_st r = RTU_STATE_BUSY" "2 < txbuf_curr r"
      "stm8_app regs u = stm8_app regs (user_data s)" "user_data r = u\<lparr>mcu_app := (mcu_app (user_data s))\<lparr>impl_memory := m'\<rparr>\<rparr>"
      "take (txbuf_curr r) (txbuf r) = adu a (reply_pdu (snd (serve (mem_abs m) q)))"
      "mem_abs m' = fst (serve (mem_abs m) q)" "mem_wf m'" "same_shape m m'"
    by (auto simp: stm8_crc stm8_platform_def)
  have "stm8_serial_send D r = Inr (on_drv (uart1_async_send D (adu a (reply_pdu (snd (serve (mem_abs m) q))))) r)"
    using r(2,7) by (simp add: stm8_send_eq rtu_inv_def buffers_ok_def)
  with r stm8_drv_keeps [OF r(2)] D show ?thesis
    by (auto simp: stm8_drv_ok_def)
qed

lemma stm8_rests:
  assumes D: "stm8_drv_ok D regs queue" and s: "stm8_inv regs s \<and> curr_st s = RTU_STATE_BUSY"
  shows "\<exists>s'. run_inputs (stm8_exec D (stm8_platform D rtu_memory_impl_pdu_cb)) [Sent, Event, Timeout, Event] s = Inr s' \<and>
    port_idle (stm8_mode regs) (stm8_good regs) s' \<and> mcu_app (user_data s') = mcu_app (user_data s) \<and>
    tx_sent (regs (mcu_drv (user_data s'))) = tx_sent (regs (mcu_drv (user_data s)))"
proof -
  note plat = stm8_rtu_platform [OF D memory_handler.pdu_provider_axioms]
  from port_rests [OF plat stm8_wraps_timeout [OF D plat] _ _ conjunct1 [OF s] conjunct2 [OF s]] show ?thesis
    by (simp add: stm8_uart_tx_complete_cb_def)
qed

text \<open>
  C27: an idle STM8S003 slave, its port adapted to \<open>rtu.h\<close> and \<open>crc.h\<close> as said at the top of this
  theory, through any sequence of requests to its address whose writes stay in its memory
  (\<open>write_in_window\<close>, a part of \<open>exchange_ok\<close>), each with any number of calls of \<open>modbus_rtu_event\<close> among its bytes and followed by the completion of its reply and a
  silence of 3.5t, gives its transmitter exactly the frames of the replies of the abstract server over
  the sequence, its memory becomes the server's, and it is idle again.
\<close>

theorem stm8_serves_session:
  assumes "stm8_drv_ok D regs queue" and "stm8_inv regs s" and "curr_st s = RTU_STATE_IDLE" and "\<not> updated (status s)"
    and "self_addr (mcu_app (user_data s)) = a" and "impl_memory (mcu_app (user_data s)) = m" and "mem_wf m"
    and "list_all (exchange_ok a m) xs"
  shows "\<exists>s'. run_inputs (stm8_exec D (stm8_platform D rtu_memory_impl_pdu_cb)) (session_inputs xs) s = Inr s' \<and>
    tx_sent (regs (mcu_drv (user_data s'))) = tx_sent (regs (mcu_drv (user_data s))) @
      concat (map (\<lambda>rep. adu a (reply_pdu rep)) (snd (serve_all (mem_abs m) (map fst xs)))) \<and>
    mem_abs (impl_memory (mcu_app (user_data s'))) = fst (serve_all (mem_abs m) (map fst xs)) \<and>
    stm8_inv regs s' \<and> curr_st s' = RTU_STATE_IDLE \<and> \<not> updated (status s')"
proof -
  have idle: "port_idle (stm8_mode regs) (stm8_good regs) s" using assms(2-4) by (simp add: port_idle_def)
  show ?thesis
    using port_session [where idle = "port_idle (stm8_mode regs) (stm8_good regs)" and
        busy = "\<lambda>s. stm8_inv regs s \<and> curr_st s = RTU_STATE_BUSY" and memory = "\<lambda>s. mcu_app (user_data s)" and
        sent = "\<lambda>s. tx_sent (regs (mcu_drv (user_data s)))",
        OF stm8_answers_request [OF assms(1)] stm8_rests [OF assms(1)] idle assms(5-8)]
    unfolding port_idle_def by blast
qed

text \<open>The witness writes two bytes and reads them back.\<close>

theorem stm8_serves_session_witness:
  "\<exists>s s'. run_inputs (stm8_exec demo_stm8 (stm8_platform demo_stm8 rtu_memory_impl_pdu_cb)) (session_inputs demo_exchanges) s = Inr s' \<and>
    tx_sent (fst (mcu_drv (user_data s'))) =
      adu 7 [FCODE_WR_BYTES, 0x10, 0x01, 2] @ adu 7 [FCODE_RD_BYTES, 0x10, 0x01, 2, 8, 9]"
proof -
  let ?d = "(\<lparr>tr_top = 0, tr_clk = 0, tr_int = False, tr_cb = False, tx_sent = []\<rparr>, 0 :: nat)"
  let ?s = "(modbus_rtu_init \<lparr>mcu_drv = ?d, mcu_app = demo_memory\<rparr>)\<lparr>status :=
      \<lparr>updated = False, st_error = False, st_prev = RTU_STATE_INIT, st_curr = RTU_STATE_IDLE\<rparr>\<rparr>"
  have inv: "stm8_inv fst ?s"
    by (simp add: rtu_inv_defs modbus_rtu_init_def stm8_mode_defs)
  from stm8_serves_session [OF demo_stm8_ok inv _ _ _ _ demo_memory_wf demo_exchanges_ok] obtain s' where
    "run_inputs (stm8_exec demo_stm8 (stm8_platform demo_stm8 rtu_memory_impl_pdu_cb)) (session_inputs demo_exchanges) ?s = Inr s'"
    "tx_sent (fst (mcu_drv (user_data s'))) = concat (map (\<lambda>rep. adu 7 (reply_pdu rep))
      (snd (serve_all (mem_abs (impl_memory demo_memory)) (map fst demo_exchanges))))"
    by (auto simp: modbus_rtu_init_def)
  then show ?thesis unfolding demo_replies by auto
qed

end
