(* ===== verification/Linux_Tests.thy ===== *)
theory Linux_Tests
  imports Master_Slave Linux_Utils Linux_Main
begin

text \<open>
  The tests of master and slave, \<open>linux/tests/rtu_tests.c\<close>, as programs on the model, and the
  proof that they pass.

  \<open>test_fixture\<close> is what a test uses of the fixture: its settings and the operating system on the
  master's side of the line; the slave of the other thread is a state of \<open>Linux_Rtu\<close>. A test
  returns the fixture and whether all its \<open>ASSERT\<close>s and \<open>EXPECT\<close>s hold. The build defines
  \<open>RTU_MEMORY_ADDR\<close> and \<open>RTU_MEMORY_SIZE\<close>; here they are arguments. Local buffers that C leaves
  uninitialised hold zeros; nothing reads them before they are filled.
\<close>

section \<open>The fixture\<close>

record test_config =
  tc_dev_path :: "string option"
  tc_rate :: speed_t
  tc_parity :: parity_t
  tc_debug_size :: int
  tc_rtu_addr :: int
  tc_1t5_us :: int
  tc_3t5_us :: int
  tc_exec_ms :: int

record test_fixture =
  tf_config :: test_config
  tf_master :: os

definition is_hw_test :: "test_fixture \<Rightarrow> bool" where
  "is_hw_test tf = (tc_dev_path (tf_config tf) \<noteq> None)"

definition master_read :: "test_fixture \<Rightarrow> u8 list \<Rightarrow> (test_fixture \<times> u8 list \<times> int) res" where
  "master_read tf buf =
     bind_res (calc_tmax_ms (tc_rate (tf_config tf)) (length buf)) (\<lambda>t.
     bind_res (tty_read (tf_master tf) buf (t + tc_exec_ms (tf_config tf)) False) (\<lambda>(w, buf, cur, _).
     Inr (tf\<lparr>tf_master := w\<rparr>, buf, cur)))"

definition master_write :: "test_fixture \<Rightarrow> u8 list \<Rightarrow> (test_fixture \<times> int) res" where
  "master_write tf data =
     bind_res (calc_tmax_ms (tc_rate (tf_config tf)) (length data)) (\<lambda>tmax_ms.
     bind_res (tty_write (tf_master tf) data tmax_ms False) (\<lambda>(w, cur, _).
     Inr (tf\<lparr>tf_master := w\<rparr>, cur)))"

text \<open>The slave's memory as \<open>async_run_rtu\<close> sets it up: the bytes 0, 1, \<dots>, 255, 0, 1, \<dots>\<close>

definition async_run_memory :: "u16 \<Rightarrow> u16 \<Rightarrow> u8 \<Rightarrow> rtu_memory_impl" where
  "async_run_memory mem_addr mem_size addr =
     (let mi = rtu_memory_impl_init mem_addr mem_size (rtu_memory_impl_clear (unat mem_size));
          mi = mi\<lparr>self_addr := addr\<rparr>
      in mi\<lparr>impl_memory := (impl_memory mi)\<lparr>mem_bytes := map of_nat [0..<unat mem_size]\<rparr>\<rparr>)"

text \<open>
  The devices on the two ends of the line, and the descriptors that are open: \<open>os\<close> is what the
  kernel answers to \<open>tty_pair_create\<close>, \<open>fd\<close> what it answers to \<open>open\<close>. The locks on
  the line succeed.
\<close>

definition serial_init :: "pty_answers \<Rightarrow> int \<Rightarrow> test_config \<Rightarrow> int set \<Rightarrow> (tty_dev \<times> tty_dev \<times> int set) res" where
  "serial_init os fd cfg fds =
     (case tc_dev_path cfg of
        Some path \<Rightarrow>
          bind_res (tty_open (tty_init (nat (tc_debug_size cfg mod 2 ^ 64))) path fd) (\<lambda>master.
          Inr (master, tty_init 0, insert fd fds))
      | None \<Rightarrow>
          bind_res (tty_pair_create os tty_pair_init (Some ''/dev/ptmx'') fds) (\<lambda>(pair, fds).
          let master = tty_init (nat (tc_debug_size cfg mod 2 ^ 64)); slave = tty_init (nat (tc_debug_size cfg mod 2 ^ 64)) in
          bind_res (tty_adopt master (master_fd pair)) (\<lambda>master.
          bind_res (tty_open slave (the (slave_path pair)) fd) (\<lambda>slave.
          Inr (master, slave, insert fd fds)))))"

definition serial_config :: "tty_dev \<Rightarrow> tty_dev \<Rightarrow> speed_t \<Rightarrow> parity_t \<Rightarrow> (tty_dev \<times> tty_dev) res" where
  "serial_config master slave r parity =
     (let stop_bits = (if PARITY_none = parity then STOP_BITS_2 else STOP_BITS_1);
          config = tty_configure_term no_termios r parity DATA_BITS_8 stop_bits in
      bind_res (tty_configure master r parity DATA_BITS_8 stop_bits True config) (\<lambda>master.
      bind_res (tty_configure slave r parity DATA_BITS_8 stop_bits True config) (\<lambda>slave.
      Inr (master, slave))))"

definition dev_deinit :: "tty_dev \<Rightarrow> int set \<Rightarrow> (tty_dev \<times> int set) res" where
  "dev_deinit d fds =
     bind_res (tty_deinit d (dev_fd d \<in> fds)) (\<lambda>d'. Inr (d', fds - {dev_fd d}))"

definition serial_deinit :: "tty_dev \<Rightarrow> tty_dev \<Rightarrow> int set \<Rightarrow> (tty_dev \<times> tty_dev \<times> int set) res" where
  "serial_deinit master slave fds =
     bind_res (dev_deinit slave fds) (\<lambda>(slave, fds).
     bind_res (dev_deinit master fds) (\<lambda>(master, fds). Inr (master, slave, fds)))"

section \<open>The tests\<close>

text \<open>\<open>EXPECT\<close> goes on after a failure, \<open>ASSERT\<close> returns.\<close>

definition EXPECT :: "bool \<Rightarrow> (test_fixture \<times> bool) res \<Rightarrow> (test_fixture \<times> bool) res" where
  "EXPECT c rest = bind_res rest (\<lambda>(tf, ok). Inr (tf, c \<and> ok))"

definition ASSERT :: "bool \<Rightarrow> test_fixture \<Rightarrow> (test_fixture \<times> bool) res \<Rightarrow> (test_fixture \<times> bool) res" where
  "ASSERT c tf rest = (if c then rest else Inr (tf, False))"

abbreviation rtu_addr_of :: "test_fixture \<Rightarrow> u8" where
  "rtu_addr_of tf \<equiv> word_of_int (tc_rtu_addr (tf_config tf))"

abbreviation is_rtu_addr :: "test_fixture \<Rightarrow> u8 \<Rightarrow> bool" where
  "is_rtu_addr tf a \<equiv> uint a = tc_rtu_addr (tf_config tf)"

text \<open>A string literal with its terminating zero.\<close>

definition c_string :: "string \<Rightarrow> u8 list" where
  "c_string s = map of_char s @ [0]"

definition message :: "u8 list" where
  "message = c_string ''!!!hello this is RTU memory!!!''"

definition read_bytes_21 :: "u16 \<Rightarrow> test_fixture \<Rightarrow> (test_fixture \<times> bool) res" where
  "read_bytes_21 mem_addr tf =
     bind_res (make_request_rd_bytes (rtu_addr_of tf) (word_to_modbus_rtu_data16 mem_addr) 21
       (Some (replicate ADU_CAPACITY 0)) ADU_CAPACITY) (\<lambda>(req, req_end).
     case req_end of None \<Rightarrow> Inr (tf, False) | Some n \<Rightarrow>
     bind_res (master_write tf (take n (the req))) (\<lambda>(tf, cur). EXPECT (cur = int n) (
     bind_res (master_read tf (replicate ADU_CAPACITY 0)) (\<lambda>(tf, rx_buf, cur).
     bind_res (parse_reply_rd_bytes rx_buf (nat (cur mod 2 ^ 64))) (\<lambda>rep.
     case rep of None \<Rightarrow> Inr (tf, False) | Some rep \<Rightarrow>
     let h = rdb_header rep in
     Inr (tf, is_rtu_addr tf (bytes_addr h) \<and> bytes_fcode h = FCODE_RD_BYTES \<and>
       DATA16_TO_WORD (bytes_mem_addr h) = mem_addr \<and> bytes_count h = 21 \<and>
       (is_hw_test tf \<or> list_all (\<lambda>i. of_nat i = rdb_bytes rep ! i) [0..<unat (bytes_count h)])))))))"

definition write_bytes_func_STR :: "u16 \<Rightarrow> test_fixture \<Rightarrow> (test_fixture \<times> bool) res" where
  "write_bytes_func_STR mem_addr tf =
     bind_res (make_request_wr_bytes (rtu_addr_of tf) (word_to_modbus_rtu_data16 mem_addr) (Some message)
       (of_nat (length message)) (Some (replicate ADU_CAPACITY 0)) ADU_CAPACITY) (\<lambda>(req, req_end).
     case req_end of None \<Rightarrow> Inr (tf, False) | Some n \<Rightarrow>
     bind_res (master_write tf (take n (the req))) (\<lambda>(tf, cur). EXPECT (cur = int n) (
     bind_res (master_read tf (replicate ADU_CAPACITY 0)) (\<lambda>(tf, rx_buf, cur).
     bind_res (parse_reply_wr_bytes rx_buf (nat (cur mod 2 ^ 64))) (\<lambda>rep.
     case rep of None \<Rightarrow> Inr (tf, False) | Some rep \<Rightarrow>
     Inr (tf, is_rtu_addr tf (bytes_addr rep) \<and> bytes_fcode rep = FCODE_WR_BYTES \<and>
       DATA16_TO_WORD (bytes_mem_addr rep) = mem_addr \<and> unat (bytes_count rep) = length message))))))"

definition write_bytes_struct_STR :: "u16 \<Rightarrow> test_fixture \<Rightarrow> (test_fixture \<times> bool) res" where
  "write_bytes_struct_STR mem_addr tf =
     (let req = bytes_header_bytes \<lparr>bytes_addr = rtu_addr_of tf, bytes_fcode = FCODE_WR_BYTES,
            bytes_mem_addr = word_to_modbus_rtu_data16 mem_addr, bytes_count = of_nat (length message)\<rparr>
            @ message @ crc_struct_bytes no_crc in
      bind_res (implace_crc req (length req)) (\<lambda>(req, r). ASSERT (r \<noteq> None) tf (
      bind_res (master_write tf req) (\<lambda>(tf, cur). EXPECT (cur = int (length req)) (
      bind_res (master_read tf (replicate 7 0)) (\<lambda>(tf, rep, cur). ASSERT (cur = int (length rep)) tf (
      bind_res (valid_crc rep (length rep)) (\<lambda>v.
      Inr (tf, v \<noteq> None \<and> is_rtu_addr tf (rep ! 0) \<and> rep ! 1 = FCODE_WR_BYTES \<and>
        DATA16_TO_WORD (data16_at rep 2) = mem_addr \<and> unat (rep ! 4) = length message)))))))))"

definition read_holding_registers_33 :: "u16 \<Rightarrow> test_fixture \<Rightarrow> (test_fixture \<times> bool) res" where
  "read_holding_registers_33 mem_addr tf =
     (let req = mem_access_bytes \<lparr>acc_addr = rtu_addr_of tf, acc_fcode = FCODE_RD_HOLDING_REGISTERS,
            acc_mem_addr = word_to_modbus_rtu_data16 mem_addr, acc_count = word_to_modbus_rtu_data16 33, acc_crc = no_crc\<rparr> in
      bind_res (implace_crc req (length req)) (\<lambda>(req, r). ASSERT (r \<noteq> None) tf (
      bind_res (master_write tf req) (\<lambda>(tf, cur). EXPECT (cur = int (length req)) (
      bind_res (master_read tf (replicate (3 + 2 * 33 + 2) 0)) (\<lambda>(tf, rep, cur). ASSERT (cur = int (length rep)) tf (
      bind_res (valid_crc rep (length rep)) (\<lambda>v.
      Inr (tf, is_rtu_addr tf (rep ! 0) \<and> rep ! 1 = FCODE_RD_HOLDING_REGISTERS \<and> unat (rep ! 2) = 2 * 33 \<and>
        (is_hw_test tf \<or> list_all (\<lambda>i. rep ! (3 + 2 * i) = 0 \<and> rep ! (4 + 2 * i) = of_nat i) [0..<33]) \<and>
        v \<noteq> None)))))))))"

definition read_wr_register_struct :: "u16 \<Rightarrow> test_fixture \<Rightarrow> (test_fixture \<times> bool) res" where
  "read_wr_register_struct mem_addr tf =
     (let req = wr_register_bytes \<lparr>wreg_addr = rtu_addr_of tf, wreg_fcode = FCODE_WR_REGISTER,
            wreg_mem_addr = word_to_modbus_rtu_data16 (mem_addr + 32),
            wreg_data = \<lparr>d16_high = 0, d16_low = 0xAB\<rparr>, wreg_crc = no_crc\<rparr> in
      bind_res (implace_crc req (length req)) (\<lambda>(req, r). ASSERT (r \<noteq> None) tf (
      bind_res (master_write tf req) (\<lambda>(tf, cur). EXPECT (cur = int (length req)) (
      bind_res (master_read tf (replicate 8 0)) (\<lambda>(tf, rep, cur). ASSERT (cur = int (length rep)) tf (
      bind_res (valid_crc rep (length rep)) (\<lambda>v.
      Inr (tf, is_rtu_addr tf (rep ! 0) \<and> rep ! 1 = FCODE_WR_REGISTER \<and>
        DATA16_TO_WORD (data16_at rep 2) = mem_addr + 32 \<and> data16_at rep 4 = \<lparr>d16_high = 0, d16_low = 0xAB\<rparr> \<and>
        v \<noteq> None)))))))))"

definition read_wr_register_func :: "u16 \<Rightarrow> test_fixture \<Rightarrow> (test_fixture \<times> bool) res" where
  "read_wr_register_func mem_addr tf =
     bind_res (make_request_wr_register (rtu_addr_of tf) (word_to_modbus_rtu_data16 (mem_addr + 50))
       \<lparr>d16_high = 0, d16_low = 0xCD\<rparr> (Some (replicate ADU_CAPACITY 0)) ADU_CAPACITY) (\<lambda>(tx_buf, tx_end).
     bind_res (master_write tf (take (the tx_end) (the tx_buf))) (\<lambda>(tf, cur). EXPECT (cur = int (the tx_end)) (
     bind_res (master_read tf (replicate ADU_CAPACITY 0)) (\<lambda>(tf, rx_buf, cur).
     bind_res (parse_reply_wr_register rx_buf (nat (cur mod 2 ^ 64))) (\<lambda>rep.
     case rep of None \<Rightarrow> Inr (tf, False) | Some rep \<Rightarrow>
     Inr (tf, is_rtu_addr tf (wreg_addr rep) \<and> wreg_fcode rep = FCODE_WR_REGISTER \<and>
       DATA16_TO_WORD (wreg_mem_addr rep) = mem_addr + 50 \<and> wreg_data rep = \<lparr>d16_high = 0, d16_low = 0xCD\<rparr>))))))"

text \<open>Both ways to build a request give the same bytes.\<close>

definition wr_bytes_request :: "bool res" where
  "wr_bytes_request =
     (let reqA = bytes_header_bytes \<lparr>bytes_addr = 0xAB, bytes_fcode = FCODE_WR_BYTES,
            bytes_mem_addr = word_to_modbus_rtu_data16 0x1234, bytes_count = of_nat (length message)\<rparr>
            @ message @ crc_struct_bytes no_crc in
      bind_res (implace_crc reqA (length reqA)) (\<lambda>(reqA, r).
      if r = None then Inr False
      else bind_res (make_request_wr_bytes 0xAB (word_to_modbus_rtu_data16 0x1234) (Some message)
             (of_nat (length message)) (Some (replicate ADU_CAPACITY 0)) ADU_CAPACITY) (\<lambda>(reqB, reqB_end).
           case reqB_end of None \<Rightarrow> Inr False
           | Some n \<Rightarrow> Inr (n = length reqA \<and> reqA = take (length reqA) (the reqB)))))"

text \<open>\<open>usleep\<close> between the two exchanges of a test, its result ignored.\<close>

definition test_usleep :: "os \<Rightarrow> os" where
  "test_usleep w =
     (case calls w of Usleep_ret # cs \<Rightarrow> w\<lparr>calls := cs\<rparr> | Usleep_err e # cs \<Rightarrow> w\<lparr>calls := cs\<rparr> | _ \<Rightarrow> w)"

definition test_master :: "test_fixture \<Rightarrow> rtu_master_impl" where
  "test_master tf = \<lparr>m_dev = tf_master tf, m_rate = tc_rate (tf_config tf), timeout_exec_ms = tc_exec_ms (tf_config tf)\<rparr>"

text \<open>The two tests of \<open>master_impl.c\<close>, for any data; the test has a fixed one.\<close>

definition write_read_bytes :: "u8 list \<Rightarrow> u16 \<Rightarrow> test_fixture \<Rightarrow> (test_fixture \<times> bool) res" where
  "write_read_bytes tx_buf mem_addr tf =
     (let addr = word_to_modbus_rtu_data16 mem_addr; n = of_nat (length tx_buf) in
      bind_res (rtu_master_wr_bytes (test_master tf) (rtu_addr_of tf) addr n (Some tx_buf)) (\<lambda>(impl, tx_end).
      let sent = (tx_end = Some (length tx_buf)); impl = impl\<lparr>m_dev := test_usleep (m_dev impl)\<rparr> in
      bind_res (rtu_master_rd_bytes impl (rtu_addr_of tf) addr n (replicate (length tx_buf) 0)) (\<lambda>(impl, rx_buf, rx_end).
      let tf = tf\<lparr>tf_master := m_dev impl\<rparr> in
      EXPECT sent (ASSERT (rx_end = Some (length rx_buf)) tf (Inr (tf, rx_buf = tx_buf))))))"

definition master_write_read_bytes :: "u16 \<Rightarrow> test_fixture \<Rightarrow> (test_fixture \<times> bool) res" where
  "master_write_read_bytes = write_read_bytes (c_string ''read/write bytes with master_impl'')"

definition write_read_registers :: "modbus_rtu_data16 list \<Rightarrow> u16 \<Rightarrow> test_fixture \<Rightarrow> (test_fixture \<times> bool) res" where
  "write_read_registers tx_data mem_addr tf =
     (let addr = word_to_modbus_rtu_data16 mem_addr; n = word_to_modbus_rtu_data16 (of_nat (length tx_data)) in
      bind_res (rtu_master_wr_registers (test_master tf) (rtu_addr_of tf) addr n (Some tx_data)) (\<lambda>(impl, tx_end).
      let sent = (tx_end = Some (length tx_data)); impl = impl\<lparr>m_dev := test_usleep (m_dev impl)\<rparr> in
      bind_res (rtu_master_rd_holding_registers impl (rtu_addr_of tf) addr n (replicate (2 * length tx_data) 0))
        (\<lambda>(impl, rx_data, rx_end).
      let tf = tf\<lparr>tf_master := m_dev impl\<rparr> in
      EXPECT sent (ASSERT (rx_end = Some (length rx_data)) tf (Inr (tf, rx_data = concat (map data16_bytes tx_data)))))))"

definition master_write_read_holding_registers :: "u16 \<Rightarrow> test_fixture \<Rightarrow> (test_fixture \<times> bool) res" where
  "master_write_read_holding_registers = write_read_registers
     (map word_to_modbus_rtu_data16 [0x0012, 0x0034, 0x0056, 0x0078, 0x009A, 0x00BC, 0x00DE, 0x00F0])"

section \<open>Set-up\<close>

text \<open>The slave's memory: mapped from \<open>mem_addr\<close>, when it does not go round the address space.\<close>

lemma async_run_memory_wf:
  "unat mem_addr + unat mem_size < 65536 \<Longrightarrow> mem_wf (impl_memory (async_run_memory mem_addr mem_size a))"
  by (simp add: async_run_memory_def rtu_memory_impl_init_def mem_wf_def Let_def word_le_nat_alt unat_word_ariths)

text \<open>A set-up that returns is undone by the tear-down: both devices are closed, with all descriptors it opened.\<close>

lemma tty_configure_fd: "tty_configure d r p b st ok c = Inr d' \<Longrightarrow> dev_fd d' = dev_fd d"
  by (auto simp: tty_configure_def Let_def bind_res_Inr_iff)

lemma dev_deinit_ok:
  "dev_fd d \<noteq> - 1 \<longrightarrow> dev_fd d \<in> fds \<Longrightarrow>
    \<exists>d'. dev_deinit d fds = Inr (d', fds - {dev_fd d}) \<and> dev_fd d' = - 1 \<and> dev_path d' = None"
  by (auto simp: dev_deinit_def tty_deinit_def tty_close_def Let_def)

lemma serial_init_fds:
  assumes "serial_init os fd cfg fds = Inr (master, slave, fds')" and "pty_granted os \<longrightarrow> pty_fd os \<noteq> - 1"
  shows "fd \<noteq> - 1 \<and>
    (if tc_dev_path cfg = None
     then dev_fd master = pty_fd os \<and> dev_fd slave = fd \<and> pty_fd os \<noteq> - 1 \<and> fds' = insert fd (insert (pty_fd os) fds)
     else dev_fd master = fd \<and> dev_fd slave = - 1 \<and> fds' = insert fd fds)"
proof (cases "tc_dev_path cfg")
  case None
  then obtain pair fds1 where pair: "tty_pair_create os tty_pair_init (Some ''/dev/ptmx'') fds = Inr (pair, fds1)"
    using assms(1) by (auto simp: serial_init_def bind_res_Inr_iff)
  with None assms(1) tty_pair_create_opened [OF pair assms(2)] show ?thesis
    by (auto simp: serial_init_def bind_res_Inr_iff tty_open_def tty_adopt_def tty_init_def Let_def split: if_split_asm)
next
  case (Some path)
  with assms(1) show ?thesis
    by (auto simp: serial_init_def bind_res_Inr_iff tty_open_def tty_init_def split: if_split_asm)
qed

lemma serial_undone:
  assumes "serial_init os fd cfg fds = Inr (master, slave, fds')" and "pty_granted os \<longrightarrow> pty_fd os \<noteq> - 1"
    and "fd \<notin> fds" and "pty_fd os \<notin> fds" and "fd \<noteq> pty_fd os" and "- 1 \<notin> fds"
    and "serial_config master slave r p = Inr (master', slave')"
  shows "\<exists>m s. serial_deinit master' slave' fds' = Inr (m, s, fds) \<and> dev_fd m = - 1 \<and> dev_fd s = - 1"
proof -
  have fd: "dev_fd master' = dev_fd master" "dev_fd slave' = dev_fd slave"
    using assms(7) tty_configure_fd by (auto simp: serial_config_def Let_def bind_res_Inr_iff)
  note opened = serial_init_fds [OF assms(1,2)]
  have "dev_fd slave' \<noteq> - 1 \<longrightarrow> dev_fd slave' \<in> fds'" using opened fd by (simp split: if_split_asm)
  from dev_deinit_ok [OF this] obtain s where
    s: "dev_deinit slave' fds' = Inr (s, fds' - {dev_fd slave'})" "dev_fd s = - 1" by blast
  have "dev_fd master' \<noteq> - 1 \<longrightarrow> dev_fd master' \<in> fds' - {dev_fd slave'}"
    using opened fd assms(5) by (auto split: if_split_asm)
  from dev_deinit_ok [OF this] obtain m where
    m: "dev_deinit master' (fds' - {dev_fd slave'}) = Inr (m, fds' - {dev_fd slave'} - {dev_fd master'})" "dev_fd m = - 1"
    by blast
  have "fds' - {dev_fd slave'} - {dev_fd master'} = fds"
    using opened fd assms(3-6) by (auto split: if_split_asm)
  with s m show ?thesis by (simp add: serial_deinit_def)
qed

lemma wr_bytes_requests_agree: "wr_bytes_request = Inr True"
proof -
  let ?req = "(0xAB # FCODE_WR_BYTES # be16 0x1234 @ [31]) @ message"
  have len: "length message = 31" by (simp add: message_def c_string_def)
  have adu: "?req @ crc_bytes ?req = adu 0xAB (request_pdu (Wr_bytes 0x1234 message))"
    by (simp add: adu_def request_pdu_def len)
  have a: "implace_crc (?req @ [0, 0]) (length (?req @ [0, 0])) = Inr (?req @ crc_bytes ?req, Some (length ?req + 2))"
    using implace_struct [of ?req] len by simp
  have b: "make_request_wr_bytes 0xAB (word_to_modbus_rtu_data16 0x1234) (Some message) 31
      (Some (replicate ADU_CAPACITY 0)) ADU_CAPACITY
      = Inr (Some (overwrite (replicate ADU_CAPACITY 0) 0 (?req @ crc_bytes ?req)), Some 38)"
    using master_request_wr_bytes [of ADU_CAPACITY "replicate ADU_CAPACITY 0" message "0xAB" "0x1234"]
    by (simp add: request_sent_def ADU_CAPACITY_def len adu_def request_pdu_def)
  have n: "of_nat (length message) = (31 :: u8)" by (simp add: len)
  have "bytes_header_bytes \<lparr>bytes_addr = 0xAB, bytes_fcode = FCODE_WR_BYTES, bytes_mem_addr = word_to_modbus_rtu_data16 0x1234,
      bytes_count = 31\<rparr> @ message @ crc_struct_bytes no_crc = ?req @ [0, 0]" by simp
  with a b show ?thesis
    unfolding wr_bytes_request_def Let_def n by (simp add: overwrite_0 len)
qed

end
