(* ===== verification/Tests_Pass.thy ===== *)
theory Tests_Pass
  imports Linux_Tests
begin

text \<open>
  The tests of \<open>Linux_Tests\<close> pass: each, on a line that brings the slave what the master
  writes and the master what the slave answers. The replies come from the slave of
  \<open>Master_Slave\<close>, in the state \<open>async_run_rtu\<close> puts it in.
\<close>

section \<open>Exchanges of a test\<close>

text \<open>
  The line takes the request at once and delivers the reply in one read; then nothing arrives until
  the time for a full buffer has passed, which the tests that read into one wait for.
\<close>

definition test_line :: "test_fixture \<Rightarrow> u8 list \<Rightarrow> bool" where
  "test_line tf reply =
     (let w = tf_master tf in
      tc_rate (tf_config tf) \<noteq> B0 \<and> 0 \<le> tc_exec_ms (tf_config tf) \<and>
      calls w = [Poll_ret 1 True False, Write_ret 256, Poll_ret 1 True False, Read_ret reply, Poll_ret 0 False False] \<and>
      (case calc_tmax_ms (tc_rate (tf_config tf)) ADU_CAPACITY of Inl e \<Rightarrow> False
       | Inr t \<Rightarrow> t + tc_exec_ms (tf_config tf) < (clock w !! 4 - clock w !! 2) sdiv 1000))"

lemma tty_read_then_silence:
  assumes "calls w = Poll_ret 1 True False # Read_ret bs # Poll_ret 0 r1 r2 # cs" and "bs \<noteq> []" and "length bs < length buf"
    and "0 \<le> timeout" and "timeout < (clock w !! 2 - clock w !! 0) sdiv 1000"
  shows "\<exists>w'. tty_read w buf timeout False = Inr (w', overwrite buf 0 bs, int (length bs), False) \<and> wire w' = wire w"
proof -
  let ?w = "snd (timestamp_us w)"
  let ?v = "snd (timestamp_us (?w\<lparr>calls := Read_ret bs # Poll_ret 0 r1 r2 # cs\<rparr>))"
  have poll: "sys_poll ?w False False = Inr (?w\<lparr>calls := Read_ret bs # Poll_ret 0 r1 r2 # cs\<rparr>, 1, True, False)"
    using assms(1) by (simp add: sys_poll_def)
  have ready: "tty_read_ready ?v buf 0 = Inr (?v\<lparr>calls := Poll_ret 0 r1 r2 # cs\<rparr>, overwrite buf 0 bs, int (length bs))"
    using store_from_ok [of 0 bs buf] assms(2,3) by (simp add: tty_read_ready_def sys_read_def Let_def)
  let ?u = "?v\<lparr>calls := Poll_ret 0 r1 r2 # cs\<rparr>"
  have "tty_read_loop ?u (overwrite buf 0 bs) (int (length bs)) timeout (clock w !! 0) e False True False =
      Inr (if timeout \<ge> e then snd (timestamp_us (?u\<lparr>calls := cs\<rparr>)) else ?u, overwrite buf 0 bs, int (length bs), False)" for e
    using assms(3-5)
    by (simp add: tty_read_loop.simps [of _ _ "int (length bs)"] sys_poll_def Let_def split_beta timestamp_us_def
        numeral_2_eq_2)
  with poll ready show ?thesis
    using assms(3,4)
    by (simp add: tty_read_def Let_def split_beta tty_read_loop.simps [of _ _ 0]) (auto simp: timestamp_us_def)
qed

lemma test_write:
  assumes "test_line tf reply" and "data \<noteq> []" and "length data \<le> 256"
  shows "\<exists>v. master_write tf data = Inr (tf\<lparr>tf_master := v\<rparr>, int (length data)) \<and> wire v = wire (tf_master tf) @ data \<and>
    calls v = [Poll_ret 1 True False, Read_ret reply, Poll_ret 0 False False] \<and> clock v = sdrop 2 (clock (tf_master tf))"
proof -
  obtain t where t: "0 \<le> t" "calc_tmax_ms (tc_rate (tf_config tf)) (length data) = Inr t"
    using tmax_nonneg assms(1) by (auto simp: test_line_def Let_def)
  with tty_write_at_once [of "tf_master tf" 256 "[Poll_ret 1 True False, Read_ret reply, Poll_ret 0 False False]" data t] assms
  show ?thesis by (fastforce simp: master_write_def test_line_def Let_def numeral_2_eq_2)
qed

lemma test_exchange_exact:
  assumes "test_line tf reply" and "data \<noteq> []" and "length data \<le> 256" and "length reply = n" and "0 < n"
  shows "\<exists>v w. master_write tf data = Inr (tf\<lparr>tf_master := v\<rparr>, int (length data)) \<and>
    master_read (tf\<lparr>tf_master := v\<rparr>) (replicate n 0) = Inr (tf\<lparr>tf_master := w\<rparr>, reply, int n) \<and>
    wire w = wire (tf_master tf) @ data"
proof -
  from test_write [OF assms(1-3)] obtain v where
    v: "master_write tf data = Inr (tf\<lparr>tf_master := v\<rparr>, int (length data))" "wire v = wire (tf_master tf) @ data"
      "calls v = Poll_ret 1 True False # Read_ret reply # [Poll_ret 0 False False]" by auto
  obtain t where t: "0 \<le> t" "calc_tmax_ms (tc_rate (tf_config tf)) n = Inr t"
    using tmax_nonneg assms(1) by (auto simp: test_line_def Let_def)
  moreover have "0 \<le> tc_exec_ms (tf_config tf)" using assms(1) by (simp add: test_line_def Let_def)
  ultimately obtain w where
    "tty_read v (replicate n 0) (t + tc_exec_ms (tf_config tf)) False = Inr (w, reply, int n, False)" "wire w = wire v"
    using tty_read_at_once [OF v(3), of "replicate n 0" "t + tc_exec_ms (tf_config tf)"] assms(4,5) by auto
  with v t show ?thesis by (intro exI [of _ v] exI [of _ w]) (simp add: master_read_def)
qed

lemma test_exchange_buffer:
  assumes "test_line tf reply" and "data \<noteq> []" and "length data \<le> 256" and "length reply < 256" and "reply \<noteq> []"
  shows "\<exists>v w. master_write tf data = Inr (tf\<lparr>tf_master := v\<rparr>, int (length data)) \<and>
    master_read (tf\<lparr>tf_master := v\<rparr>) (replicate ADU_CAPACITY 0) =
      Inr (tf\<lparr>tf_master := w\<rparr>, reply @ replicate (256 - length reply) 0, int (length reply)) \<and>
    wire w = wire (tf_master tf) @ data"
proof -
  let ?e = "tc_exec_ms (tf_config tf)"
  from test_write [OF assms(1-3)] obtain v where
    v: "master_write tf data = Inr (tf\<lparr>tf_master := v\<rparr>, int (length data))" "wire v = wire (tf_master tf) @ data"
      "calls v = Poll_ret 1 True False # Read_ret reply # Poll_ret 0 False False # []" "clock v = sdrop 2 (clock (tf_master tf))"
    by auto
  obtain t where t: "0 \<le> t" "calc_tmax_ms (tc_rate (tf_config tf)) ADU_CAPACITY = Inr t"
    using tmax_nonneg assms(1) by (auto simp: test_line_def Let_def)
  have "t + ?e < (clock v !! 2 - clock v !! 0) sdiv 1000" "0 \<le> t + ?e"
    using assms(1) t by (simp_all add: test_line_def Let_def v(4) sdrop_snth)
  with tty_read_then_silence [OF v(3) assms(5), of "replicate ADU_CAPACITY 0" "t + ?e"] assms(4) obtain w where
    "tty_read v (replicate ADU_CAPACITY 0) (t + ?e) False =
      Inr (w, overwrite (replicate ADU_CAPACITY 0) 0 reply, int (length reply), False)" "wire w = wire v"
    by (auto simp: ADU_CAPACITY_def)
  with v t show ?thesis
    by (intro exI [of _ v] exI [of _ w]) (simp add: master_read_def overwrite_0 ADU_CAPACITY_def)
qed

section \<open>The tests pass\<close>

text \<open>The address of the settings is one of the protocol.\<close>

abbreviation addr_ok :: "test_fixture \<Rightarrow> bool" where
  "addr_ok tf \<equiv> 0 \<le> tc_rtu_addr (tf_config tf) \<and> tc_rtu_addr (tf_config tf) < 256"

lemma addr_okD: "addr_ok tf \<Longrightarrow> is_rtu_addr tf (rtu_addr_of tf)"
  by (simp add: uint_word_of_int)

lemma length_message [simp]: "length message = 31"
  by (simp add: message_def c_string_def)

lemma request_built:
  assumes "request_wf q" and "within_limits q" and "length (request_pdu q) \<le> 253"
  shows "master_request a q (Some (replicate ADU_CAPACITY 0)) ADU_CAPACITY =
    Inr (Some (overwrite (replicate ADU_CAPACITY 0) 0 (adu a (request_pdu q))), Some (length (request_pdu q) + 3))"
    and "take (length (request_pdu q) + 3) (overwrite (replicate ADU_CAPACITY 0) 0 (adu a (request_pdu q))) = adu a (request_pdu q)"
  using assms by (simp_all add: master_request_eq request_sent_def ADU_CAPACITY_def overwrite_0)

lemma read_bytes_21_passes:
  assumes "test_line tf (adu a (reply_pdu (Bytes_read mem_addr bs)))" and "a = rtu_addr_of tf" and "addr_ok tf"
    and "bs = map of_nat [0..<21]"
  shows "\<exists>w. read_bytes_21 mem_addr tf = Inr (tf\<lparr>tf_master := w\<rparr>, True) \<and>
    wire w = wire (tf_master tf) @ adu a (request_pdu (Rd_bytes mem_addr 21))"
proof -
  let ?reply = "adu a (reply_pdu (Bytes_read mem_addr bs))" and ?q = "Rd_bytes mem_addr 21"
  have "within_limits ?q" "request_wf ?q" "length (request_pdu ?q) \<le> 253" by (simp_all add: request_pdu_def)
  note req = request_built [OF this(2,1,3), of a]
  have len: "length ?reply = 28" using assms(4) by simp
  have "length ?reply < 256" "?reply \<noteq> []" "adu a (request_pdu ?q) \<noteq> []" "length (adu a (request_pdu ?q)) \<le> 256"
    using len by (auto simp: adu_def request_pdu_def)
  from test_exchange_buffer [OF assms(1) this(3,4,1,2)] obtain v w where
    v: "master_write tf (adu a (request_pdu ?q)) = Inr (tf\<lparr>tf_master := v\<rparr>, int (length (adu a (request_pdu ?q))))"
      "master_read (tf\<lparr>tf_master := v\<rparr>) (replicate ADU_CAPACITY 0) = Inr (tf\<lparr>tf_master := w\<rparr>, ?reply @ replicate (256 - 28) 0, 28)"
      "wire w = wire (tf_master tf) @ adu a (request_pdu ?q)"
    unfolding len by auto
  have "linux_frame_ok (take 28 (?reply @ replicate (256 - 28) 0))" using crc_frame_ok_adu [of a] len by simp
  then have "parse_reply_rd_bytes (?reply @ replicate (256 - 28) 0) 28 =
    Inr (Some \<lparr>rdb_header = \<lparr>bytes_addr = a, bytes_fcode = FCODE_RD_BYTES, bytes_mem_addr = word_to_modbus_rtu_data16 mem_addr,
                bytes_count = 21\<rparr>, rdb_bytes = bs\<rparr>)"
    using assms(4) len by (simp add: parse_reply_rd_bytes_def load_def if_valid_eq adu_def be16_def data16_at_def word_to_modbus_rtu_data16_def)
  with v req addr_okD [OF assms(3)] assms(2,4) show ?thesis
    by (intro exI [of _ w]) (simp add: read_bytes_21_def EXPECT_def list_all_iff)
qed

lemma write_bytes_func_STR_passes:
  assumes "test_line tf (adu a (reply_pdu (Bytes_written mem_addr 31)))" and "a = rtu_addr_of tf" and "addr_ok tf"
  shows "\<exists>w. write_bytes_func_STR mem_addr tf = Inr (tf\<lparr>tf_master := w\<rparr>, True) \<and>
    wire w = wire (tf_master tf) @ adu a (request_pdu (Wr_bytes mem_addr message))"
proof -
  let ?reply = "adu a (reply_pdu (Bytes_written mem_addr 31))" and ?q = "Wr_bytes mem_addr message"
  have "within_limits ?q" "request_wf ?q" "length (request_pdu ?q) \<le> 253" by (simp_all add: request_pdu_def)
  note req = request_built [OF this(2,1,3), of a]
  have len: "length ?reply = 7" by simp
  have "length ?reply < 256" "?reply \<noteq> []" "adu a (request_pdu ?q) \<noteq> []" "length (adu a (request_pdu ?q)) \<le> 256"
    using len by (auto simp: adu_def request_pdu_def)
  from test_exchange_buffer [OF assms(1) this(3,4,1,2)] obtain v w where
    v: "master_write tf (adu a (request_pdu ?q)) = Inr (tf\<lparr>tf_master := v\<rparr>, int (length (adu a (request_pdu ?q))))"
      "master_read (tf\<lparr>tf_master := v\<rparr>) (replicate ADU_CAPACITY 0) = Inr (tf\<lparr>tf_master := w\<rparr>, ?reply @ replicate (256 - 7) 0, 7)"
      "wire w = wire (tf_master tf) @ adu a (request_pdu ?q)"
    unfolding len by auto
  have "linux_frame_ok (take 7 (?reply @ replicate (256 - 7) 0))" using crc_frame_ok_adu [of a] len by simp
  then have "\<exists>c. parse_reply_wr_bytes (?reply @ replicate (256 - 7) 0) 7 =
    Inr (Some \<lparr>bytes_addr = a, bytes_fcode = FCODE_WR_BYTES, bytes_mem_addr = word_to_modbus_rtu_data16 mem_addr,
      bytes_count = 31, bytes_crc = c\<rparr>)"
    using len by (simp add: parse_reply_wr_bytes_def if_valid_eq adu_def be16_def data16_at_def word_to_modbus_rtu_data16_def)
  with v req addr_okD [OF assms(3)] assms(2) show ?thesis
    by (intro exI [of _ w]) (auto simp: write_bytes_func_STR_def EXPECT_def)
qed

lemma read_wr_register_func_passes:
  assumes "test_line tf (adu a (reply_pdu (Register_written (mem_addr + 50) 0xCD)))" and "a = rtu_addr_of tf" and "addr_ok tf"
  shows "\<exists>w. read_wr_register_func mem_addr tf = Inr (tf\<lparr>tf_master := w\<rparr>, True) \<and>
    wire w = wire (tf_master tf) @ adu a (request_pdu (Wr_register (mem_addr + 50) 0xCD))"
proof -
  let ?reply = "adu a (reply_pdu (Register_written (mem_addr + 50) 0xCD))" and ?q = "Wr_register (mem_addr + 50) 0xCD"
  have "within_limits ?q" "request_wf ?q" "length (request_pdu ?q) \<le> 253" by (simp_all add: request_pdu_def)
  note req = request_built [OF this(2,1,3), of a]
  have data: "word_to_modbus_rtu_data16 0xCD = \<lparr>d16_high = 0, d16_low = 0xCD\<rparr>"
    by (simp add: word_to_modbus_rtu_data16_def HIGH_BYTE_def LOW_BYTE_def)
  have len: "length ?reply = 8" by simp
  have "length ?reply < 256" "?reply \<noteq> []" "adu a (request_pdu ?q) \<noteq> []" "length (adu a (request_pdu ?q)) \<le> 256"
    using len by (auto simp: adu_def request_pdu_def)
  from test_exchange_buffer [OF assms(1) this(3,4,1,2)] obtain v w where
    v: "master_write tf (adu a (request_pdu ?q)) = Inr (tf\<lparr>tf_master := v\<rparr>, int (length (adu a (request_pdu ?q))))"
      "master_read (tf\<lparr>tf_master := v\<rparr>) (replicate ADU_CAPACITY 0) = Inr (tf\<lparr>tf_master := w\<rparr>, ?reply @ replicate (256 - 8) 0, 8)"
      "wire w = wire (tf_master tf) @ adu a (request_pdu ?q)"
    unfolding len by auto
  have "linux_frame_ok (take 8 (?reply @ replicate (256 - 8) 0))" using crc_frame_ok_adu [of a] len by simp
  then have "\<exists>c. parse_reply_wr_register (?reply @ replicate (256 - 8) 0) 8 =
    Inr (Some \<lparr>wreg_addr = a, wreg_fcode = FCODE_WR_REGISTER, wreg_mem_addr = word_to_modbus_rtu_data16 (mem_addr + 50),
      wreg_data = word_to_modbus_rtu_data16 0xCD, wreg_crc = c\<rparr>)"
    using len by (simp add: parse_reply_wr_register_def if_valid_eq adu_def be16_def data16_at_def word_to_modbus_rtu_data16_def)
  with v req addr_okD [OF assms(3)] assms(2) show ?thesis
    by (intro exI [of _ w]) (auto simp: read_wr_register_func_def EXPECT_def data)
qed

text \<open>The tests that fill in a struct read exactly the reply.\<close>

lemma struct_exchange:
  assumes "test_line tf (adu a pdu)" and "length pdu + 3 = n" and "length req < 254" and "req \<noteq> []"
  shows "\<exists>v w. implace_crc (req @ [0, 0]) (length req + 2) = Inr (req @ crc_bytes req, Some (length req + 2)) \<and>
    master_write tf (req @ crc_bytes req) = Inr (tf\<lparr>tf_master := v\<rparr>, int (length req + 2)) \<and>
    master_read (tf\<lparr>tf_master := v\<rparr>) (replicate n 0) = Inr (tf\<lparr>tf_master := w\<rparr>, adu a pdu, int n) \<and>
    valid_crc (adu a pdu) n = Inr (Some (n - 2)) \<and> wire w = wire (tf_master tf) @ req @ crc_bytes req"
proof -
  have "valid_crc (adu a pdu) n = Inr (Some (n - 2))"
    using assms(2) crc_frame_ok_adu by (subst valid_crc_eq) auto
  moreover have "length (adu a pdu) = n" "0 < n" using assms(2) by simp_all
  ultimately show ?thesis
    using test_exchange_exact [OF assms(1), of "req @ crc_bytes req" n] implace_struct [of req] assms(3,4) by auto
qed

lemma write_bytes_struct_STR_passes:
  assumes "test_line tf (adu a (reply_pdu (Bytes_written mem_addr 31)))" and "a = rtu_addr_of tf" and "addr_ok tf"
  shows "\<exists>w. write_bytes_struct_STR mem_addr tf = Inr (tf\<lparr>tf_master := w\<rparr>, True) \<and>
    wire w = wire (tf_master tf) @ adu a (request_pdu (Wr_bytes mem_addr message))"
proof -
  let ?req = "(a # FCODE_WR_BYTES # be16 mem_addr @ [31]) @ message"
  have n: "of_nat (length message) = (31 :: u8)" by simp
  have "length (reply_pdu (Bytes_written mem_addr 31)) + 3 = 7" "length ?req < 254" "?req \<noteq> []" by simp_all
  from struct_exchange [OF assms(1) this] obtain v w where
    v: "implace_crc (?req @ [0, 0]) (length ?req + 2) = Inr (?req @ crc_bytes ?req, Some (length ?req + 2))"
      "master_write tf (?req @ crc_bytes ?req) = Inr (tf\<lparr>tf_master := v\<rparr>, int (length ?req + 2))"
      "master_read (tf\<lparr>tf_master := v\<rparr>) (replicate 7 0) = Inr (tf\<lparr>tf_master := w\<rparr>, adu a (reply_pdu (Bytes_written mem_addr 31)), int 7)"
      "valid_crc (adu a (reply_pdu (Bytes_written mem_addr 31))) 7 = Inr (Some (7 - 2))"
      "wire w = wire (tf_master tf) @ ?req @ crc_bytes ?req"
    by blast
  have "?req @ crc_bytes ?req = adu a (request_pdu (Wr_bytes mem_addr message))" by (simp add: adu_def request_pdu_def)
  with v addr_okD [OF assms(3)] assms(2) show ?thesis
    by (intro exI [of _ w])
      (simp add: write_bytes_struct_STR_def EXPECT_def ASSERT_def n, simp add: request_pdu_def adu_def be16_def data16_at_def DATA16_TO_WORD_def)
qed

lemma read_wr_register_struct_passes:
  assumes "test_line tf (adu a (reply_pdu (Register_written (mem_addr + 32) 0xAB)))" and "a = rtu_addr_of tf" and "addr_ok tf"
  shows "\<exists>w. read_wr_register_struct mem_addr tf = Inr (tf\<lparr>tf_master := w\<rparr>, True) \<and>
    wire w = wire (tf_master tf) @ adu a (request_pdu (Wr_register (mem_addr + 32) 0xAB))"
proof -
  let ?req = "a # FCODE_WR_REGISTER # be16 (mem_addr + 32) @ be16 0xAB"
  let ?reply = "reply_pdu (Register_written (mem_addr + 32) 0xAB)"
  have data: "\<lparr>d16_high = 0, d16_low = 0xAB\<rparr> = word_to_modbus_rtu_data16 0xAB"
    by (simp add: word_to_modbus_rtu_data16_def HIGH_BYTE_def LOW_BYTE_def)
  have "length ?reply + 3 = 8" "length ?req < 254" "?req \<noteq> []" by simp_all
  from struct_exchange [OF assms(1) this] obtain v w where
    v: "implace_crc (?req @ [0, 0]) (length ?req + 2) = Inr (?req @ crc_bytes ?req, Some (length ?req + 2))"
      "master_write tf (?req @ crc_bytes ?req) = Inr (tf\<lparr>tf_master := v\<rparr>, int (length ?req + 2))"
      "master_read (tf\<lparr>tf_master := v\<rparr>) (replicate 8 0) = Inr (tf\<lparr>tf_master := w\<rparr>, adu a ?reply, int 8)"
      "valid_crc (adu a ?reply) 8 = Inr (Some (8 - 2))"
      "wire w = wire (tf_master tf) @ ?req @ crc_bytes ?req"
    by blast
  have "data16_at (adu a ?reply) 2 = word_to_modbus_rtu_data16 (mem_addr + 32)"
      "data16_at (adu a ?reply) 4 = word_to_modbus_rtu_data16 0xAB"
      "adu a ?reply ! 0 = a" "adu a ?reply ! 1 = FCODE_WR_REGISTER"
    by (simp_all add: adu_def be16_def data16_at_def word_to_modbus_rtu_data16_def)
  moreover have "?req @ crc_bytes ?req = adu a (request_pdu (Wr_register (mem_addr + 32) 0xAB))"
    by (simp add: adu_def request_pdu_def)
  ultimately show ?thesis
    using v addr_okD [OF assms(3)] unfolding assms(2)
    by (intro exI [of _ w]) (simp add: read_wr_register_struct_def EXPECT_def ASSERT_def data, simp add: request_pdu_def)
qed

lemma nth_registers:
  assumes "i < length vs"
  shows "concat (map (\<lambda>v. [0, v]) vs) ! (2 * i) = 0 \<and> concat (map (\<lambda>v. [0, v]) vs) ! Suc (2 * i) = (vs ! i :: u8)"
  using assms
proof (induction vs arbitrary: i)
  case (Cons v vs)
  then show ?case by (cases i) simp_all
qed simp

lemma read_holding_registers_33_passes:
  assumes "test_line tf (adu a (reply_pdu (Registers vs)))" and "a = rtu_addr_of tf" and "addr_ok tf"
    and "vs = map of_nat [0..<33]"
  shows "\<exists>w. read_holding_registers_33 mem_addr tf = Inr (tf\<lparr>tf_master := w\<rparr>, True) \<and>
    wire w = wire (tf_master tf) @ adu a (request_pdu (Rd_registers mem_addr 33))"
proof -
  let ?req = "a # FCODE_RD_HOLDING_REGISTERS # be16 mem_addr @ be16 33" and ?reply = "reply_pdu (Registers vs)"
  have vs: "length vs = 33" using assms(4) by simp
  then have "length ?reply + 3 = 3 + 2 * 33 + 2" by (simp add: length_registers)
  moreover have "length ?req < 254" "?req \<noteq> []" by simp_all
  ultimately obtain v w where
    v: "implace_crc (?req @ [0, 0]) (length ?req + 2) = Inr (?req @ crc_bytes ?req, Some (length ?req + 2))"
      "master_write tf (?req @ crc_bytes ?req) = Inr (tf\<lparr>tf_master := v\<rparr>, int (length ?req + 2))"
      "master_read (tf\<lparr>tf_master := v\<rparr>) (replicate (3 + 2 * 33 + 2) 0) =
        Inr (tf\<lparr>tf_master := w\<rparr>, adu a ?reply, int (3 + 2 * 33 + 2))"
      "valid_crc (adu a ?reply) (3 + 2 * 33 + 2) = Inr (Some (3 + 2 * 33 + 2 - 2))"
      "wire w = wire (tf_master tf) @ ?req @ crc_bytes ?req"
    using struct_exchange [OF assms(1), of "3 + 2 * 33 + 2" ?req] by blast
  have "adu a ?reply ! 0 = a" "adu a ?reply ! 1 = FCODE_RD_HOLDING_REGISTERS" "adu a ?reply ! 2 = 66"
    by (simp_all add: adu_def vs)
  moreover have "adu a ?reply ! (3 + 2 * i) = 0 \<and> adu a ?reply ! (4 + 2 * i) = of_nat i" if "i < 33" for i
  proof -
    have "vs ! i = of_nat i" using assms(4) that by simp
    with nth_registers [of i vs] that vs show ?thesis
      by (simp add: adu_def nth_append length_registers numeral_3_eq_3)
  qed
  moreover have "?req @ crc_bytes ?req = adu a (request_pdu (Rd_registers mem_addr 33))"
    by (simp add: adu_def request_pdu_def)
  moreover have "length (adu a ?reply) = 71" by (simp add: length_registers vs)
  ultimately show ?thesis
    using v addr_okD [OF assms(3)] unfolding assms(2)
    by (intro exI [of _ w])
      (simp add: read_holding_registers_33_def EXPECT_def ASSERT_def list_all_iff del: reply_pdu.simps, simp add: request_pdu_def)
qed

section \<open>Against the slave\<close>

text \<open>The pattern of \<open>async_run_rtu\<close> in a memory with room for the tests.\<close>

definition test_memory :: "rtu_memory \<Rightarrow> bool" where
  "test_memory m \<longleftrightarrow> 51 \<le> length (mem_bytes m) \<and> mem_bytes m = map of_nat [0..<length (mem_bytes m)]"

text \<open>The tests of one exchange, each with the request it sends.\<close>

definition exchange_tests :: "u16 \<Rightarrow> ((test_fixture \<Rightarrow> (test_fixture \<times> bool) res) \<times> request) list" where
  "exchange_tests mem_addr =
     [(read_bytes_21 mem_addr, Rd_bytes mem_addr 21), (write_bytes_func_STR mem_addr, Wr_bytes mem_addr message),
      (write_bytes_struct_STR mem_addr, Wr_bytes mem_addr message),
      (read_holding_registers_33 mem_addr, Rd_registers mem_addr 33),
      (read_wr_register_struct mem_addr, Wr_register (mem_addr + 32) 0xAB),
      (read_wr_register_func mem_addr, Wr_register (mem_addr + 50) 0xCD)]"

lemma test_memory_window:
  assumes "mem_wf m" and "test_memory m" and "k \<le> 51"
  shows "unat (addr_begin m) + k \<le> unat (addr_end m)"
    and "k < 51 \<Longrightarrow> unat (addr_begin m + of_nat k) = unat (addr_begin m) + k"
    and "read_run (mem_abs m) (addr_begin m) k = map of_nat [0..<k]"
proof -
  have len: "unat (addr_begin m) + length (mem_bytes m) = unat (addr_end m)"
    using assms(1) by (simp add: mem_wf_def word_le_nat_alt)
  then show fits: "unat (addr_begin m) + k \<le> unat (addr_end m)" using assms(2,3) by (simp add: test_memory_def)
  have "unat (addr_end m) < 65536" using unsigned_less [of "addr_end m", where ?'a = nat] by simp
  with fits have "unat (addr_begin m) + k < 65536" by linarith
  then show "unat (addr_begin m + of_nat k) = unat (addr_begin m) + k" if "k < 51"
    using that by (simp add: unat_word_ariths unsigned_of_nat take_bit_eq_mod)
  have "mem_abs m (i + unat (addr_begin m)) = Some (of_nat i)" if "i < k" for i
  proof -
    have "i < length (mem_bytes m)" using that assms(2,3) by (simp add: test_memory_def)
    then have "mem_bytes m ! i = of_nat i"
      using assms(2) unfolding test_memory_def by (metis add_0 diff_zero length_map length_upt nth_map nth_upt)
    with that fits show ?thesis by (simp add: mem_abs_def)
  qed
  then show "read_run (mem_abs m) (addr_begin m) k = map of_nat [0..<k]"
    by (auto simp: read_run_def add.commute [of _ "unat (addr_begin m)"] intro!: nth_equalityI)
qed

lemma serve_wr_register:
  assumes "addr_begin m \<le> y" and "y < addr_end m" and "HIGH_BYTE w = 0"
  shows "snd (serve (mem_abs m) (Wr_register y w)) = Register_written y w"
  using assms by (simp add: mem_abs_def word_le_nat_alt word_less_nat_alt)

lemma wr_register_served:
  assumes "mem_wf m" and "test_memory m" and "k < 51" and "HIGH_BYTE w = 0"
  shows "write_in_window m (Wr_register (addr_begin m + of_nat k) w) \<and>
    snd (serve (mem_abs m) (Wr_register (addr_begin m + of_nat k) w)) = Register_written (addr_begin m + of_nat k) w"
proof -
  have "unat (addr_begin m + of_nat k) = unat (addr_begin m) + k" "unat (addr_begin m) + Suc k \<le> unat (addr_end m)"
    using test_memory_window [OF assms(1,2), of "Suc k"] test_memory_window(2) [OF assms(1,2), of k] assms(3) by simp_all
  then have "addr_begin m \<le> addr_begin m + of_nat k" "addr_begin m + of_nat k < addr_end m"
    by (simp_all add: word_le_nat_alt word_less_nat_alt)
  with serve_wr_register [OF this assms(4)] show ?thesis by simp
qed

lemma exchange_tests_served:
  assumes "mem_wf m" and "test_memory m"
  shows "write_in_window m (Wr_bytes (addr_begin m) message)"
    and "snd (serve (mem_abs m) (Rd_bytes (addr_begin m) 21)) = Bytes_read (addr_begin m) (map of_nat [0..<21])"
    and "snd (serve (mem_abs m) (Rd_registers (addr_begin m) 33)) = Registers (map of_nat [0..<33])"
    and "snd (serve (mem_abs m) (Wr_bytes (addr_begin m) message)) = Bytes_written (addr_begin m) 31"
  using serve_rd_bytes [OF assms(1), of "addr_begin m" 21] serve_rd_registers [OF assms(1), of "addr_begin m" 33]
    serve_wr_bytes [OF assms(1), of "addr_begin m" message] test_memory_window [OF assms, of 21]
    test_memory_window [OF assms, of 33] test_memory_window [OF assms, of 31]
  by (auto simp del: serve.simps) (auto simp: message_def c_string_def)

lemma exchange_tests_wf:
  "(test, q) \<in> set (exchange_tests y) \<Longrightarrow> request_wf q \<and> length (request_pdu q) \<le> 253"
  by (auto simp: exchange_tests_def request_pdu_def)

lemma exchange_test_cases:
  assumes "(test, q) \<in> set (exchange_tests y)"
  obtains "test = read_bytes_21 y" "q = Rd_bytes y 21" | "test = write_bytes_func_STR y" "q = Wr_bytes y message"
    | "test = write_bytes_struct_STR y" "q = Wr_bytes y message"
    | "test = read_holding_registers_33 y" "q = Rd_registers y 33"
    | "test = read_wr_register_struct y" "q = Wr_register (y + of_nat 32) 0xAB"
    | "test = read_wr_register_func y" "q = Wr_register (y + of_nat 50) 0xCD"
  using assms by (auto simp: exchange_tests_def)

text \<open>
  C24: each test of one exchange passes on a line that brings the slave what the master writes
  and the master what the slave answers.
\<close>

theorem suite_exchanges_pass:
  assumes "serving (rtu_addr_of tf) m s" and "test_memory m" and "addr_ok tf"
    and "(test, q) \<in> set (exchange_tests (addr_begin m))"
    and "replies s (adu (rtu_addr_of tf) (request_pdu q)) reply s'" and "test_line tf reply"
  shows "\<exists>w. test tf = Inr (tf\<lparr>tf_master := w\<rparr>, True) \<and>
    wire w = wire (tf_master tf) @ adu (rtu_addr_of tf) (request_pdu q)"
proof -
  let ?y = "addr_begin m"
  have wf: "mem_wf m" using assms(1) by (simp add: serving_def)
  note served = exchange_tests_served [OF wf assms(2)]
  note reg = wr_register_served [OF wf assms(2)]
  have reply: "reply = adu (rtu_addr_of tf) (reply_pdu (snd (serve (mem_abs m) q)))" if "write_in_window m q"
    using serving_replies [OF assms(1,5)] exchange_tests_wf [OF assms(4)] that by blast
  show ?thesis
    using assms(4)
  proof (cases rule: exchange_test_cases)
    case 1
    with reply served(2) read_bytes_21_passes [OF _ refl assms(3) refl, of ?y] assms(6) show ?thesis
      by (simp del: serve.simps reply_pdu.simps)
  next
    case 2
    with reply served(1,4) write_bytes_func_STR_passes [OF _ refl assms(3), of ?y] assms(6) show ?thesis
      by (simp del: serve.simps reply_pdu.simps write_in_window.simps)
  next
    case 3
    with reply served(1,4) write_bytes_struct_STR_passes [OF _ refl assms(3), of ?y] assms(6) show ?thesis
      by (simp del: serve.simps reply_pdu.simps write_in_window.simps)
  next
    case 4
    with reply served(3) read_holding_registers_33_passes [OF _ refl assms(3) refl] assms(6) show ?thesis
      by (simp del: serve.simps reply_pdu.simps)
  next
    case 5
    with reply reg [of 32 "0xAB"] read_wr_register_struct_passes [OF _ refl assms(3), of ?y] assms(6) show ?thesis
      by (simp add: HIGH_BYTE_def del: serve.simps reply_pdu.simps write_in_window.simps)
  next
    case 6
    with reply reg [of 50 "0xCD"] read_wr_register_func_passes [OF _ refl assms(3), of ?y] assms(6) show ?thesis
      by (simp add: HIGH_BYTE_def del: serve.simps reply_pdu.simps write_in_window.simps)
  qed
qed

section \<open>What was written is read back\<close>

text \<open>A line for two exchanges, with the pause of the test between them.\<close>

definition two_exchanges :: "test_fixture \<Rightarrow> u8 list \<Rightarrow> u8 list \<Rightarrow> bool" where
  "two_exchanges tf reply reply' =
     (tc_rate (tf_config tf) \<noteq> B0 \<and> 0 \<le> tc_exec_ms (tf_config tf) \<and>
      calls (tf_master tf) =
        [Poll_ret 1 True False, Write_ret 256, Poll_ret 1 True False, Read_ret reply, Usleep_ret,
         Poll_ret 1 True False, Write_ret 256, Poll_ret 1 True False, Read_ret reply'])"

lemma first_exchange: "two_exchanges tf reply reply' \<Longrightarrow> exchange (test_master tf) reply
   [Usleep_ret, Poll_ret 1 True False, Write_ret 256, Poll_ret 1 True False, Read_ret reply']"
  by (simp add: two_exchanges_def exchange_def test_master_def)

lemma second_exchange:
  "two_exchanges tf reply reply' \<Longrightarrow>
    calls w = [Usleep_ret, Poll_ret 1 True False, Write_ret 256, Poll_ret 1 True False, Read_ret reply'] \<Longrightarrow>
    exchange ((test_master tf)\<lparr>m_dev := test_usleep w\<rparr>) reply' [] \<and> wire (test_usleep w) = wire w"
  by (simp add: two_exchanges_def exchange_def test_master_def test_usleep_def)

lemma write_run_apply:
  "write_run \<sigma> a vs i = (if a \<le> i \<and> i < a + length vs then Some (vs ! (i - a)) else \<sigma> i)"
proof (induction vs arbitrary: \<sigma> a)
  case (Cons v vs)
  show ?case by (auto simp: Cons.IH nth_Cons')
qed auto

lemma read_run_write_run: "read_run (write_run \<sigma> (unat y) vs) y (length vs) = vs"
  by (auto simp: read_run_def write_run_apply intro!: nth_equalityI)

text \<open>
  C23: what the test writes to a slave with \<open>rtu_master_wr_bytes\<close> it reads back with
  \<open>rtu_master_rd_bytes\<close>, for any data that fits the slave's memory, when the slave has had
  the silence after its reply that it needs to restart.
\<close>

theorem write_then_read_bytes:
  assumes "serving (rtu_addr_of tf) m s" and "calls (dev (user_data s)) = Poll_ret 1 True False # Write_ret k # Drain_ret # cs"
    and "takes_reply cs" and "addr_begin m \<le> y" and "unat y + length bs \<le> unat (addr_end m)"
    and "bs \<noteq> []" and "length bs \<le> 249"
    and "replies s (adu (rtu_addr_of tf) (request_pdu (Wr_bytes y bs))) reply s1"
    and "exec_all linux_platform [Timeout, Event] s1 = Inr s2"
    and "replies s2 (adu (rtu_addr_of tf) (request_pdu (Rd_bytes y (of_nat (length bs))))) reply' s3"
    and "two_exchanges tf reply reply'"
  shows "\<exists>w. write_read_bytes bs y tf = Inr (tf\<lparr>tf_master := w\<rparr>, True) \<and>
    wire w = wire (tf_master tf) @ adu (rtu_addr_of tf) (request_pdu (Wr_bytes y bs)) @
      adu (rtu_addr_of tf) (request_pdu (Rd_bytes y (of_nat (length bs))))"
proof -
  let ?a = "rtu_addr_of tf" and ?q = "Wr_bytes y bs" and ?n = "of_nat (length bs) :: u8"
  let ?r = "Rd_bytes y ?n"
  have n: "unat ?n = length bs" "0 < ?n" "?n \<le> 249"
    using assms(6,7) by (simp_all add: unsigned_of_nat take_bit_eq_mod word_less_nat_alt word_le_nat_alt)
  have wf: "mem_wf m" using assms(1) by (simp add: serving_def)
  have q: "request_wf ?q" "write_in_window m ?q" "length (request_pdu ?q) \<le> 253"
    using assms(4,5,7) by (simp_all add: request_pdu_def)
  note srv = serve_wr_bytes [OF wf assms(4-7)]
  have reply: "reply = adu ?a (reply_pdu (Bytes_written y (length bs)))"
    using serving_replies [OF assms(1,8) q] by (simp only: srv snd_conv)
  from serving_again [OF assms(1,8,2,3) q] assms(9) obtain m' where
    m': "serving ?a m' s2" "mem_abs m' = write_run (mem_abs m) (unat y) bs" "same_shape m m'"
    by (auto simp only: srv fst_conv sum.inject)
  then have "snd (serve (mem_abs m') ?r) = Bytes_read y bs"
    using serve_rd_bytes [of m' y ?n] assms(4,5) n read_run_write_run [of "mem_abs m" y bs]
    by (auto simp: serving_def same_shape_def simp del: serve.simps)
  then have reply': "reply' = adu ?a (reply_pdu (Bytes_read y bs))"
    using serving_replies [OF m'(1) assms(10)] by (simp add: request_pdu_def del: serve.simps)
  have "exchange (test_master tf) (adu ?a (reply_pdu (Bytes_written y (length bs))))
      [Usleep_ret, Poll_ret 1 True False, Write_ret 256, Poll_ret 1 True False, Read_ret reply']"
    using first_exchange [OF assms(11)] by (simp only: reply)
  from wr_bytes_exchange [OF this assms(7), where y = y] obtain v where
    v: "rtu_master_wr_bytes (test_master tf) ?a (word_to_modbus_rtu_data16 y) ?n (Some bs) =
        Inr ((test_master tf)\<lparr>m_dev := v\<rparr>, Some (length bs))"
      "wire v = wire (tf_master tf) @ adu ?a (request_pdu ?q)"
      "calls v = [Usleep_ret, Poll_ret 1 True False, Write_ret 256, Poll_ret 1 True False, Read_ret reply']"
    by (auto simp: test_master_def)
  note second = second_exchange [OF assms(11) v(3), unfolded reply']
  from rd_bytes_exchange [OF conjunct1 [OF second] assms(7) _ n(1), where buf = "replicate (length bs) 0" and y = y] obtain w where
    w: "rtu_master_rd_bytes ((test_master tf)\<lparr>m_dev := test_usleep v\<rparr>) ?a (word_to_modbus_rtu_data16 y) ?n
          (replicate (length bs) 0) =
        Inr ((test_master tf)\<lparr>m_dev := w\<rparr>, overwrite (replicate (length bs) 0) 0 bs, Some (length bs))"
      "wire w = wire (test_usleep v) @ adu ?a (request_pdu ?r)"
    by auto
  with v conjunct2 [OF second] show ?thesis
    by (intro exI [of _ w]) (simp add: write_read_bytes_def Let_def EXPECT_def ASSERT_def overwrite_0)
qed

text \<open>The same for registers whose high half is zero, as in the test.\<close>

lemma registers_bytes:
  "list_all (\<lambda>w. HIGH_BYTE w = 0) ws \<Longrightarrow>
    concat (map (\<lambda>v. [0, v]) (map LOW_BYTE ws)) = concat (map data16_bytes (map word_to_modbus_rtu_data16 ws))"
  by (induction ws) (simp_all add: word_to_modbus_rtu_data16_def)

lemma write_then_read_registers:
  assumes "serving (rtu_addr_of tf) m s" and "calls (dev (user_data s)) = Poll_ret 1 True False # Write_ret k # Drain_ret # cs"
    and "takes_reply cs" and "addr_begin m \<le> y" and "unat y + length ws \<le> unat (addr_end m)"
    and "ws \<noteq> []" and "length ws \<le> 123" and "list_all (\<lambda>w. HIGH_BYTE w = 0) ws"
    and "replies s (adu (rtu_addr_of tf) (request_pdu (Wr_registers y ws))) reply s1"
    and "exec_all linux_platform [Timeout, Event] s1 = Inr s2"
    and "replies s2 (adu (rtu_addr_of tf) (request_pdu (Rd_registers y (of_nat (length ws))))) reply' s3"
    and "two_exchanges tf reply reply'"
  shows "\<exists>w. write_read_registers (map word_to_modbus_rtu_data16 ws) y tf = Inr (tf\<lparr>tf_master := w\<rparr>, True) \<and>
    wire w = wire (tf_master tf) @ adu (rtu_addr_of tf) (request_pdu (Wr_registers y ws)) @
      adu (rtu_addr_of tf) (request_pdu (Rd_registers y (of_nat (length ws))))"
proof -
  let ?a = "rtu_addr_of tf" and ?q = "Wr_registers y ws" and ?n = "of_nat (length ws) :: u16"
  let ?r = "Rd_registers y ?n" and ?bs = "map LOW_BYTE ws"
  let ?buf = "replicate (2 * length ws) (0 :: u8)"
  have n: "unat ?n = length ws" "0 < ?n" "?n \<le> 125"
    using assms(6,7) by (simp_all add: unsigned_of_nat take_bit_eq_mod word_less_nat_alt word_le_nat_alt)
  have wf: "mem_wf m" using assms(1) by (simp add: serving_def)
  have q: "request_wf ?q" "write_in_window m ?q" "length (request_pdu ?q) \<le> 253"
    using assms(4,5,7,8) by (simp_all add: request_pdu_def length_concat_be16)
  note srv = serve_wr_registers [OF wf assms(4-8)]
  have reply: "reply = adu ?a (reply_pdu (Registers_written y (length ws)))"
    using serving_replies [OF assms(1,9) q] by (simp only: srv snd_conv)
  from serving_again [OF assms(1,9,2,3) q] assms(10) obtain m' where
    m': "serving ?a m' s2" "mem_abs m' = write_run (mem_abs m) (unat y) ?bs" "same_shape m m'"
    by (auto simp only: srv fst_conv sum.inject)
  then have "snd (serve (mem_abs m') ?r) = Registers ?bs"
    using serve_rd_registers [of m' y ?n] assms(4,5) n read_run_write_run [of "mem_abs m" y ?bs]
    by (auto simp: serving_def same_shape_def simp del: serve.simps)
  then have reply': "reply' = adu ?a (reply_pdu (Registers ?bs))"
    using serving_replies [OF m'(1) assms(11)] by (simp add: request_pdu_def del: serve.simps)
  have "exchange (test_master tf) (adu ?a (reply_pdu (Registers_written y (length ws))))
      [Usleep_ret, Poll_ret 1 True False, Write_ret 256, Poll_ret 1 True False, Read_ret reply']"
    using first_exchange [OF assms(12)] by (simp only: reply)
  from wr_registers_exchange [OF this assms(7), where y = y] obtain v where
    v: "rtu_master_wr_registers (test_master tf) ?a (word_to_modbus_rtu_data16 y) (word_to_modbus_rtu_data16 ?n)
          (Some (map word_to_modbus_rtu_data16 ws)) = Inr ((test_master tf)\<lparr>m_dev := v\<rparr>, Some (length ws))"
      "wire v = wire (tf_master tf) @ adu ?a (request_pdu ?q)"
      "calls v = [Usleep_ret, Poll_ret 1 True False, Write_ret 256, Poll_ret 1 True False, Read_ret reply']"
    by (auto simp: test_master_def)
  note second = second_exchange [OF assms(12) v(3), unfolded reply']
  have "length ?bs \<le> 125" "2 * length ?bs \<le> length ?buf" "unat ?n = length ?bs" using assms(7) n(1) by simp_all
  from rd_registers_exchange [OF conjunct1 [OF second] this, where y = y] obtain w where
    w: "rtu_master_rd_holding_registers ((test_master tf)\<lparr>m_dev := test_usleep v\<rparr>) ?a (word_to_modbus_rtu_data16 y)
          (word_to_modbus_rtu_data16 ?n) ?buf =
        Inr ((test_master tf)\<lparr>m_dev := w\<rparr>, overwrite ?buf 0 (concat (map (\<lambda>v. [0, v]) ?bs)), Some (2 * length ws))"
      "wire w = wire (test_usleep v) @ adu ?a (request_pdu ?r)"
    by auto
  have "overwrite ?buf 0 (concat (map (\<lambda>v. [0, v]) ?bs)) = concat (map data16_bytes (map word_to_modbus_rtu_data16 ws))"
    using registers_bytes [OF assms(8)] length_registers [of ?bs] by (simp only: overwrite_0) simp
  moreover have "length (concat (map data16_bytes (map word_to_modbus_rtu_data16 ws))) = 2 * length ws"
    by (simp only: registers_bytes [OF assms(8), symmetric] length_registers length_map)
  ultimately show ?thesis
    using v w conjunct2 [OF second]
    by (intro exI [of _ w]) (simp add: write_read_registers_def Let_def EXPECT_def ASSERT_def)
qed

text \<open>The data of the two tests is within these limits.\<close>

lemma test_data:
  "length (c_string ''read/write bytes with master_impl'') = 34"
  "list_all (\<lambda>w. HIGH_BYTE w = 0) [0x0012, 0x0034, 0x0056, 0x0078, 0x009A, 0x00BC, 0x00DE, 0x00F0]"
  by (simp_all add: c_string_def HIGH_BYTE_def)

section \<open>Instances\<close>

text \<open>The slave and the fixture with the settings of the tests, and 64 bytes of memory at 0x1000.\<close>

lemma async_run_test_memory: "test_memory (impl_memory (async_run_memory mem_addr mem_size a)) \<longleftrightarrow> 51 \<le> unat mem_size"
  by (simp add: test_memory_def async_run_memory_def Let_def)

definition demo_test_slave :: "syscall list \<Rightarrow> rtu_impl modbus_rtu_state" where
  "demo_test_slave cs = (modbus_rtu_init (demo_impl\<lparr>dev := demo_os (sconst 0) cs, memory_impl := async_run_memory 0x1000 64 0xAA\<rparr>))
     \<lparr>status := status demo_idle\<rparr>"

abbreviation demo_test_memory :: rtu_memory where
  "demo_test_memory \<equiv> impl_memory (async_run_memory 0x1000 64 0xAA)"

lemma demo_test_window: "addr_begin demo_test_memory = 0x1000" "addr_end demo_test_memory = 0x1040"
  by (simp_all add: async_run_memory_def rtu_memory_impl_init_def Let_def)

lemma demo_test_serving: "takes_reply cs \<Longrightarrow> serving 0xAA demo_test_memory (demo_test_slave cs)"
  by (simp add: serving_def demo_test_slave_def async_run_memory_wf idle_slave_def modbus_rtu_init_def rtu_inv_defs
      demo_impl_def impl_defs demo_idle_def demo_os_def)
    (simp add: async_run_memory_def rtu_memory_impl_init_def Let_def)

definition demo_fixture :: "int stream \<Rightarrow> syscall list \<Rightarrow> test_fixture" where
  "demo_fixture c cs =
     \<lparr>tf_config = \<lparr>tc_dev_path = None, tc_rate = B19200, tc_parity = PARITY_none, tc_debug_size = 1024, tc_rtu_addr = 0xAA,
        tc_1t5_us = 750, tc_3t5_us = 1750, tc_exec_ms = 0\<rparr>, tf_master = demo_os c cs\<rparr>"

lemma snth_script: "(c0 ## c1 ## c2 ## c3 ## c4 ## c) !! 2 = c2" "(c0 ## c1 ## c2 ## c3 ## c4 ## c) !! 4 = c4"
  by (simp_all add: eval_nat_numeral)

lemma demo_test_line: "test_line (demo_fixture (0 ## 0 ## 0 ## 0 ## 1000000000 ## sconst 0)
    [Poll_ret 1 True False, Write_ret 256, Poll_ret 1 True False, Read_ret reply, Poll_ret 0 False False]) reply"
  by (simp add: test_line_def demo_fixture_def demo_os_def calc_tmax_ms_def calc_tmin_ms_def ADU_CAPACITY_def snth_script
      signed_divide_int_def)

theorem suite_exchanges_pass_witness:
  "\<exists>reply w. read_bytes_21 0x1000 (demo_fixture (0 ## 0 ## 0 ## 0 ## 1000000000 ## sconst 0)
      [Poll_ret 1 True False, Write_ret 256, Poll_ret 1 True False, Read_ret reply, Poll_ret 0 False False]) =
    Inr ((demo_fixture (sconst 0) [])\<lparr>tf_master := w\<rparr>, True)"
proof -
  let ?cs = "[Poll_ret 1 True False, Write_ret 256, Drain_ret]"
  have "takes_reply ?cs" by simp
  note s = demo_test_serving [OF this]
  obtain reply s' where r: "replies (demo_test_slave ?cs) (adu 0xAA (request_pdu (Rd_bytes 0x1000 21))) reply s'"
    using serving_answers [OF s, of "Rd_bytes 0x1000 21"] by (auto simp: request_pdu_def simp del: serve.simps)
  let ?tf = "demo_fixture (0 ## 0 ## 0 ## 0 ## 1000000000 ## sconst 0)
    [Poll_ret 1 True False, Write_ret 256, Poll_ret 1 True False, Read_ret reply, Poll_ret 0 False False]"
  have "rtu_addr_of ?tf = 0xAA" "addr_ok ?tf" by (simp_all add: demo_fixture_def)
  moreover have "(read_bytes_21 0x1000, Rd_bytes 0x1000 21) \<in> set (exchange_tests (addr_begin demo_test_memory))"
    by (simp add: exchange_tests_def demo_test_window)
  ultimately have "\<exists>w. read_bytes_21 0x1000 ?tf = Inr (?tf\<lparr>tf_master := w\<rparr>, True) \<and>
      wire w = wire (tf_master ?tf) @ adu (rtu_addr_of ?tf) (request_pdu (Rd_bytes 0x1000 21))"
    using suite_exchanges_pass [where m = demo_test_memory and s = "demo_test_slave ?cs" and test = "read_bytes_21 0x1000"
        and q = "Rd_bytes 0x1000 21" and s' = s', OF _ _ _ _ _ demo_test_line [of reply]] s r
    by (simp add: async_run_test_memory)
  then show ?thesis by (auto simp: demo_fixture_def)
qed

theorem write_then_read_bytes_witness:
  "\<exists>reply reply' w. write_read_bytes [1, 2, 3] 0x1010 (demo_fixture (sconst 0)
      [Poll_ret 1 True False, Write_ret 256, Poll_ret 1 True False, Read_ret reply, Usleep_ret,
       Poll_ret 1 True False, Write_ret 256, Poll_ret 1 True False, Read_ret reply']) =
    Inr ((demo_fixture (sconst 0) [])\<lparr>tf_master := w\<rparr>, True)"
proof -
  let ?cs = "[Poll_ret 1 True False, Write_ret 256, Drain_ret]" and ?q = "Wr_bytes 0x1010 [1, 2, 3]" and ?r = "Rd_bytes 0x1010 3"
  let ?s = "demo_test_slave (?cs @ ?cs)"
  have takes: "takes_reply ?cs" "takes_reply (?cs @ ?cs)" by simp_all
  note s = demo_test_serving [OF takes(2)]
  have calls: "calls (dev (user_data ?s)) = Poll_ret 1 True False # Write_ret 256 # Drain_ret # ?cs"
    by (simp add: demo_test_slave_def demo_os_def modbus_rtu_init_def)
  have q: "request_wf ?q" "write_in_window demo_test_memory ?q" "length (request_pdu ?q) \<le> 253"
    by (simp_all add: request_pdu_def demo_test_window)
  obtain reply s1 where one: "replies ?s (adu 0xAA (request_pdu ?q)) reply s1"
    using serving_answers [OF s q] by blast
  obtain s2 m' where two: "exec_all linux_platform [Timeout, Event] s1 = Inr s2" "serving 0xAA m' s2"
    using serving_again [OF s one calls takes(1) q] by blast
  obtain reply' s3 where three: "replies s2 (adu 0xAA (request_pdu ?r)) reply' s3"
    using serving_answers [OF two(2), of ?r] by (auto simp: request_pdu_def simp del: serve.simps)
  let ?tf = "demo_fixture (sconst 0)
    [Poll_ret 1 True False, Write_ret 256, Poll_ret 1 True False, Read_ret reply, Usleep_ret,
     Poll_ret 1 True False, Write_ret 256, Poll_ret 1 True False, Read_ret reply']"
  have a: "rtu_addr_of ?tf = 0xAA" and line: "two_exchanges ?tf reply reply'"
    by (simp_all add: demo_fixture_def two_exchanges_def demo_os_def)
  have "\<exists>w. write_read_bytes [1, 2, 3] 0x1010 ?tf = Inr (?tf\<lparr>tf_master := w\<rparr>, True) \<and>
      wire w = wire (tf_master ?tf) @ adu (rtu_addr_of ?tf) (request_pdu ?q) @
        adu (rtu_addr_of ?tf) (request_pdu (Rd_bytes 0x1010 (of_nat (length [1, 2, 3 :: u8]))))"
    by (rule write_then_read_bytes [where s = ?s and m = demo_test_memory, OF _ calls takes(1) _ _ _ _ _ two(1) _ line])
      (use a s one three in \<open>simp_all add: demo_test_window\<close>)
  then show ?thesis by (auto simp: demo_fixture_def)
qed

end
