(* ===== verification/Linux_Slow_Line.thy ===== *)
theory Linux_Slow_Line
  imports Linux_Rounds
begin

text \<open>
  The intervals of \<open>linux/rtu_impl.c\<close> against the time of a character on the line, and what the
  slave does with a frame that a line slower than 19200 bps brings byte by byte.

  The formulas of \<open>calc_1t5_us\<close> and \<open>calc_3t5_us\<close> count two characters to a byte of 11 bits, so
  their 1.5t is the time of 8.25 bits: less than one byte takes.
\<close>

section \<open>The time of a byte\<close>

text \<open>Start bit, 8 data bits, parity or second stop bit, stop bit; see \<open>char_bits\<close>.\<close>

definition byte_us :: "speed_t \<Rightarrow> int" where
  "byte_us r = (case tty_bps r of Inl e \<Rightarrow> 0 | Inr bps \<Rightarrow> 11 * 1000000 div bps)"

text \<open>The 1.5t, the 3.5t and the byte at every rate.\<close>

lemma times_1t5:
  "calc_1t5_us B1200 = Inr 6875" "calc_1t5_us B2400 = Inr 3437" "calc_1t5_us B4800 = Inr 1718" "calc_1t5_us B9600 = Inr 859"
  "calc_1t5_us B19200 = Inr 750" "calc_1t5_us B38400 = Inr 750" "calc_1t5_us B57600 = Inr 750" "calc_1t5_us B115200 = Inr 750"
  by (simp_all add: calc_1t5_us_def signed_divide_int_def)


lemma times_byte:
  "byte_us B1200 = 9166" "byte_us B2400 = 4583" "byte_us B4800 = 2291" "byte_us B9600 = 1145"
  "byte_us B19200 = 572" "byte_us B38400 = 286" "byte_us B57600 = 190" "byte_us B115200 = 95"
  by (simp_all add: byte_us_def)


text \<open>
  The macros of \<open>rtu.h\<close> count one character to a byte, of 10 bits. No code uses them; their 1.5t is
  longer than a byte.
\<close>

definition CALC_CPS :: "int \<Rightarrow> int" where "CALC_CPS br = br sdiv 10"

definition CALC_MAX_INTER_FRAME_TIMEOUT_us :: "int \<Rightarrow> int" where
  "CALC_MAX_INTER_FRAME_TIMEOUT_us br = 15 * (100000 sdiv CALC_CPS br)"

lemma interval_of_header:
  assumes "r \<in> {B1200, B2400, B4800, B9600}" and "tty_bps r = Inr bps" and "calc_1t5_us r = Inr t1"
  shows "t1 < byte_us r \<and> byte_us r < CALC_MAX_INTER_FRAME_TIMEOUT_us bps"
  using assms
  by (auto simp: times_byte times_1t5 CALC_CPS_def CALC_MAX_INTER_FRAME_TIMEOUT_us_def signed_divide_int_def)

section \<open>Errors restart the machine\<close>



section \<open>The rounds of a frame that comes too slowly\<close>







section \<open>A frame that comes too slowly\<close>








section \<open>The property\<close>









end
