(* ===== verification/Test_Program.thy ===== *)
theory Test_Program
  imports Linux_Tests
begin

text \<open>
  The program around the tests of \<open>rtu_tests.c\<close>: its options, the set-up and tear-down of the
  fixture, and the thread of the slave.

  \<open>getopt\<close> is the list of the options it returns, as in \<open>Linux_Main\<close>; the flushes of the line
  succeed, numbers among the options are \<open>int\<close>s, and a mutex only orders the threads.
\<close>

section \<open>Options\<close>

fun find_rate_str :: "string \<Rightarrow> speed_t list \<Rightarrow> speed_t" where
  "find_rate_str s [] = B19200"
| "find_rate_str s (r # rs) = (if s = tty_rate_str r then r else find_rate_str s rs)"

definition test_parse_speed :: "string option \<Rightarrow> speed_t" where
  "test_parse_speed str = (case str of None \<Rightarrow> B19200 | Some s \<Rightarrow> find_rate_str s supported_rates)"

definition test_parse_parity :: "string option \<Rightarrow> parity_t" where
  "test_parse_parity str =
     (case str of None \<Rightarrow> PARITY_none
      | Some s \<Rightarrow> if s = tty_parity_str PARITY_even then PARITY_even
                  else if s = tty_parity_str PARITY_odd then PARITY_odd
                  else if s = tty_parity_str PARITY_none then PARITY_none else PARITY_none)"

text \<open>\<open>RTU_ADDR\<close> is 0xAA, \<open>DEBUG_SIZE\<close> 1024, \<open>TIMEOUT_EXEC_MS\<close> 100.\<close>

definition default_test_config :: "test_config res" where
  "default_test_config =
     bind_res (calc_1t5_us B19200) (\<lambda>t1. bind_res (calc_3t5_us B19200) (\<lambda>t3.
     Inr \<lparr>tc_dev_path = None, tc_rate = B19200, tc_parity = PARITY_none, tc_debug_size = 1024, tc_rtu_addr = 0xAA,
       tc_1t5_us = t1, tc_3t5_us = t3, tc_exec_ms = 0\<rparr>))"

text \<open>\<open>Inl\<close> is the status with which \<open>help\<close> ends the process; the boolean is \<open>fallback\<close>.\<close>

definition apply_test_option :: "char \<Rightarrow> string option \<Rightarrow> test_config \<Rightarrow> int + bool \<times> test_config" where
  "apply_test_option c optarg cfg =
     (if c = CHR ''D'' then Inr (False, cfg\<lparr>tc_debug_size := num_arg 0 optarg\<rparr>)
      else if c = CHR ''T'' then Inr (False, cfg\<lparr>tc_3t5_us := num_arg (- 1) optarg\<rparr>)
      else if c = CHR ''a'' then Inr (False, cfg\<lparr>tc_rtu_addr := num_arg (- 1) optarg\<rparr>)
      else if c = CHR ''d'' then Inr (False, cfg\<lparr>tc_dev_path := optarg, tc_exec_ms := 100\<rparr>)
      else if c = CHR ''h'' then Inl (help_exit None)
      else if c = CHR ''p'' then Inr (False, cfg\<lparr>tc_parity := test_parse_parity optarg\<rparr>)
      else if c = CHR ''r'' then Inr (False, cfg\<lparr>tc_rate := test_parse_speed optarg\<rparr>)
      else if c = CHR ''t'' then Inr (False, cfg\<lparr>tc_1t5_us := num_arg (- 1) optarg\<rparr>)
      else Inr (True, cfg))"

fun test_options :: "(char \<times> string option) list \<Rightarrow> test_config \<Rightarrow> int + test_config" where
  "test_options [] cfg = Inr cfg"
| "test_options ((c, optarg) # args) cfg =
     (case apply_test_option c optarg cfg of
        Inl code \<Rightarrow> Inl code
      | Inr (fallback, cfg) \<Rightarrow> if fallback then Inr cfg else test_options args cfg)"

text \<open>The settings that \<open>main\<close> gives to the tests; \<open>current\<close> is the log level.\<close>

definition tests_config :: "int \<Rightarrow> (char \<times> string option) list \<Rightarrow> (int + test_config) res" where
  "tests_config current args =
     bind_res default_test_config (\<lambda>cfg.
     case test_options args cfg of
       Inl code \<Rightarrow> Inr (Inl code)
     | Inr cfg \<Rightarrow> Inr (Inr (cfg\<lparr>tc_debug_size :=
         (if log_level_num LOG_LEVEL_DEBUG > current then 0 else tc_debug_size cfg)\<rparr>)))"

section \<open>The fixture\<close>

record rtu_config =
  rc_dev :: tty_dev
  rc_rate :: speed_t
  rc_self_addr :: u8
  rc_1t5_us :: int
  rc_3t5_us :: int
  rc_event_fd :: int

text \<open>
  What a test finds: both devices, the pipe to the slave's thread and that thread's settings. \<open>None\<close> is a
  set-up whose \<open>ASSERT\<close> fails.
\<close>

record fixture =
  fx_config :: test_config
  fx_master :: tty_dev
  fx_slave :: tty_dev
  fx_channel :: pipe_t
  fx_rtu :: "rtu_config option"

definition fixture_setup :: "pty_answers \<Rightarrow> int \<Rightarrow> (int \<times> int) option \<Rightarrow> nat \<Rightarrow> test_config \<Rightarrow> int set
    \<Rightarrow> (fixture \<times> int set) option res" where
  "fixture_setup os fd pipe_fds index cfg fds =
     (if \<not> index < length supported_rates then Inr None
      else let r = (if tc_dev_path cfg \<noteq> None then tc_rate cfg else supported_rates ! index);
               channel = \<lparr>p_reader = 0, p_writer = 0\<rparr> in
        bind_res (serial_init os fd cfg fds) (\<lambda>(master, slave, fds).
        bind_res (serial_config master slave r (tc_parity cfg)) (\<lambda>(master, slave).
        if tc_dev_path cfg \<noteq> None
        then Inr (Some (\<lparr>fx_config = cfg, fx_master = master, fx_slave = slave, fx_channel = channel, fx_rtu = None\<rparr>, fds))
        else bind_res (pipe_open pipe_fds channel fds) (\<lambda>(channel, fds).
          Inr (Some (\<lparr>fx_config = cfg, fx_master = master, fx_slave = slave, fx_channel = channel,
            fx_rtu = Some \<lparr>rc_dev = slave, rc_rate = r, rc_self_addr = word_of_int (tc_rtu_addr cfg),
              rc_1t5_us = tc_1t5_us cfg, rc_3t5_us = tc_3t5_us cfg, rc_event_fd = p_reader channel\<rparr>\<rparr>, fds))))))"

text \<open>The thread of the slave; a write to the pipe is the event that ends it.\<close>

definition async_run_rtu :: "u16 \<Rightarrow> u16 \<Rightarrow> rtu_config \<Rightarrow> nat \<Rightarrow> os \<Rightarrow> (rtu_impl modbus_rtu_state \<times> bool) res" where
  "async_run_rtu mem_addr mem_size config n w =
     modbus_rtu_run n w (rc_rate config) (rc_1t5_us config) (rc_3t5_us config)
       (async_run_memory mem_addr mem_size (rc_self_addr config)) True"

text \<open>Writing to a descriptor that is not open fails.\<close>

definition fixture_teardown :: "fixture \<Rightarrow> int set \<Rightarrow> (fixture \<times> int set) res" where
  "fixture_teardown tf fds =
     (if tc_dev_path (fx_config tf) = None \<and> p_writer (fx_channel tf) \<notin> fds then Inl (CheckFailed ''write'')
      else bind_res (serial_deinit (fx_master tf) (fx_slave tf) fds) (\<lambda>(master, slave, fds).
           Inr (tf\<lparr>fx_master := master, fx_slave := slave\<rparr>, fds)))"

section \<open>What they do\<close>

text \<open>Both programs read a rate alike; of a parity they only differ in what replaces an unknown one.\<close>

lemma test_parse_speed_eq: "test_parse_speed = parse_speed"
  by (auto simp: test_parse_speed_def parse_speed_def supported_rates_def supported_rates_str_def split: option.splits)

lemma test_parse_parity_eq:
  "test_parse_parity str = (if str \<in> Some ` {''E'', ''O'', ''N''} then parse_parity str else PARITY_none)"
  by (auto simp: test_parse_parity_def parse_parity_def split: option.splits)

text \<open>Whatever the options, the rate is one of the table.\<close>

lemma test_options_rate:
  "test_options args cfg = Inr cfg' \<Longrightarrow> tc_rate cfg \<in> set supported_rates \<Longrightarrow> tc_rate cfg' \<in> set supported_rates"
proof (induction args cfg rule: test_options.induct)
  case (2 c optarg args cfg)
  from "2.prems"(1) obtain f k where k: "apply_test_option c optarg cfg = Inr (f, k)"
      "if f then cfg' = k else test_options args k = Inr cfg'"
    by (auto split: sum.splits if_split_asm)
  have "tc_rate k \<in> set supported_rates"
    using k(1) "2.prems"(2) parse_speed_supported [of optarg]
    by (auto simp: apply_test_option_def test_parse_speed_eq split: if_split_asm)
  with k "2.IH" [OF k(1) refl] show ?case by (auto split: if_split_asm)
qed simp

lemma tests_config_ok:
  assumes "tests_config current args = Inr (Inr cfg)"
  shows "tc_rate cfg \<in> set supported_rates" and "current < 3 \<Longrightarrow> tc_debug_size cfg = 0"
    and "args = [] \<Longrightarrow> tc_parity cfg = PARITY_none \<and> tc_rtu_addr cfg = 0xAA \<and> tc_dev_path cfg = None \<and> tc_exec_ms cfg = 0"
proof -
  from assms obtain d where d: "default_test_config = Inr d" by (auto simp: tests_config_def bind_res_Inr_iff)
  from assms [unfolded tests_config_def d bind_res.simps] obtain k where k: "test_options args d = Inr k"
    and cfg: "cfg = k\<lparr>tc_debug_size := (if log_level_num LOG_LEVEL_DEBUG > current then 0 else tc_debug_size k)\<rparr>"
    by (cases "test_options args d") simp_all
  have "tc_rate d \<in> set supported_rates" using d by (auto simp: default_test_config_def bind_res_Inr_iff supported_rates_def)
  with test_options_rate [OF k] cfg show "tc_rate cfg \<in> set supported_rates" by simp
  show "current < 3 \<Longrightarrow> tc_debug_size cfg = 0" using cfg by simp
  show "args = [] \<Longrightarrow> tc_parity cfg = PARITY_none \<and> tc_rtu_addr cfg = 0xAA \<and> tc_dev_path cfg = None \<and> tc_exec_ms cfg = 0"
    using cfg k d by (auto simp: default_test_config_def bind_res_Inr_iff)
qed

text \<open>
  A test on a pseudo terminal closes both devices, but not the pipe: of every descriptor that its
  set-up opened, its tear-down leaves exactly those two.
\<close>

lemma fixture_leaves_pipe:
  assumes "fixture_setup os fd (Some (r, w)) index cfg fds = Inr (Some (tf, fds1))" and "tc_dev_path cfg = None"
    and "pty_granted os \<longrightarrow> pty_fd os \<noteq> - 1" and "fd \<notin> fds" and "pty_fd os \<notin> fds" and "fd \<noteq> pty_fd os" and "- 1 \<notin> fds"
    and "{r, w} \<inter> {fd, pty_fd os} = {}"
  shows "\<exists>tf'. fixture_teardown tf fds1 = Inr (tf', insert w (insert r fds))"
proof -
  obtain m s fds0 m' s' where init: "serial_init os fd cfg fds = Inr (m, s, fds0)"
    and conf: "serial_config m s (supported_rates ! index) (tc_parity cfg) = Inr (m', s')"
    and tf: "fx_master tf = m'" "fx_slave tf = s'" "fx_config tf = cfg" "p_writer (fx_channel tf) = w" "fds1 = insert w (insert r fds0)"
    using assms(1,2) by (auto simp: fixture_setup_def Let_def bind_res_Inr_iff pipe_open_def split: if_split_asm)
  note opened = serial_init_fds [OF init assms(3)]
  have fd: "dev_fd m' = pty_fd os" "dev_fd s' = fd"
    using conf tty_configure_fd opened assms(2) by (auto simp: serial_config_def Let_def bind_res_Inr_iff)
  have in_fds: "fd \<in> fds1" "pty_fd os \<in> fds1 - {fd}" and left: "fds1 - {fd} - {pty_fd os} = insert w (insert r fds)"
    using opened assms tf(5) by auto
  from dev_deinit_ok [of s' fds1] in_fds fd obtain s2 where "dev_deinit s' fds1 = Inr (s2, fds1 - {fd})" by auto
  moreover from dev_deinit_ok [of m' "fds1 - {fd}"] in_fds fd obtain m2 where
    "dev_deinit m' (fds1 - {fd}) = Inr (m2, fds1 - {fd} - {pty_fd os})" by auto
  ultimately show ?thesis
    using left tf by (simp add: fixture_teardown_def serial_deinit_def)
qed

end
