(* ===== verification/Tty_Tests.thy ===== *)
theory Tty_Tests
  imports Tests_Pass Linux_Faults
begin

text \<open>
  The tests of the serial line, \<open>linux/tests/tty_dev_tests.c\<close>, as programs on the model, and the
  proof that they pass.

  Each thread has the operating system of its end of the line, with the script of what the line does
  there; what two threads share is the line, so their steps can be taken in any order. \<open>rand\<close> is a
  stream of numbers that are not negative.
\<close>

section \<open>The devices of a test\<close>

definition init_devs :: "int \<Rightarrow> pty_answers \<Rightarrow> int \<Rightarrow> int set \<Rightarrow> (tty_dev \<times> tty_dev \<times> int set) res" where
  "init_devs current os fd fds =
     (let debug_size = (if log_level_num LOG_LEVEL_DEBUG > current then 0 else 1024) in
      bind_res (tty_pair_create os tty_pair_init (Some ''/dev/ptmx'') fds) (\<lambda>(pair, fds).
      let master = tty_init debug_size; slave = tty_init debug_size in
      bind_res (tty_adopt master (master_fd pair)) (\<lambda>master.
      bind_res (tty_open slave (the (slave_path pair)) fd) (\<lambda>slave.
      Inr (master, slave, insert fd fds)))))"

fun config_devs :: "tty_dev list \<Rightarrow> speed_t \<Rightarrow> parity_t \<Rightarrow> tty_dev list res" where
  "config_devs [] r parity = Inr []"
| "config_devs (d # devs) r parity =
     (let stop_bits = (if PARITY_none = parity then STOP_BITS_2 else STOP_BITS_1) in
      bind_res (tty_configure d r parity DATA_BITS_8 stop_bits True
        (tty_configure_term no_termios r parity DATA_BITS_8 stop_bits)) (\<lambda>d.
      bind_res (config_devs devs r parity) (\<lambda>devs. Inr (d # devs))))"

definition deinit_devs :: "tty_dev \<Rightarrow> tty_dev \<Rightarrow> int set \<Rightarrow> (tty_dev \<times> tty_dev \<times> int set) res" where
  "deinit_devs master slave fds =
     bind_res (dev_deinit slave fds) (\<lambda>(slave, fds).
     bind_res (dev_deinit master fds) (\<lambda>(master, fds). Inr (master, slave, fds)))"

text \<open>Is the test passed, and which descriptors are left open.\<close>

definition open_and_close :: "int \<Rightarrow> pty_answers \<Rightarrow> int \<Rightarrow> int set \<Rightarrow> (bool \<times> int set) res" where
  "open_and_close current os fd fds =
     bind_res (init_devs current os fd fds) (\<lambda>(master, slave, fds).
     let ok = (- 1 \<noteq> dev_fd master \<and> - 1 \<noteq> dev_fd slave) in
     bind_res (deinit_devs master slave fds) (\<lambda>(_, _, fds). Inr (ok, fds)))"

text \<open>What the other tests do before and after their exchange.\<close>

definition on_devs :: "int \<Rightarrow> pty_answers \<Rightarrow> int \<Rightarrow> int set \<Rightarrow> speed_t \<Rightarrow> 'a res \<Rightarrow> ('a \<times> int set) res" where
  "on_devs current os fd fds r exch =
     bind_res (init_devs current os fd fds) (\<lambda>(master, slave, fds).
     bind_res (config_devs [master, slave] r PARITY_none) (\<lambda>devs.
     bind_res exch (\<lambda>x.
     bind_res (deinit_devs (devs ! 0) (devs ! 1) fds) (\<lambda>(_, _, fds). Inr (x, fds)))))"

section \<open>Exchanges\<close>

definition hello :: "u8 list" where
  "hello = c_string ''hello on other side!''"

definition write_then_read :: "os \<Rightarrow> os \<Rightarrow> (os \<times> os \<times> bool) res" where
  "write_then_read master slave =
     bind_res (tty_write master hello 100 False) (\<lambda>(master, cur, _).
     let sent = (cur = int (length hello)) in
     bind_res (tty_read slave (replicate 255 0) 100 False) (\<lambda>(slave, buf, cur, _).
     Inr (master, slave, sent \<and> cur = int (length hello) \<and> take (length hello) buf = hello)))"

text \<open>The thread that reads: its bytes and the buffer that it returns, at the address that \<open>malloc\<close> gives.\<close>

definition async_read :: "int \<Rightarrow> blocks \<Rightarrow> os \<Rightarrow> int \<Rightarrow> (os \<times> u8 list \<times> buf_t \<times> blocks) res" where
  "async_read p heap w timeout =
     bind_res (buf_alloc p 255 heap) (\<lambda>(buf, heap).
     bind_res (tty_read w (replicate 255 0) timeout False) (\<lambda>(w, data, cur, _).
     Inr (w, data, buf\<lparr>buf_curr := buf_begin buf + cur\<rparr>, heap)))"

definition async_read_and_write :: "int \<Rightarrow> blocks \<Rightarrow> os \<Rightarrow> os \<Rightarrow> (os \<times> os \<times> blocks \<times> bool) res" where
  "async_read_and_write p heap master slave =
     bind_res (async_read p heap slave 100) (\<lambda>(slave, data, recv_buf, heap).
     bind_res (tty_write master hello 100 False) (\<lambda>(master, cur, _).
     let ok = (cur = int (length hello) \<and> buf_curr recv_buf - buf_begin recv_buf = int (length hello) \<and>
       take (length hello) data = hello) in
     bind_res (buf_free p heap) (\<lambda>(_, heap). Inr (master, slave, heap, ok))))"

text \<open>The signal: \<open>SIGUSR1\<close> is 10, a handler maps \<open>usr1_cntr\<close>.\<close>

type_synonym usr1_handlers = "int \<Rightarrow> int \<Rightarrow> int \<Rightarrow> int"

definition handle_USR1 :: "int \<Rightarrow> int \<Rightarrow> int" where
  "handle_USR1 sig_no usr1_cntr = (if 10 = sig_no then usr1_cntr + 1 else usr1_cntr)"

definition read_interrupted :: "int \<Rightarrow> blocks \<Rightarrow> os \<Rightarrow> int \<Rightarrow> usr1_handlers
    \<Rightarrow> (os \<times> blocks \<times> int \<times> usr1_handlers \<times> bool) res" where
  "read_interrupted p heap slave usr1_cntr handlers =
     bind_res (set_signal_handler True 10 handle_USR1 handlers) (\<lambda>(handlers, action_backup).
     let usr1_cntr = handlers 10 10 usr1_cntr in
     bind_res (async_read p heap slave 1000) (\<lambda>(slave, _, _, heap).
     bind_res (buf_free p heap) (\<lambda>(_, heap).
     let ok = (1 = usr1_cntr) in
     bind_res (restore_signal_handler True 10 (Some action_backup) handlers) (\<lambda>handlers.
     Inr (slave, heap, usr1_cntr, handlers, ok)))))"

section \<open>The echo\<close>

text \<open>\<open>tty_read\<close> and \<open>tty_write\<close> from \<open>cur\<close> on: \<open>begin\<close> is a pointer into a longer buffer.\<close>

definition tty_read_from :: "os \<Rightarrow> u8 list \<Rightarrow> int \<Rightarrow> int \<Rightarrow> (os \<times> u8 list \<times> int \<times> bool) res" where
  "tty_read_from w buf cur timeout =
     (let (start_ts, w) = timestamp_us w in tty_read_loop w buf cur timeout start_ts 0 False False False)"

definition tty_write_from :: "os \<Rightarrow> u8 list \<Rightarrow> int \<Rightarrow> int \<Rightarrow> (os \<times> int \<times> bool) res" where
  "tty_write_from w buf cur timeout =
     (let (start_ts, w) = timestamp_us w in tty_write_loop w buf cur timeout start_ts 0 False False False)"

lemma tty_from_start:
  "tty_read_from w buf 0 timeout = tty_read w buf timeout False"
  "tty_write_from w buf 0 timeout = tty_write w buf timeout False"
  by (simp_all add: tty_read_from_def tty_write_from_def tty_read_def tty_write_def)

text \<open>Each call that has something to do makes a system call, so the loops around them end with the script.\<close>

lemma tty_read_loop_calls:
  assumes "tty_read_loop w buf cur timeout start_ts el False rev0 rev1 = Inr (w', r)"
  shows "length (calls w') \<le> length (calls w)"
    and "cur \<noteq> int (length buf) \<Longrightarrow> 0 > timeout \<or> timeout \<ge> el \<Longrightarrow> length (calls w') < length (calls w)"
proof -
  have le: "tty_read_loop v buf k timeout start_ts e False r0 r1 = Inr (w', r) \<Longrightarrow> length (calls w') \<le> length (calls v)"
    for v buf k e r0 r1
  proof (induction "length (calls v)" arbitrary: v buf k e r0 r1 rule: less_induct)
    case less
    from less.prems show ?case
      by (subst (asm) tty_read_loop.simps)
        (auto simp: bind_res_Inr_iff Let_def split_beta split: if_split_asm
          dest!: calls_decrease(1,4) dest!: less.hyps [rotated])
  qed
  from le [OF assms] show "length (calls w') \<le> length (calls w)" .
  assume "cur \<noteq> int (length buf)" "0 > timeout \<or> timeout \<ge> el"
  with assms show "length (calls w') < length (calls w)"
    by (subst (asm) tty_read_loop.simps)
      (auto simp: bind_res_Inr_iff Let_def split_beta split: if_split_asm dest!: calls_decrease(1,4) le)
qed

lemma tty_write_loop_calls:
  assumes "tty_write_loop w buf cur timeout start_ts el False rev0 rev1 = Inr (w', r)"
  shows "length (calls w') \<le> length (calls w)"
    and "cur \<noteq> int (length buf) \<Longrightarrow> 0 > timeout \<or> timeout \<ge> el \<Longrightarrow> length (calls w') < length (calls w)"
proof -
  have le: "tty_write_loop v buf k timeout start_ts e False r0 r1 = Inr (w', r) \<Longrightarrow> length (calls w') \<le> length (calls v)"
    for v k e r0 r1
  proof (induction "length (calls v)" arbitrary: v k e r0 r1 rule: less_induct)
    case less
    from less.prems show ?case
      by (subst (asm) tty_write_loop.simps)
        (auto simp: bind_res_Inr_iff Let_def split_beta split: if_split_asm
          dest!: calls_decrease(1,5) dest!: less.hyps [rotated])
  qed
  from le [OF assms] show "length (calls w') \<le> length (calls w)" .
  assume "cur \<noteq> int (length buf)" "0 > timeout \<or> timeout \<ge> el"
  with assms show "length (calls w') < length (calls w)"
    by (subst (asm) tty_write_loop.simps)
      (auto simp: bind_res_Inr_iff Let_def split_beta split: if_split_asm dest!: calls_decrease(1,5) le)
qed

lemma tty_from_calls:
  "tty_read_from w buf cur timeout = Inr (w', r) \<Longrightarrow> cur \<noteq> int (length buf) \<Longrightarrow> length (calls w') < length (calls w)"
  "tty_write_from w buf cur timeout = Inr (w', s) \<Longrightarrow> cur \<noteq> int (length buf) \<Longrightarrow> length (calls w') < length (calls w)"
  by (auto simp: tty_read_from_def tty_write_from_def timestamp_us_def dest!: tty_read_loop_calls(2) tty_write_loop_calls(2))

text \<open>The loops around \<open>tty_write\<close>, and around \<open>tty_read\<close> until a byte is there.\<close>

function write_all :: "os \<Rightarrow> u8 list \<Rightarrow> int \<Rightarrow> int \<Rightarrow> os res" where
  "write_all w buf cur timeout =
     (if cur = int (length buf) then Inr w
      else bind_res (tty_write_from w buf cur timeout) (\<lambda>(w, cur, _). write_all w buf cur timeout))"
  by pat_completeness auto
termination
  by (relation "measure (\<lambda>(w, _). length (calls w))") (auto dest: tty_from_calls)

declare write_all.simps [simp del]

text \<open>With no room there is no system call and the loop of the code runs for ever.\<close>

function read_some :: "os \<Rightarrow> u8 list \<Rightarrow> int \<Rightarrow> (os \<times> u8 list \<times> int) res" where
  "read_some w buf timeout =
     (if buf = [] then Inl OutOfFuel
      else bind_res (tty_read_from w buf 0 timeout) (\<lambda>(w, buf, cur, _).
           if cur = 0 then read_some w buf timeout else Inr (w, buf, cur)))"
  by pat_completeness auto
termination
  by (relation "measure (\<lambda>(w, _). length (calls w))") (auto dest: tty_from_calls)

declare read_some.simps [simp del]

lemma write_all_calls: "write_all w buf cur timeout = Inr w' \<Longrightarrow> length (calls w') \<le> length (calls w)"
proof (induction "length (calls w)" arbitrary: w cur rule: less_induct)
  case less
  show ?case
  proof (cases "cur = int (length buf)")
    case True
    with less.prems show ?thesis by (simp add: write_all.simps [of w])
  next
    case False
    with less.prems obtain v k z where v: "tty_write_from w buf cur timeout = Inr (v, k, z)" "write_all v buf k timeout = Inr w'"
      by (auto simp: write_all.simps [of w] bind_res_Inr_iff)
    from tty_from_calls(2) [OF v(1) False] less.hyps [OF _ v(2)] show ?thesis by simp
  qed
qed

lemma read_some_calls: "read_some w buf timeout = Inr (w', r) \<Longrightarrow> length (calls w') < length (calls w)"
proof (induction "length (calls w)" arbitrary: w buf rule: less_induct)
  case less
  then have ne: "buf \<noteq> []" by (auto simp: read_some.simps [of w])
  with less.prems obtain v b k z where v: "tty_read_from w buf 0 timeout = Inr (v, b, k, z)"
    "if k = 0 then read_some v b timeout = Inr (w', r) else v = w'"
    by (auto simp: read_some.simps [of w] bind_res_Inr_iff split: if_split_asm)
  have "length (calls v) < length (calls w)" using tty_from_calls(1) [OF v(1)] ne by simp
  with v(2) less.hyps [of v b] show ?case by (auto split: if_split_asm)
qed

definition stop_text :: "u8 list" where
  "stop_text = c_string ''STOP''"

text \<open>The thread that echoes until it is told to stop; a range that ends before it begins is read in front of it.\<close>

function async_echo :: "nat stream \<Rightarrow> nat \<Rightarrow> os \<Rightarrow> u8 list \<Rightarrow> os res" where
  "async_echo rand timeout w buf =
     (let rx_timeout = int (shd rand mod timeout); tx_timeout = int (shd (stl rand) mod timeout) in
      bind_res (read_some w buf rx_timeout) (\<lambda>(w, buf, next).
      if next < 0 then Inl (BadRead Data next)
      else bind_res (write_all w (take (nat next) buf) 0 tx_timeout) (\<lambda>w.
           if stop_text = take (length stop_text) buf then Inr w
           else async_echo (stl (stl rand)) timeout w buf)))"
  by pat_completeness auto
termination
  by (relation "measure (\<lambda>(_, _, w, _). length (calls w))")
    (auto dest!: read_some_calls write_all_calls)

declare async_echo.simps [simp del]

text \<open>The other side sends the words of a message one by one and receives each again.\<close>

definition isspace :: "u8 \<Rightarrow> bool" where
  "isspace c = (c = 32 \<or> 9 \<le> c \<and> c \<le> 13)"

function read_echo :: "os \<Rightarrow> u8 list \<Rightarrow> int \<Rightarrow> nat \<Rightarrow> int \<Rightarrow> (os \<times> u8 list \<times> int) res" where
  "read_echo w buf cur len timeout =
     (if int len = cur then Inr (w, buf, cur)
      else if cur = int (length buf) then Inl OutOfFuel
      else bind_res (tty_read_from w buf cur timeout) (\<lambda>(w, buf, cur, _). read_echo w buf cur len timeout))"
  by pat_completeness auto
termination
  by (relation "measure (\<lambda>(w, _). length (calls w))") (auto dest: tty_from_calls)

declare read_echo.simps [simp del]

lemma word_shortens: "xs \<noteq> [] \<Longrightarrow> \<not> n \<le> i \<Longrightarrow> n - (i + k + length xs) < n - i"
  by (cases xs) auto

function send_words :: "os \<Rightarrow> u8 list \<Rightarrow> nat \<Rightarrow> int \<Rightarrow> (os \<times> bool) res" where
  "send_words w msg w_begin timeout =
     (if w_begin \<ge> length msg then Inr (w, True)
      else let w_begin = w_begin + length (takeWhile isspace (drop w_begin msg));
               w_end = w_begin + length (takeWhile (Not \<circ> isspace) (drop w_begin msg));
               len = w_end - w_begin
        in if len = 0 then Inr (w, True)
        else bind_res (write_all w (take w_end msg) (int w_begin) timeout) (\<lambda>w.
             if \<not> 255 \<ge> len then Inr (w, False)
             else bind_res (read_echo w (replicate 255 0) 0 len timeout) (\<lambda>(w, rx_buf, next).
                  let ok = (next = int len \<and> take len (drop w_begin msg) = take len rx_buf) in
                  bind_res (send_words w msg w_end timeout) (\<lambda>(w, rest). Inr (w, ok \<and> rest)))))"
  by pat_completeness auto
termination
  by (relation "measure (\<lambda>(_, msg, w_begin, _). length msg - w_begin)") (auto intro!: word_shortens)

declare send_words.simps [simp del]

definition echo_message :: "u8 list" where
  "echo_message = c_string (''*** hello on other side! ?'' @ [CHR 0x09] @ ''? '' @ [CHR 0x0A] @ ''12 _ $ test '' @ [CHR 0x0A] @ '' message *** STOP'')"

text \<open>The test: the thread, and the words from the other end.\<close>

definition echo_test :: "nat stream \<Rightarrow> os \<Rightarrow> os \<Rightarrow> (os \<times> os \<times> bool) res" where
  "echo_test rand master slave =
     bind_res (send_words master echo_message 0 10) (\<lambda>(master, ok).
     bind_res (async_echo rand 20 slave (replicate 255 0)) (\<lambda>slave. Inr (master, slave, ok)))"

section \<open>The tests pass\<close>

text \<open>The devices: all that a test opened it closes again, by the lemmas on \<open>serial_init\<close>.\<close>

lemma devs_are_serial:
  "init_devs current os fd fds = serial_init os fd \<lparr>tc_dev_path = None, tc_rate = B57600, tc_parity = PARITY_none,
     tc_debug_size = (if log_level_num LOG_LEVEL_DEBUG > current then 0 else 1024), tc_rtu_addr = 0, tc_1t5_us = 0,
     tc_3t5_us = 0, tc_exec_ms = 0\<rparr> fds"
  "deinit_devs m s fds = serial_deinit m s fds"
  by (simp_all add: init_devs_def serial_init_def deinit_devs_def serial_deinit_def Let_def)

lemma devs_undone:
  assumes "on_devs current os fd fds r exch = Inr (x, fds')" and "pty_granted os \<longrightarrow> pty_fd os \<noteq> - 1"
    and "fd \<notin> fds" and "pty_fd os \<notin> fds" and "fd \<noteq> pty_fd os" and "- 1 \<notin> fds"
  shows "exch = Inr x \<and> fds' = fds"
proof -
  obtain m s g m' s' where init: "init_devs current os fd fds = Inr (m, s, g)"
    and conf: "serial_config m s r PARITY_none = Inr (m', s')"
    and rest: "exch = Inr x" "\<exists>a b. serial_deinit m' s' g = Inr (a, b, fds')"
    using assms(1) unfolding on_devs_def devs_are_serial(2)
    by (force simp: bind_res_Inr_iff Let_def serial_config_def)
  from serial_undone [OF init [unfolded devs_are_serial] assms(2-6) conf] rest show ?thesis by auto
qed

lemma open_and_close_passes:
  assumes "pty_granted os" and "pty_unlocked os" and "pty_name os = Some path" and "pty_fd os \<noteq> - 1" and "fd \<noteq> - 1"
    and "fd \<notin> fds" and "pty_fd os \<notin> fds" and "fd \<noteq> pty_fd os"
  shows "open_and_close current os fd fds = Inr (True, fds)"
proof -
  have "insert fd (insert (pty_fd os) fds) - {fd} - {pty_fd os} = fds" using assms by auto
  then show ?thesis
    using assms by (simp add: open_and_close_def init_devs_def deinit_devs_def dev_deinit_def tty_deinit_def tty_close_def
        tty_pair_create_def tty_pair_init_def tty_adopt_def tty_open_def tty_init_def Let_def)
qed

text \<open>A line that brings some bytes at once, and then nothing until the time of the reader has passed.\<close>

definition settles :: "int stream \<Rightarrow> int \<Rightarrow> bool" where
  "settles c timeout = ((c !! 1 - c !! 0) sdiv 1000 \<le> timeout \<and> timeout < (c !! 2 - c !! 0) sdiv 1000)"

lemma tty_read_settles:
  assumes "calls w = Poll_ret 1 True False # Read_ret bs # Poll_ret 0 r1 r2 # cs" and "bs \<noteq> []" and "length bs < length buf"
    and "0 \<le> timeout" and "settles (clock w) timeout"
  shows "\<exists>w'. tty_read w buf timeout False = Inr (w', overwrite buf 0 bs, int (length bs), False) \<and>
    wire w' = wire w \<and> calls w' = cs \<and> clock w' = sdrop 3 (clock w)"
proof -
  let ?w = "snd (timestamp_us w)"
  let ?v = "snd (timestamp_us (?w\<lparr>calls := Read_ret bs # Poll_ret 0 r1 r2 # cs\<rparr>))"
  have poll: "sys_poll ?w False False = Inr (?w\<lparr>calls := Read_ret bs # Poll_ret 0 r1 r2 # cs\<rparr>, 1, True, False)"
    using assms(1) by (simp add: sys_poll_def)
  have ready: "tty_read_ready ?v buf 0 = Inr (?v\<lparr>calls := Poll_ret 0 r1 r2 # cs\<rparr>, overwrite buf 0 bs, int (length bs))"
    using store_from_ok [of 0 bs buf] assms(2,3) by (simp add: tty_read_ready_def sys_read_def Let_def)
  let ?u = "?v\<lparr>calls := Poll_ret 0 r1 r2 # cs\<rparr>"
  have e: "(shd (stl (clock w)) - shd (clock w)) sdiv 1000 \<le> timeout" using assms(5) by (simp add: settles_def)
  have "tty_read_loop ?u (overwrite buf 0 bs) (int (length bs)) timeout (clock w !! 0)
      ((shd (stl (clock w)) - shd (clock w)) sdiv 1000) False True False =
      Inr (snd (timestamp_us (?u\<lparr>calls := cs\<rparr>)), overwrite buf 0 bs, int (length bs), False)"
    using assms(3-5) e
    by (simp add: tty_read_loop.simps [of _ _ "int (length bs)"] sys_poll_def Let_def split_beta timestamp_us_def
        settles_def numeral_2_eq_2)
  moreover have "buf \<noteq> []" using assms(3) by auto
  ultimately show ?thesis
    using poll ready assms(3,4)
    by (simp add: tty_read_def Let_def split_beta tty_read_loop.simps [of _ _ 0]) (simp add: timestamp_us_def numeral_3_eq_3)
qed

lemma c_string_length [simp]: "length (c_string s) = Suc (length s)"
  by (simp add: c_string_def)

lemma hello_props: "length hello = 21" "hello \<noteq> []"
  by (simp_all add: hello_def c_string_def)

lemma hello_exchange:
  assumes "calls master = [Poll_ret 1 True False, Write_ret n]" and "21 \<le> n"
    and "calls slave = [Poll_ret 1 True False, Read_ret hello, Poll_ret 0 False False]" and "settles (clock slave) 100"
  shows "\<exists>m s. tty_write master hello 100 False = Inr (m, 21, False) \<and> wire m = wire master @ hello \<and>
    tty_read slave (replicate 255 0) 100 False = Inr (s, overwrite (replicate 255 0) 0 hello, 21, False) \<and>
    take 21 (overwrite (replicate 255 0) 0 hello) = hello"
  using tty_write_at_once [OF assms(1), of hello 100] tty_read_settles [OF assms(3), of "replicate 255 0" 100] assms(2,4)
  by (auto simp: hello_props overwrite_0)

lemma write_then_read_passes:
  assumes "calls master = [Poll_ret 1 True False, Write_ret n]" and "21 \<le> n"
    and "calls slave = [Poll_ret 1 True False, Read_ret hello, Poll_ret 0 False False]" and "settles (clock slave) 100"
  shows "\<exists>m s. write_then_read master slave = Inr (m, s, True)"
    and "p \<noteq> 0 \<Longrightarrow> heap p = None \<Longrightarrow> \<exists>m s. async_read_and_write p heap master slave = Inr (m, s, heap, True)"
  using hello_exchange [OF assms]
  by (auto simp: write_then_read_def async_read_and_write_def async_read_def buf_alloc_def buf_free_def fun_upd_idem hello_props Let_def)

text \<open>A signal ends \<open>poll\<close>, not the read: it waits on, and the handler has run once.\<close>

lemma read_interrupted_passes:
  assumes "calls slave = [Poll_err True, Poll_ret 0 False False]" and "settles (clock slave) 1000"
    and "p \<noteq> 0" and "heap p = None"
  shows "\<exists>s. read_interrupted p heap slave 0 handlers = Inr (s, heap, 1, handlers, True) \<and> calls s = []"
  using assms
  by (simp add: read_interrupted_def async_read_def buf_alloc_def buf_free_def fun_upd_idem set_signal_handler_def
      restore_signal_handler_def handle_USR1_def Let_def tty_read_def timestamp_us_def settles_def sys_poll_def
      validate_syscall_result_def tty_read_loop.simps numeral_2_eq_2)

section \<open>The echo comes back\<close>

text \<open>The words of a text.\<close>

function c_words :: "u8 list \<Rightarrow> u8 list list" where
  "c_words cs =
     (let w = dropWhile isspace cs; word = takeWhile (Not \<circ> isspace) w in
      if word = [] then [] else word # c_words (drop (length word) w))"
  by pat_completeness auto
termination
proof (relation "measure length")
  fix cs w word
  assume "w = dropWhile isspace cs" "word = takeWhile (Not \<circ> isspace) w" "word \<noteq> []"
  then show "(drop (length word) w, cs) \<in> measure length"
    using length_dropWhile_le [of isspace cs] length_takeWhile_le [of "Not \<circ> isspace" w] diff_less [of "length word" "length w"]
    by (auto simp flip: length_greater_0_conv)
qed simp

declare c_words.simps [simp del]

text \<open>The line at both ends, for one word.\<close>

definition echo_calls :: "u8 list \<Rightarrow> syscall list" where
  "echo_calls word = [Poll_ret 1 True False, Read_ret word, Poll_ret 0 False False, Poll_ret 1 True False, Write_ret 256]"

definition send_calls :: "u8 list \<Rightarrow> syscall list" where
  "send_calls word = [Poll_ret 1 True False, Write_ret 256, Poll_ret 1 True False, Read_ret word, Poll_ret 0 False False]"

fun echo_paced :: "nat \<Rightarrow> nat stream \<Rightarrow> int stream \<Rightarrow> nat \<Rightarrow> bool" where
  "echo_paced timeout rand c 0 = True"
| "echo_paced timeout rand c (Suc n) =
     (settles c (int (shd rand mod timeout)) \<and> echo_paced timeout (stl (stl rand)) (sdrop 5 c) n)"

fun send_paced :: "int \<Rightarrow> int stream \<Rightarrow> nat \<Rightarrow> bool" where
  "send_paced timeout c 0 = True"
| "send_paced timeout c (Suc n) = (settles (sdrop 2 c) timeout \<and> send_paced timeout (sdrop 5 c) n)"

lemma write_all_at_once:
  assumes "calls w = Poll_ret 1 True False # Write_ret 256 # cs" and "b < length buf" and "length buf - b \<le> 256"
    and "0 \<le> timeout"
  shows "\<exists>w'. write_all w buf (int b) timeout = Inr w' \<and> wire w' = wire w @ drop b buf \<and> calls w' = cs \<and>
    clock w' = sdrop 2 (clock w)"
proof -
  let ?w = "snd (timestamp_us w)"
  let ?v = "snd (timestamp_us (?w\<lparr>calls := Write_ret 256 # cs\<rparr>))"
  let ?u = "?v\<lparr>calls := cs, wire := wire w @ drop b buf\<rparr>"
  have "sys_poll ?w False False = Inr (?w\<lparr>calls := Write_ret 256 # cs\<rparr>, 1, True, False)"
    using assms(1) by (simp add: sys_poll_def)
  moreover have "tty_write_ready ?v buf (int b) = Inr (?u, int (length buf))"
    using load_from_ok [of b "length buf - b" buf] assms(2,3)
    by (simp add: tty_write_ready_def sys_write_def Let_def min_absorb2 flip: of_nat_diff)
  ultimately have "tty_write_from w buf (int b) timeout = Inr (?u, int (length buf), False)"
    using assms(2,4)
    by (simp add: tty_write_from_def Let_def split_beta tty_write_loop.simps [of _ _ "int b"]
        tty_write_loop.simps [of _ _ "int (length buf)"])
  then show ?thesis
    using assms(2) by (simp add: write_all.simps [of w] write_all.simps [of _ buf "int (length buf)"])
      (simp add: timestamp_us_def numeral_2_eq_2)
qed

lemma length_stop [simp]: "length stop_text = 5"
  by (simp add: stop_text_def c_string_def)

lemma async_echo_round:
  assumes "calls w = echo_calls word @ cs" and "word \<noteq> []" and "length word < length buf" and "length buf \<le> 256"
    and "settles (clock w) (int (shd rand mod timeout))"
  shows "\<exists>w'. async_echo rand timeout w buf =
      (if stop_text = take 5 (overwrite buf 0 word) then Inr w'
       else async_echo (stl (stl rand)) timeout w' (overwrite buf 0 word)) \<and>
    wire w' = wire w @ word \<and> calls w' = cs \<and> clock w' = sdrop 5 (clock w)"
proof -
  have ne: "buf \<noteq> []" using assms(3) by auto
  have "calls w = Poll_ret 1 True False # Read_ret word # Poll_ret 0 False False # Poll_ret 1 True False # Write_ret 256 # cs"
    using assms(1) by (simp add: echo_calls_def)
  from tty_read_settles [OF this assms(2,3) _ assms(5)] obtain v where
    v: "tty_read w buf (int (shd rand mod timeout)) False = Inr (v, overwrite buf 0 word, int (length word), False)"
      "wire v = wire w" "calls v = Poll_ret 1 True False # Write_ret 256 # cs" "clock v = sdrop 3 (clock w)"
    by auto
  have some: "read_some w buf (int (shd rand mod timeout)) = Inr (v, overwrite buf 0 word, int (length word))"
    using v(1) ne assms(2) by (simp add: read_some.simps [of w] tty_from_start)
  have sent: "take (length word) (overwrite buf 0 word) = word" using assms(3) by (simp add: overwrite_0)
  from write_all_at_once [OF v(3), of 0 word "int (shd (stl rand) mod timeout)"] assms(2-4) obtain u where
    "write_all v word 0 (int (shd (stl rand) mod timeout)) = Inr u" "wire u = wire v @ word" "calls u = cs"
    "clock u = sdrop 2 (clock v)" by auto
  with v some sent show ?thesis
    by (intro exI [of _ u]) (simp add: async_echo.simps [of rand] Let_def)
qed

text \<open>Words that do not begin like \<open>STOP\<close> are all echoed, until \<open>STOP\<close> comes.\<close>

lemma async_echo_words:
  assumes "calls w = concat (map echo_calls (words @ [stop_text])) @ cs"
    and "\<forall>x\<in>set words. x \<noteq> [] \<and> hd x \<noteq> hd stop_text \<and> length x < 255" and "length buf = 255"
    and "echo_paced timeout rand (clock w) (Suc (length words))"
  shows "\<exists>w'. async_echo rand timeout w buf = Inr w' \<and> wire w' = wire w @ concat words @ stop_text \<and> calls w' = cs"
  using assms
proof (induction words arbitrary: w buf rand)
  case Nil
  from async_echo_round [of w stop_text cs buf rand timeout] Nil show ?case
    by (auto simp: overwrite_0 simp flip: length_greater_0_conv)
next
  case (Cons x words)
  from async_echo_round [of w x "concat (map echo_calls (words @ [stop_text])) @ cs" buf rand timeout] Cons.prems
  obtain v where v: "async_echo rand timeout w buf =
      (if stop_text = take 5 (overwrite buf 0 x) then Inr v
       else async_echo (stl (stl rand)) timeout v (overwrite buf 0 x))"
    "wire v = wire w @ x" "calls v = concat (map echo_calls (words @ [stop_text])) @ cs" "clock v = sdrop 5 (clock w)"
    by auto
  have "hd (take 5 (overwrite buf 0 x)) = hd x"
    using Cons.prems(2,3) by (cases x) (simp_all add: overwrite_0)
  then have "stop_text \<noteq> take 5 (overwrite buf 0 x)" using Cons.prems(2) by (metis list.set_intros(1))
  with v Cons.IH [OF v(3), of "overwrite buf 0 x" "stl (stl rand)"] Cons.prems(2-4) show ?case
    by (auto simp: overwrite_0)
qed

text \<open>The other side sends all words of its message, and each comes back.\<close>

lemma read_echo_word:
  assumes "calls w = Poll_ret 1 True False # Read_ret word # Poll_ret 0 False False # cs" and "word \<noteq> []"
    and "length word < 255" and "0 \<le> timeout" and "settles (clock w) timeout"
  shows "\<exists>w'. read_echo w (replicate 255 0) 0 (length word) timeout =
      Inr (w', overwrite (replicate 255 0) 0 word, int (length word)) \<and>
    wire w' = wire w \<and> calls w' = cs \<and> clock w' = sdrop 3 (clock w)"
proof -
  from tty_read_settles [OF assms(1,2) _ assms(4,5), of "replicate 255 0"] assms(3) obtain v where
    "tty_read w (replicate 255 0) timeout False = Inr (v, overwrite (replicate 255 0) 0 word, int (length word), False)"
    "wire v = wire w" "calls v = cs" "clock v = sdrop 3 (clock w)" by auto
  then show ?thesis
    using assms(2) by (simp add: read_echo.simps [of w] read_echo.simps [of _ _ "int (length word)"] tty_from_start)
qed

lemma send_words_step:
  assumes "b = p + length (takeWhile isspace (drop p msg))" and "word = takeWhile (Not \<circ> isspace) (drop b msg)"
    and "word \<noteq> []" and "length word < 255" and "p < length msg"
    and "write_all w (take (b + length word) msg) (int b) timeout = Inr v"
    and "read_echo v (replicate 255 0) 0 (length word) timeout = Inr (u, overwrite (replicate 255 0) 0 word, int (length word))"
    and "send_words u msg (b + length word) timeout = Inr (x, True)"
  shows "send_words w msg p timeout = Inr (x, True)"
proof -
  have "take (length word) (drop b msg) = word"
    unfolding assms(2) by (metis append_eq_conv_conj takeWhile_dropWhile_id)
  with assms(3-8) show ?thesis
    by (subst send_words.simps) (simp add: Let_def overwrite_0 flip: assms(1) assms(2))
qed

lemma c_words_step:
  assumes "b = p + length (takeWhile isspace (drop p msg))" and "word = takeWhile (Not \<circ> isspace) (drop b msg)"
  shows "c_words (drop p msg) = (if word = [] then [] else word # c_words (drop (b + length word) msg))"
    and "drop b (take (b + length word) msg) = word" and "word \<noteq> [] \<Longrightarrow> p < length msg \<and> b + length word \<le> length msg"
proof -
  have skip: "dropWhile isspace (drop p msg) = drop b msg"
    by (simp add: dropWhile_eq_drop add.commute assms(1))
  show "c_words (drop p msg) = (if word = [] then [] else word # c_words (drop (b + length word) msg))"
    by (subst c_words.simps) (simp add: skip Let_def add.commute flip: assms(2))
  have take: "take (length word) (drop b msg) = word"
    unfolding assms(2) by (metis append_eq_conv_conj takeWhile_dropWhile_id)
  then show "drop b (take (b + length word) msg) = word" by (simp add: drop_take)
  assume "word \<noteq> []"
  then have "b < length msg" using take by (cases "b < length msg") auto
  moreover have "length word \<le> length msg - b" using arg_cong [OF take, of length] by simp
  ultimately show "p < length msg \<and> b + length word \<le> length msg" using assms(1) by simp
qed

lemma send_words_echoed:
  assumes "calls w = concat (map send_calls (c_words (drop p msg))) @ cs"
    and "\<forall>x\<in>set (c_words (drop p msg)). length x < 255" and "send_paced timeout (clock w) (length (c_words (drop p msg)))"
    and "0 \<le> timeout"
  shows "\<exists>w'. send_words w msg p timeout = Inr (w', True) \<and> wire w' = wire w @ concat (c_words (drop p msg)) \<and> calls w' = cs"
  using assms
proof (induction "length msg - p" arbitrary: w p rule: less_induct)
  case less
  define b where b: "b = p + length (takeWhile isspace (drop p msg))"
  define word where word: "word = takeWhile (Not \<circ> isspace) (drop b msg)"
  note step = c_words_step [OF b word]
  show ?case
  proof (cases "word = []")
    case True
    with less.prems(1) step(1) have "calls w = cs" "c_words (drop p msg) = []" by auto
    moreover from True have "send_words w msg p timeout = Inr (w, True)"
      by (subst send_words.simps) (simp add: Let_def flip: b word)
    ultimately show ?thesis by simp
  next
    case False
    let ?e = "b + length word"
    note in_msg = step(3) [OF False]
    let ?cs = "concat (map send_calls (c_words (drop ?e msg))) @ cs"
    from less.prems(1-3) False step(1) have calls: "calls w = Poll_ret 1 True False # Write_ret 256 #
        Poll_ret 1 True False # Read_ret word # Poll_ret 0 False False # ?cs"
      and len: "length word < 255" and paced: "settles (sdrop 2 (clock w)) timeout"
        "send_paced timeout (sdrop 5 (clock w)) (length (c_words (drop ?e msg)))"
      and rest: "\<forall>x\<in>set (c_words (drop ?e msg)). length x < 255"
      by (simp_all add: send_calls_def)
    from write_all_at_once [OF calls, of b "take ?e msg" timeout] False in_msg len less.prems(4) step(2) obtain v where
      v: "write_all w (take ?e msg) (int b) timeout = Inr v" "wire v = wire w @ word" "clock v = sdrop 2 (clock w)"
        "calls v = Poll_ret 1 True False # Read_ret word # Poll_ret 0 False False # ?cs"
      by (auto simp: min_absorb2)
    from read_echo_word [OF v(4) False len less.prems(4)] v(3) paced(1) obtain u where
      u: "read_echo v (replicate 255 0) 0 (length word) timeout = Inr (u, overwrite (replicate 255 0) 0 word, int (length word))"
        "wire u = wire v" "calls u = ?cs" "clock u = sdrop 3 (clock v)"
      by auto
    have "length msg - ?e < length msg - p" using b False in_msg by (cases word) auto
    from less.hyps [OF this u(3) rest _ less.prems(4)] paced(2) u(4) v(3) obtain x where
      x: "send_words u msg ?e timeout = Inr (x, True)" "wire x = wire u @ concat (c_words (drop ?e msg))" "calls x = cs"
      by auto
    from send_words_step [OF b word False len _ v(1) u(1) x(1)] x v(2) u(2) in_msg step(1) False show ?thesis by auto
  qed
qed

text \<open>The whole test, on a line that brings each word to the thread and back.\<close>

lemma echo_words: "c_words echo_message = map (map of_char) [''***'', ''hello'', ''on'', ''other'', ''side!'', ''?'', ''?'', ''12'',
    ''_'', ''$'', ''test'', ''message'', ''***''] @ [stop_text]"
  by (simp add: echo_message_def c_string_def stop_text_def isspace_def c_words.simps Let_def)

lemma echo_test_passes:
  assumes "calls master = concat (map send_calls (c_words echo_message))" and "send_paced 10 (clock master) 14"
    and "calls slave = concat (map echo_calls (c_words echo_message))" and "echo_paced 20 rand (clock slave) 14"
  shows "\<exists>m s. echo_test rand master slave = Inr (m, s, True) \<and> wire m = wire master @ concat (c_words echo_message) \<and>
    wire s = wire slave @ concat (c_words echo_message)"
proof -
  obtain words where words: "c_words echo_message = words @ [stop_text]" "length words = 13"
    "\<forall>x\<in>set words. x \<noteq> [] \<and> hd x \<noteq> hd stop_text \<and> length x < 255"
    by (rule that [OF echo_words]) (simp_all add: stop_text_def c_string_def)
  then have n: "length (c_words echo_message) = 14" "\<forall>x\<in>set (c_words echo_message). length x < 255" by auto
  from send_words_echoed [of master 0 echo_message "[]" 10] assms(1,2) n obtain m where
    "send_words master echo_message 0 10 = Inr (m, True)" "wire m = wire master @ concat (c_words echo_message)" by auto
  moreover from async_echo_words [of slave words "[]" "replicate 255 0" 20 rand] assms(3,4) words obtain s where
    "async_echo rand 20 slave (replicate 255 0) = Inr s" "wire s = wire slave @ concat (c_words echo_message)" by auto
  ultimately show ?thesis by (simp add: echo_test_def)
qed

text \<open>
  The thread looks for \<open>STOP\<close> at the start of what one read gave it: when the word comes in two
  reads it is echoed, but the thread reads on.
\<close>

lemma stop_in_two_reads:
  assumes "calls w = echo_calls (take 2 stop_text) @ echo_calls (drop 2 stop_text)"
    and "echo_paced timeout rand (clock w) 2" and "0 < timeout"
  shows "async_echo rand timeout w (replicate 255 0) = Inl OutOfFuel"
proof -
  have stop: "stop_text = [83, 84, 79, 80, 0]" by (simp add: stop_text_def c_string_def)
  let ?buf = "replicate 255 (0 :: u8)"
  let ?buf1 = "overwrite ?buf 0 [83, 84]" and ?buf2 = "overwrite (overwrite ?buf 0 [83, 84]) 0 [79, 80, 0]"
  have paced: "settles (clock w) (int (shd rand mod timeout))"
    "settles (sdrop 5 (clock w)) (int (shd (stl (stl rand)) mod timeout))"
    using assms(2) by (simp_all add: numeral_2_eq_2)
  have "xs ! 2 = 79" if "stop_text = take 5 xs" for xs using arg_cong [OF that, of "\<lambda>l. l ! 2"] by (simp add: stop)
  moreover have "?buf1 ! 2 = 0" "?buf2 ! 2 = 0" by (simp_all add: overwrite_0 nth_append)
  ultimately have go_on: "stop_text \<noteq> take 5 ?buf1" "stop_text \<noteq> take 5 ?buf2" by auto
  have calls: "calls w = echo_calls [83, 84] @ echo_calls [79, 80, 0]" using assms(1) by (simp add: stop)
  from async_echo_round [OF calls _ _ _ paced(1), of ?buf] go_on(1) obtain v where
    v: "async_echo rand timeout w ?buf = async_echo (stl (stl rand)) timeout v ?buf1"
      "calls v = echo_calls [79, 80, 0] @ []" "clock v = sdrop 5 (clock w)" by (simp del: take_replicate) blast
  from async_echo_round [OF v(2), of ?buf1 "stl (stl rand)" timeout] paced(2) v(3) go_on(2) obtain u where
    u: "async_echo (stl (stl rand)) timeout v ?buf1 = async_echo (stl (stl (stl (stl rand)))) timeout u ?buf2" "calls u = []"
    by (simp add: overwrite_0 del: take_replicate) blast
  have "tty_read_from u buf 0 t = Inl OutOfFuel" if "buf \<noteq> []" "0 \<le> t" for buf t
    using that u(2) by (simp add: tty_read_from_def Let_def split_beta tty_read_loop.simps [of _ _ 0] sys_poll_def)
  then have "async_echo r timeout u buf = Inl OutOfFuel" if "buf \<noteq> []" for r buf
    using that by (simp add: async_echo.simps [of r] read_some.simps [of u] Let_def)
  then show ?thesis unfolding v(1) u(1) by (simp add: overwrite_0)
qed

end
