(* ===== verification/Memory_Builds.thy ===== *)
theory Memory_Builds
  imports Memory_Properties
begin

text \<open>
  What a build chooses of the memory: the functions of \<open>rtu_memory.c\<close> it leaves out
  (\<open>MODBUS_RTU_MEMORY_..._DISABLED\<close>), and the place of the header, the bytes and the log in
  \<open>rtu_memory_impl_t\<close> (\<open>atmega328p/rtu_memory_impl.h\<close>, \<open>linux/rtu_impl.h\<close>).
\<close>

section \<open>Functions that are left out\<close>

record memory_build =
  RD_HOLDING_REGISTERS_DISABLED :: bool
  WR_REGISTER_DISABLED :: bool
  WR_REGISTERS_DISABLED :: bool

definition build_pdu_cb :: "memory_build \<Rightarrow> rtu_memory \<Rightarrow> u8 list \<Rightarrow> u8 \<Rightarrow> nat \<Rightarrow> nat \<Rightarrow> nat \<Rightarrow> cursor
    \<Rightarrow> (rtu_memory \<times> cursor) res" where
  "build_pdu_cb B m rx fcode from to at dst =
     (if \<not> RD_HOLDING_REGISTERS_DISABLED B \<and> FCODE_RD_HOLDING_REGISTERS = fcode then read_n16 m rx from to at dst
      else if \<not> WR_REGISTER_DISABLED B \<and> FCODE_WR_REGISTER = fcode then write_16 m rx from to at dst
      else if \<not> WR_REGISTERS_DISABLED B \<and> FCODE_WR_REGISTERS = fcode then write_n16 m rx from to at dst
      else if FCODE_RD_BYTES = fcode then read_n8 m rx from to at dst
      else if FCODE_WR_BYTES = fcode then write_n8 m rx from to at dst
      else return_except m fcode ECODE_ILLEGAL_FUNCTION dst)"

definition build_has :: "memory_build \<Rightarrow> u8 \<Rightarrow> bool" where
  "build_has B f = (supported_fcode f \<and> \<not> (f = FCODE_RD_HOLDING_REGISTERS \<and> RD_HOLDING_REGISTERS_DISABLED B) \<and>
     \<not> (f = FCODE_WR_REGISTER \<and> WR_REGISTER_DISABLED B) \<and> \<not> (f = FCODE_WR_REGISTERS \<and> WR_REGISTERS_DISABLED B))"

text \<open>
  A build does with the functions it has what the full build does, so the properties of
  \<open>rtu_memory_pdu_cb\<close> hold for them; all others it refuses and stores nothing.
\<close>

lemma build_like_full:
  assumes "build_has B f"
  shows "build_pdu_cb B m rx f from to at dst = rtu_memory_pdu_cb m rx f from to at dst"
  using assms by (auto simp: build_pdu_cb_def rtu_memory_pdu_cb_def build_has_def)

lemma build_refuses:
  assumes "\<not> build_has B f" and "r + 2 \<le> length tx"
  shows "build_pdu_cb B m rx f from to at (tx, r) = Inr (m, overwrite tx r [f + 0x80, ECODE_ILLEGAL_FUNCTION], r + 2)"
  using assms by (auto simp: build_pdu_cb_def build_has_def supported_fcode_def answer_ok)

lemma full_build_refuses:
  assumes "f \<in> {FCODE_INVALID, FCODE_RD_INPUT, FCODE_RD_COILS, FCODE_WR_COIL, FCODE_WR_COILS, FCODE_RD_IN_REGISTERS,
      FCODE_RD_WR_REGISTERS, FCODE_MWR_REGISTER, FCODE_RD_FIFO, FCODE_RD_FILE, FCODE_WR_FILE, FCODE_RD_EXCEPTION_STATUS,
      FCODE_DIAGNOSTIC, FCODE_GET_COM_EVENT_CNTR, FCODE_GET_COM_EVENT_LOG, FCODE_REPORT_SERVER_ID, FCODE_RD_DEVICE_ID}"
    and "r + 2 \<le> length tx"
  shows "rtu_memory_pdu_cb m rx f from to at (tx, r) = Inr (m, overwrite tx r [f + 0x80, ECODE_ILLEGAL_FUNCTION], r + 2)"
  using assms by (auto simp: rtu_memory_pdu_cb_def answer_ok)

section \<open>The layout of the memory\<close>

text \<open>
  Offsets in \<open>rtu_memory_impl_t\<close>: \<open>priv\<close> is a byte, \<open>header\<close> two words that are aligned
  at \<open>align\<close> bytes, the union has the alignment of \<open>char\<close>. \<open>mem_size\<close> and \<open>tlog_size\<close> are
  \<open>RTU_MEMORY_SIZE\<close> and \<open>TLOG_SIZE\<close>. On the ATmega the log is the end of the bytes, on Linux their begin,
  and the larger of the two there.
\<close>

definition sizeof_priv :: nat where "sizeof_priv = 1"
definition sizeof_header :: nat where "sizeof_header = 2 + 2"

definition align_up :: "nat \<Rightarrow> nat \<Rightarrow> nat" where "align_up a n = (n + a - 1) div a * a"

definition offsetof_header :: "nat \<Rightarrow> nat" where "offsetof_header align = align_up align sizeof_priv"
definition offsetof_bytes :: "nat \<Rightarrow> nat" where "offsetof_bytes align = offsetof_header align + sizeof_header"

definition avr_offsetof_tlog :: "nat \<Rightarrow> nat \<Rightarrow> nat \<Rightarrow> nat" where
  "avr_offsetof_tlog align mem_size tlog_size = offsetof_bytes align + (mem_size - tlog_size)"

definition linux_sizeof_union :: "nat \<Rightarrow> nat \<Rightarrow> nat" where
  "linux_sizeof_union mem_size tlog_size = max tlog_size mem_size"

definition RTU_MEM_OFFSET :: nat where "RTU_MEM_OFFSET = sizeof_priv + sizeof_header"

text \<open>\<open>VALIDATE_RTU_MEM_OFFSET\<close>, with \<open>offsetof\<close> of the field.\<close>

definition VALIDATE_RTU_MEM_OFFSET :: "nat \<Rightarrow> nat \<Rightarrow> bool" where
  "VALIDATE_RTU_MEM_OFFSET field offset = (field = sizeof_priv + sizeof_header + offset)"

lemmas layout_defs = sizeof_priv_def sizeof_header_def align_up_def offsetof_header_def offsetof_bytes_def
  avr_offsetof_tlog_def RTU_MEM_OFFSET_def VALIDATE_RTU_MEM_OFFSET_def

text \<open>
  The assertions of the header hold with the sizes of \<open>rtu_atmega328p.mk\<close> on a target that does not
  align words, as AVR does not, and on no other: the struct of the Linux build has a gap behind \<open>priv\<close>.
\<close>

lemma avr_layout: "VALIDATE_RTU_MEM_OFFSET (offsetof_bytes 1) 0" "VALIDATE_RTU_MEM_OFFSET (avr_offsetof_tlog 1 1024 200) 824"
  by (simp_all add: layout_defs)

lemma bytes_behind_offset:
  assumes "0 < align"
  shows "VALIDATE_RTU_MEM_OFFSET (offsetof_bytes align) 0 \<longleftrightarrow> align = 1"
proof -
  have "align div align * align = align" using assms by simp
  then show ?thesis by (simp add: layout_defs)
qed

text \<open>
  The log of the ATmega lies in the window that the slave serves: its byte \<open>i\<close> has an address of its own, which a master
  can read and write like any other.
\<close>

lemma tlog_in_window:
  assumes "tlog_size \<le> mem_size" and "i < tlog_size" and "unat addr + mem_size < 2 ^ 16"
    and "addr_begin m = addr" and "addr_end m = addr + word_of_nat mem_size"
  shows "mem_abs m (unat addr + (mem_size - tlog_size + i)) = Some (mem_bytes m ! (mem_size - tlog_size + i)) \<and>
    avr_offsetof_tlog align mem_size tlog_size + i = offsetof_bytes align + (mem_size - tlog_size + i)"
proof -
  have "unat (word_of_nat mem_size :: u16) = mem_size" using assms(3) by (simp add: unat_of_nat)
  then have "unat (addr + word_of_nat mem_size) = unat addr + mem_size" using assms(3) by (subst unat_add_lem [THEN iffD1]) simp_all
  moreover have "mem_size - tlog_size + i < mem_size" using assms(1,2) by arith
  ultimately show ?thesis using assms(4,5) by (simp only: mem_abs_def avr_offsetof_tlog_def) simp
qed

end
