(* ===== verification/Rtu_Status.thy ===== *)
theory Rtu_Status
  imports Rtu_Invariant
begin

text \<open>
  The status of the machine as its byte, the union \<open>modbus_rtu_status_t\<close> of \<open>rtu.h\<close>, which the log of the
  ATmega328P prints (\<open>atmega328p/rtu_log_impl.h\<close>), and the state diagram of the documentation
  (\<open>diagrams/state_machine.puml\<close>).
\<close>

section \<open>The byte of the status\<close>

text \<open>
  \<open>value\<close> of the union: its bit fields lie from the low bit on, as \<open>gcc\<close> lays them out on the little-endian targets of
  all builds.
\<close>

definition status_value :: "modbus_rtu_status \<Rightarrow> u8" where
  "status_value st =
     of_bool (updated st) OR push_bit 1 (of_bool (st_error st)) OR push_bit 2 (ucast (st_prev st)) OR
     push_bit 5 (ucast (st_curr st))"

text \<open>And back, through \<open>bits\<close>.\<close>

definition status_bits :: "u8 \<Rightarrow> modbus_rtu_status" where
  "status_bits b = \<lparr>updated = bit b 0, st_error = bit b 1, st_prev = ucast (drop_bit 2 b), st_curr = ucast (drop_bit 5 b)\<rparr>"

lemma bit_status_value:
  "bit (status_value st) n \<longleftrightarrow>
     n = 0 \<and> updated st \<or> n = 1 \<and> st_error st \<or> 2 \<le> n \<and> n < 5 \<and> bit (st_prev st) (n - 2) \<or>
     5 \<le> n \<and> n < 8 \<and> bit (st_curr st) (n - 5)"
proof -
  have "bit (st_prev st) (n - 2) \<Longrightarrow> n < 5" "bit (st_curr st) (n - 5) \<Longrightarrow> n < 8"
    using bit_imp_le_length [of "st_prev st" "n - 2"] bit_imp_le_length [of "st_curr st" "n - 5"] by simp_all
  then show ?thesis by (auto simp: status_value_def bit_simps)
qed

lemma bits_of_value: "status_bits (status_value st) = st"
proof -
  have "ucast (drop_bit 2 (status_value st)) = st_prev st" "ucast (drop_bit 5 (status_value st)) = st_curr st"
    by (rule bit_word_eqI; simp add: bit_status_value bit_simps)+
  then show ?thesis by (simp add: status_bits_def bit_status_value)
qed

lemma value_of_bits: "status_value (status_bits b) = b"
proof (rule bit_word_eqI)
  fix n assume "n < LENGTH(8)"
  then consider "n = 0" | "n = 1" | k where "n = 2 + k" "k < 3" | k where "n = 5 + k" "k < 3"
    using le_Suc_ex [of 2 n] le_Suc_ex [of 5 n] by force
  then show "bit (status_value (status_bits b)) n = bit b n"
    by cases (simp_all add: bit_status_value status_bits_def bit_simps)
qed

text \<open>The two macros on the byte: an error sets its two low bits, a transition moves \<open>curr\<close> to \<open>prev\<close>.\<close>

lemma status_value_macros:
  "status_value (RTU_STATE_ERROR st) = status_value st OR 3"
  "status_value (RTU_STATE_UPDATE st new) =
     (status_value st AND 2) OR 1 OR (drop_bit 3 (status_value st) AND 0x1C) OR push_bit 5 (ucast new)"
proof -
  have "n < 8 \<Longrightarrow> (bit (3 :: u8) n \<longleftrightarrow> n = 0 \<or> n = 1) \<and> (bit (2 :: u8) n \<longleftrightarrow> n = 1) \<and> (bit (1 :: u8) n \<longleftrightarrow> n = 0) \<and>
      (bit (0x1C :: u8) n \<longleftrightarrow> n = 2 \<or> n = 3 \<or> n = 4)" for n
    by (auto simp: less_Suc_eq numeral_eq_Suc)
  moreover have "bit b n \<Longrightarrow> n < 8" for b :: u8 and n using bit_imp_le_length [of b n] by simp
  ultimately have bits: "bit (3 :: u8) n \<longleftrightarrow> n = 0 \<or> n = 1" "bit (2 :: u8) n \<longleftrightarrow> n = 1" "bit (1 :: u8) n \<longleftrightarrow> n = 0"
      "bit (0x1C :: u8) n \<longleftrightarrow> n = 2 \<or> n = 3 \<or> n = 4" for n
    by (cases "n < 8"; auto)+
  show "status_value (RTU_STATE_ERROR st) = status_value st OR 3"
    by (rule bit_word_eqI) (simp only: bit_or_iff bits bit_status_value, auto simp: RTU_STATE_ERROR_def)
  show "status_value (RTU_STATE_UPDATE st new) =
     (status_value st AND 2) OR 1 OR (drop_bit 3 (status_value st) AND 0x1C) OR push_bit 5 (ucast new)"
    by (rule bit_word_eqI)
      (simp only: bit_or_iff bit_and_iff bits bit_push_bit_iff bit_drop_bit_eq o_def bit_ucast_iff bit_status_value,
       auto simp: RTU_STATE_UPDATE_def)
qed

text \<open>What the ATmega328P logs of an error, with the \<open>TLOG_XPRINT8\<close> of its driver; \<open>RTU_LOG_EVENT\<close> logs nothing there.\<close>

definition avr_RTU_LOG_ERROR :: "(string \<Rightarrow> u8 \<Rightarrow> 'log \<Rightarrow> 'log) \<Rightarrow> string \<Rightarrow> modbus_rtu_status \<Rightarrow> 'log \<Rightarrow> 'log" where
  "avr_RTU_LOG_ERROR TLOG_XPRINT8 str st = TLOG_XPRINT8 str (status_value st)"

definition avr_RTU_LOG_EVENT :: "string \<Rightarrow> modbus_rtu_status \<Rightarrow> 'log \<Rightarrow> 'log" where
  "avr_RTU_LOG_EVENT str st log = log"

section \<open>The state diagram\<close>

definition diagram :: "(rtu_state \<times> rtu_state) set" where
  "diagram =
     {(RTU_STATE_INIT, RTU_STATE_IDLE), (RTU_STATE_IDLE, RTU_STATE_SOF), (RTU_STATE_SOF, RTU_STATE_RECV),
      (RTU_STATE_RECV, RTU_STATE_RECV), (RTU_STATE_RECV, RTU_STATE_EOF), (RTU_STATE_EOF, RTU_STATE_IDLE),
      (RTU_STATE_IDLE, RTU_STATE_BUSY), (RTU_STATE_BUSY, RTU_STATE_INIT)} \<union>
     {(s, RTU_STATE_INIT) | s. s \<in> {RTU_STATE_INIT, RTU_STATE_SOF, RTU_STATE_RECV, RTU_STATE_EOF, RTU_STATE_BUSY}}"

text \<open>
  The edges of the code are those of the diagram and one more, from IDLE to INIT: a frame with a bad
  CRC and an error of the receiver between two frames restart the machine from IDLE.
\<close>

lemma states_up_to_BUSY: "st \<le> RTU_STATE_BUSY \<longleftrightarrow> st \<in> {0, 1, 2, 3, 4, 5}" for st :: rtu_state
proof -
  have "st = 0 \<or> st = 1 \<or> st = 2 \<or> st = 3 \<or> st = 4 \<or> st = 5 \<or> st = 6 \<or> st = 7"
    by (cases st) (auto simp: less_Suc_eq numeral_eq_Suc)
  then show ?thesis by auto
qed

lemma edges_of_diagram: "legal_edge p c \<longleftrightarrow> (p, c) \<in> diagram \<or> (p, c) = (RTU_STATE_IDLE, RTU_STATE_INIT)"
  unfolding legal_edge_def states_up_to_BUSY diagram_def by auto

context rtu_platform
begin

lemma idle_error_edge:
  assumes "good (user_data s)" and "curr_st s = RTU_STATE_IDLE"
  shows "\<exists>s'. modbus_rtu_event P (serial_recv_err_cb s b) = Inr s' \<and> prev_st s' = RTU_STATE_IDLE \<and> curr_st s' = RTU_STATE_INIT"
proof -
  let ?s = "s\<lparr>serial_recv_err_cntr := serial_recv_err_cntr s + 1, err_cntr := err_cntr s + 1,
    status := \<lparr>updated = False, st_error = False, st_prev = RTU_STATE_IDLE, st_curr = RTU_STATE_INIT\<rparr>\<rparr>"
  have "modbus_rtu_event P (serial_recv_err_cb s b) = event_restart P ?s"
    using assms(2)
    by (cases "status s")
      (simp add: serial_recv_err_cb_def modbus_rtu_event_def event_dispatch_def event_error_def state_defs)
  with event_restart_ok [of ?s] assms(1) show ?thesis by auto
qed

end

end
