(* ===== verification/Linux_Log.thy ===== *)
theory Linux_Log
  imports Linux_Utils Rtu_Status
begin

text \<open>
  The log of a Linux process and the checks that write to it: \<open>linux/log.h\<close> with the initialisation of
  \<open>linux/log.c\<close>, \<open>linux/check.h\<close>, and the macros of \<open>linux/rtu_log_impl.h\<close>.

  A macro that logs or leaves its function is a function on the output of the process. The text that a call site
  passes is given with its arguments filled in.
\<close>

section \<open>Messages (\<open>log.h\<close>, \<open>log.c\<close>)\<close>

text \<open>
  What a process has of its log: its environment variable, the level once it is initialised, its numbers and the
  two streams. \<open>fflush\<close> follows every line, so a line is on its stream at once.
\<close>

record log_io =
  env_LOG_LEVEL :: "string option"
  log_level_initialized :: bool
  curr_log_level :: int
  io_pid :: int
  io_tid :: int
  io_stdout :: string
  io_stderr :: string

text \<open>\<open>BASE_FILE_NAME\<close>, \<open>__LINE__\<close> and \<open>__func__\<close> of a call.\<close>

record call_site =
  site_file :: string
  site_line :: nat
  site_func :: string

datatype stream_name = Stdout | Stderr

text \<open>How a process ends in these macros; the text of a failed \<open>assert\<close> is that of the C library.\<close>

datatype process_end = Exit_failure | Abort | Assertion string

type_synonym 'a logged = "(process_end \<times> log_io) + 'a"

fun put_line :: "stream_name \<Rightarrow> string \<Rightarrow> log_io \<Rightarrow> log_io" where
  "put_line Stdout s w = w\<lparr>io_stdout := io_stdout w @ s\<rparr>"
| "put_line Stderr s w = w\<lparr>io_stderr := io_stderr w @ s\<rparr>"

definition log_line :: "log_io \<Rightarrow> string \<Rightarrow> call_site \<Rightarrow> string \<Rightarrow> string" where
  "log_line w prefix c msg =
     ''['' @ dec_int (io_pid w) @ '':'' @ dec_int (io_tid w) @ '':'' @ prefix @ ''] '' @ site_file c @ '':'' @
     dec (site_line c) @ '' '' @ site_func c @ '' '' @ msg @ [CHR 0x0A]"

definition LOG_IMPL :: "stream_name \<Rightarrow> string \<Rightarrow> call_site \<Rightarrow> string \<Rightarrow> log_io \<Rightarrow> log_io" where
  "LOG_IMPL dst prefix c msg w = put_line dst (log_line w prefix c msg) w"

definition logA :: "call_site \<Rightarrow> string \<Rightarrow> log_io \<Rightarrow> log_io" where "logA = LOG_IMPL Stdout ''A''"

text \<open>\<open>log_level_init\<close> with its messages, called by \<open>pthread_once\<close>.\<close>

definition log_level_once :: "log_io \<Rightarrow> log_io logged" where
  "log_level_once w =
     (let site = (\<lambda>line. \<lparr>site_file = ''log.c'', site_line = line, site_func = ''log_level_init''\<rparr>)
      in if log_level_initialized w then Inr w
      else case log_level_init (env_LOG_LEVEL w) (curr_log_level w) of
        None \<Rightarrow> Inl (Exit_failure, logA (site 25) (''unsupported '' @ the (env_LOG_LEVEL w)) w)
      | Some l \<Rightarrow>
          let w = w\<lparr>log_level_initialized := True, curr_log_level := l\<rparr>
          in Inr (case env_LOG_LEVEL w of
                    None \<Rightarrow> w
                  | Some s \<Rightarrow> logA (site 28) (s @ '' ('' @ dec_int l @ '')'') w))"

definition log_if :: "stream_name \<Rightarrow> log_level_t \<Rightarrow> string \<Rightarrow> call_site \<Rightarrow> string \<Rightarrow> log_io \<Rightarrow> log_io logged" where
  "log_if dst level prefix c msg w =
     (case log_level_once w of
        Inl e \<Rightarrow> Inl e
      | Inr w \<Rightarrow> Inr (if LOG_IF_IMPL (curr_log_level w) level then LOG_IMPL dst prefix c msg w else w))"

definition logE :: "call_site \<Rightarrow> string \<Rightarrow> log_io \<Rightarrow> log_io logged" where "logE = log_if Stderr LOG_LEVEL_ERROR ''E''"
definition logW :: "call_site \<Rightarrow> string \<Rightarrow> log_io \<Rightarrow> log_io logged" where "logW = log_if Stderr LOG_LEVEL_WARNING ''W''"
definition logI :: "call_site \<Rightarrow> string \<Rightarrow> log_io \<Rightarrow> log_io logged" where "logI = log_if Stdout LOG_LEVEL_INFO ''I''"
definition logD :: "call_site \<Rightarrow> string \<Rightarrow> log_io \<Rightarrow> log_io logged" where "logD = log_if Stdout LOG_LEVEL_DEBUG ''D''"
definition logT :: "call_site \<Rightarrow> string \<Rightarrow> log_io \<Rightarrow> log_io logged" where "logT = log_if Stdout LOG_LEVEL_TRACE ''T''"

lemmas log_defs = logE_def logW_def logI_def logD_def logT_def

text \<open>The log of a process that runs with a level that is supported.\<close>

definition log_ready :: "log_io \<Rightarrow> bool" where
  "log_ready w = (if log_level_initialized w then 0 \<le> curr_log_level w \<and> curr_log_level w \<le> 4
     else curr_log_level w = initial_log_level \<and> current_log_level (env_LOG_LEVEL w) \<noteq> None)"

definition log_level_of :: "log_io \<Rightarrow> int" where
  "log_level_of w = (if log_level_initialized w then curr_log_level w else the (current_log_level (env_LOG_LEVEL w)))"

lemma put_line_simps [simp]:
  "log_level_initialized (put_line d s w) = log_level_initialized w" "curr_log_level (put_line d s w) = curr_log_level w"
  "env_LOG_LEVEL (put_line d s w) = env_LOG_LEVEL w"
  by (cases d; simp)+

lemma log_level_range: "current_log_level env = Some l \<Longrightarrow> 0 \<le> l \<and> l \<le> 4"
  by (auto simp: current_log_level_def log_level_init_def initial_log_level_def split: option.splits if_splits)

lemma log_level_of_range:
  assumes "log_ready w"
  shows "0 \<le> log_level_of w"
proof (cases "log_level_initialized w")
  case False
  with assms obtain l where "current_log_level (env_LOG_LEVEL w) = Some l" by (auto simp: log_ready_def)
  with log_level_range False show ?thesis by (auto simp: log_level_of_def)
qed (use assms in \<open>simp add: log_ready_def log_level_of_def\<close>)

lemma log_level_once_ready:
  assumes "log_ready w"
  shows "\<exists>w'. log_level_once w = Inr w' \<and> log_ready w' \<and> log_level_initialized w' \<and> log_level_of w' = log_level_of w \<and>
    curr_log_level w' = log_level_of w \<and> io_stderr w' = io_stderr w"
  using assms log_level_range
  by (auto simp: log_ready_def log_level_of_def log_level_once_def Let_def current_log_level_def logA_def LOG_IMPL_def
      split: option.split if_split_asm)

text \<open>
  A message is one line on its stream exactly when the level of the process lets it through; the process goes on, with
  the same level, and the second message does not initialise it again.
\<close>

lemma log_if_ready:
  assumes "log_ready w"
  obtains w1 w' where "log_level_once w = Inr w1" "io_stderr w1 = io_stderr w" "log_if d lv p c msg w = Inr w'"
    "w' = (if LOG_IF_IMPL (log_level_of w) lv then put_line d (log_line w1 p c msg) w1 else w1)"
    "log_ready w'" "log_level_of w' = log_level_of w" "log_level_once w' = Inr w'"
proof -
  from log_level_once_ready [OF assms] obtain w1 where
    w1: "log_level_once w = Inr w1" "log_ready w1" "log_level_initialized w1" "curr_log_level w1 = log_level_of w"
      "io_stderr w1 = io_stderr w"
    by blast
  then have "log_if d lv p c msg w =
      Inr (if LOG_IF_IMPL (log_level_of w) lv then put_line d (log_line w1 p c msg) w1 else w1)"
    by (simp add: log_if_def LOG_IMPL_def)
  with w1 that show thesis
    by (auto simp: log_ready_def log_level_of_def log_level_once_def split: if_split_asm)
qed

text \<open>Errors pass every level; at a level that is not supported the first message ends the process.\<close>

lemma logE_printed:
  assumes "log_ready w"
  shows "\<exists>w1 w'. logE c msg w = Inr w' \<and> io_stderr w' = io_stderr w @ log_line w1 ''E'' c msg \<and> log_ready w'"
proof -
  have "LOG_IF_IMPL (log_level_of w) LOG_LEVEL_ERROR"
    using log_level_of_range [OF assms] by (simp add: LOG_IF_IMPL_def)
  moreover from log_if_ready [OF assms, of Stderr LOG_LEVEL_ERROR "''E''" c msg] obtain w1 w' where
    "io_stderr w1 = io_stderr w" "log_if Stderr LOG_LEVEL_ERROR ''E'' c msg w = Inr w'" "log_ready w'"
    "w' = (if LOG_IF_IMPL (log_level_of w) LOG_LEVEL_ERROR then put_line Stderr (log_line w1 ''E'' c msg) w1 else w1)"
    by metis
  ultimately show ?thesis by (intro exI [of _ w1] exI [of _ w']) (simp add: logE_def)
qed

lemma unsupported_level_exits:
  assumes "env_LOG_LEVEL w = Some s" and "s \<notin> {''ERROR'', ''WARN'', ''INFO'', ''DEBUG'', ''TRACE''}" and "\<not> log_level_initialized w"
  shows "\<exists>w'. log_if d lv p c msg w = Inl (Exit_failure, w') \<and> io_stderr w' = io_stderr w"
  using assms by (auto simp: log_if_def log_level_once_def log_level_init_def Let_def logA_def LOG_IMPL_def)

section \<open>Checks (\<open>check.h\<close>)\<close>

text \<open>
  What follows a macro in its function: the next statement, a label or a return. \<open>STRINGIFY\<close> is done by the caller,
  who passes the text of the condition; \<open>ndebug\<close> says whether the build defines \<open>NDEBUG\<close>.
\<close>

datatype 'r follow = Next | Goto string | Return 'r

definition ABORT :: "bool \<Rightarrow> call_site \<Rightarrow> string \<Rightarrow> log_io \<Rightarrow> process_end \<times> log_io" where
  "ABORT ndebug c hint w =
     (if ndebug then (Abort, logA c (''aborting: '' @ hint) w) else (Assertion hint, w))"

definition CHECK :: "bool \<Rightarrow> call_site \<Rightarrow> bool \<Rightarrow> string \<Rightarrow> log_io \<Rightarrow> log_io logged" where
  "CHECK ndebug c cnd text w = (if cnd then Inr w else Inl (ABORT ndebug c text w))"

definition errno_text :: "(int \<Rightarrow> string) \<Rightarrow> string \<Rightarrow> int \<Rightarrow> string" where
  "errno_text strerror text errno = text @ '' '' @ strerror errno @ ''('' @ dec_int errno @ '')''"

text \<open>The text goes through \<open>STRINGIFY\<close> twice on its way to \<open>ABORT\<close>, which puts it in quotes.\<close>

definition CHECK_ERRNO2 :: "(int \<Rightarrow> string) \<Rightarrow> bool \<Rightarrow> call_site \<Rightarrow> bool \<Rightarrow> string \<Rightarrow> int \<Rightarrow> log_io \<Rightarrow> log_io logged" where
  "CHECK_ERRNO2 strerror ndebug c cnd text errno w =
     (if cnd then Inr w
      else case logE c (errno_text strerror text errno) w of
        Inl e \<Rightarrow> Inl e
      | Inr w \<Rightarrow> Inl (ABORT ndebug c ([CHR 0x22] @ text @ [CHR 0x22]) w))"

definition CHECK_ERRNO_GOTO :: "(int \<Rightarrow> string) \<Rightarrow> call_site \<Rightarrow> bool \<Rightarrow> string \<Rightarrow> int \<Rightarrow> string \<Rightarrow> log_io
    \<Rightarrow> ('r follow \<times> log_io) logged" where
  "CHECK_ERRNO_GOTO strerror c cnd text errno label w =
     (if cnd then Inr (Next, w)
      else case logE c (errno_text strerror text errno) w of Inl e \<Rightarrow> Inl e | Inr w \<Rightarrow> Inr (Goto label, w))"

definition CHECK_ERRNO_RETURN :: "(int \<Rightarrow> string) \<Rightarrow> call_site \<Rightarrow> bool \<Rightarrow> string \<Rightarrow> int \<Rightarrow> 'r \<Rightarrow> log_io
    \<Rightarrow> ('r follow \<times> log_io) logged" where
  "CHECK_ERRNO_RETURN strerror c cnd text errno result w =
     (if cnd then Inr (Next, w)
      else case logE c (errno_text strerror text errno) w of Inl e \<Rightarrow> Inl e | Inr w \<Rightarrow> Inr (Return result, w))"

text \<open>
  A check is passed without a trace or ends the process, in either build: this is why a failing one is
  the fault \<open>CheckFailed\<close> in the other theories. Only \<open>assert\<close> itself is removed by \<open>NDEBUG\<close>
  (\<open>assert_that\<close>).
\<close>

lemma check_stops:
  "CHECK ndebug c cnd text w = Inr w' \<longleftrightarrow> cnd \<and> w' = w"
  "CHECK_ERRNO2 strerror ndebug c cnd text errno w = Inr w' \<longleftrightarrow> cnd \<and> w' = w"
  by (auto simp: CHECK_def CHECK_ERRNO2_def split: sum.split)

lemma failed_check:
  assumes "log_ready w" and "\<not> cnd"
  shows "\<exists>w1 w'. CHECK_ERRNO2 strerror ndebug c cnd text errno w =
      Inl (if ndebug then Abort else Assertion (CHR 0x22 # text @ [CHR 0x22]), w') \<and>
    io_stderr w' = io_stderr w @ log_line w1 ''E'' c (errno_text strerror text errno)"
  using logE_printed [OF assms(1), of c "errno_text strerror text errno"] assms(2)
  by (auto simp: CHECK_ERRNO2_def ABORT_def logA_def LOG_IMPL_def)

lemma errno_leaves:
  assumes "log_ready w" and "\<not> cnd"
  shows "\<exists>w1 w'. CHECK_ERRNO_GOTO strerror c cnd text errno label w = Inr (Goto label, w') \<and>
      CHECK_ERRNO_RETURN strerror c cnd text errno result w = Inr (Return result, w') \<and> log_ready w' \<and>
      io_stderr w' = io_stderr w @ log_line w1 ''E'' c (errno_text strerror text errno)"
  using logE_printed [OF assms(1), of c "errno_text strerror text errno"] assms(2)
  by (auto simp: CHECK_ERRNO_GOTO_def CHECK_ERRNO_RETURN_def)

section \<open>The messages of the core (\<open>rtu_log_impl.h\<close>)\<close>

definition bit_text :: "bool \<Rightarrow> string" where "bit_text b = (if b then ''1'' else ''0'')"

definition RTU_LOG_TP :: "call_site \<Rightarrow> log_io \<Rightarrow> log_io logged" where "RTU_LOG_TP c = logI c ''''"

definition error_text :: "string \<Rightarrow> modbus_rtu_status \<Rightarrow> string" where
  "error_text str st =
     str @ '' ['' @ rtu_state_str (ucast (st_prev st)) @ ''|'' @ rtu_state_str (ucast (st_curr st)) @
     ''|U:'' @ bit_text (updated st) @ ''|E:'' @ bit_text (st_error st) @ '']''"

definition RTU_LOG_ERROR :: "call_site \<Rightarrow> string \<Rightarrow> modbus_rtu_status \<Rightarrow> log_io \<Rightarrow> log_io logged" where
  "RTU_LOG_ERROR c str st = logE c (error_text str st)"

definition RTU_LOG_EVENT :: "call_site \<Rightarrow> string \<Rightarrow> modbus_rtu_status \<Rightarrow> log_io \<Rightarrow> log_io logged" where
  "RTU_LOG_EVENT c str st =
     logD c (str @ '' ['' @ rtu_state_str (ucast (st_prev st)) @ ''|'' @ rtu_state_str (ucast (st_curr st)) @
       ''|E:'' @ bit_text (st_error st) @ '']'')"

text \<open>\<open>%02X\<close> and \<open>%04X\<close>.\<close>

definition HEX2 :: "u8 \<Rightarrow> string" where "HEX2 b = [lookup_hex (drop_bit 4 b), lookup_hex (b AND 0x0F)]"

definition RTU_LOG_DBG8 :: "call_site \<Rightarrow> string \<Rightarrow> u8 \<Rightarrow> log_io \<Rightarrow> log_io logged" where
  "RTU_LOG_DBG8 c str v = logD c (str @ '' '' @ HEX2 v)"

definition RTU_LOG_DBG16 :: "call_site \<Rightarrow> string \<Rightarrow> u16 \<Rightarrow> log_io \<Rightarrow> log_io logged" where
  "RTU_LOG_DBG16 c str v = logD c (str @ '' '' @ HEX2 (HIGH_BYTE v) @ HEX2 (LOW_BYTE v))"

text \<open>
  The line of an error says which status it was: the names of the six states of the machine have no \<open>|\<close>
  in them and differ.
\<close>

lemma state_name_ends:
  assumes "p \<le> RTU_STATE_BUSY" and "q \<le> RTU_STATE_BUSY"
    and "rtu_state_str (ucast p) @ CHR ''|'' # x = rtu_state_str (ucast q) @ CHR ''|'' # y"
  shows "p = q \<and> x = y"
  using assms unfolding states_up_to_BUSY by (elim insertE emptyE) (simp_all add: rtu_state_str_def)

lemma error_text_tells_status:
  assumes "st_prev a \<le> RTU_STATE_BUSY" "st_curr a \<le> RTU_STATE_BUSY" "st_prev b \<le> RTU_STATE_BUSY" "st_curr b \<le> RTU_STATE_BUSY"
    and "error_text str a = error_text str b"
  shows "a = b"
proof -
  note ends = state_name_ends [OF assms(1,3)] state_name_ends [OF assms(2,4)]
  have "bit_text (updated a) = bit_text (updated b)" "bit_text (st_error a) = bit_text (st_error b)"
      "st_prev a = st_prev b" "st_curr a = st_curr b"
    using assms(5) state_name_ends [OF assms(2,4), of "[]" "[]"]
    by (auto simp: error_text_def bit_text_def dest!: ends split: if_split_asm)
  then show ?thesis by (simp add: bit_text_def split: if_split_asm)
qed

end
