(* ===== verification/Spec2Isabelle.thy ===== *)
theory Spec2Isabelle
  imports Memory_Properties Linux_Properties Master_Properties Master_Slave Linux_Main Linux_Session
    Avr_Slave Stm32_Slave Stm8_Slave Tests_Pass Linux_Slow_Line Test_Program Tty_Tests
    Memory_Builds Linux_Log
begin

text \<open>
  A verification development for the Modbus RTU library in \<open>src/\<close>: the slave state machine
  (\<open>rtu.c\<close>), the handler that serves memory (\<open>rtu_memory.c\<close>), the requests and replies of a master
  (\<open>master.c\<close>), the CRC of the four builds, the Linux slave and master (\<open>linux/\<close>), and the
  ports to three microcontrollers (\<open>atmega328p/\<close>, \<open>stm32f103c8/\<close>, \<open>stm8s003f3/\<close>),
  and the tests of master and slave (\<open>linux/tests/rtu_tests.c\<close>).

  \<^bold>\<open>The program.\<close> A platform feeds received bytes to \<open>serial_recv_cb\<close> and timer
  interrupts to \<open>timer_cb\<close>; both only move the state machine of \<open>rtu.c\<close> along and set its
  flag \<open>updated\<close>. The main loop calls \<open>modbus_rtu_event\<close>, which checks the transition,
  restarts the machine after an error, and after the 3.5t silence processes the frame: CRC, call
  of the platform's \<open>pdu_cb\<close>, CRC of the reply, \<open>serial_send\<close>. In the Linux and ATmega builds
  \<open>pdu_cb\<close> is \<open>rtu_memory_impl_pdu_cb\<close>, which compares the slave address and calls
  \<open>rtu_memory_pdu_cb\<close>. On Linux the timers are time stamps and the line is a tty; on the
  microcontrollers both are peripherals. The Linux master builds a request, writes it to its tty,
  reads the reply with a timeout and parses it.

  \<^bold>\<open>The theories.\<close>
  \<^item> \<open>Modbus_Prelude\<close>: faults, checked buffers and cursors, the bytes of a word.
  \<^item> \<open>Rtu_Codes\<close>: function and exception codes, big-endian fields (\<open>rtu.h\<close>).
  \<^item> \<open>Crc16\<close>: \<open>linux/crc.c\<close> and \<open>stm32f103c8/crc.c\<close>. The locale \<open>crc_engine\<close>
    proves the residue and burst facts once; both builds interpret it. \<open>Adu\<close>: address, PDU and CRC.
  \<^item> \<open>Rtu\<close>: \<open>modbus_rtu_state\<close> and every function of \<open>rtu.c\<close>, over any
    \<open>platform\<close>. \<open>Rtu_Invariant\<close>: the invariant, the step relation of interrupts and events,
    reachability, and the locale \<open>rtu_platform\<close> with what the core needs of a platform.
    \<open>Rtu_Status\<close>: the status as its byte, and the edges of the code against those of the
    state diagram in \<open>diagrams/\<close>.
    \<open>Rtu_Frames\<close>: a whole frame from its first byte to its processing, proved in the locale
    \<open>frame_machine\<close> for any executor of inputs; every \<open>rtu_platform\<close> is one.
  \<^item> \<open>Rtu_Memory\<close>: every function of \<open>rtu_memory.c\<close>. \<open>Memory_Spec\<close>: the server on a map
    from addresses to bytes it implements, with the wire format. \<open>Memory_Correct\<close> (refinement
    lemmas, handler by handler), \<open>Memory_Frame\<close> (what any request leaves alone) and
    \<open>Memory_Properties\<close>. \<open>Memory_Builds\<close>: the builds that leave functions out, and where
    the memory and the log lie in their struct.
  \<^item> \<open>Linux_Tty\<close>: \<open>tty_read\<close>, \<open>tty_read_ll\<close>, \<open>tty_write\<close> over a script of system
    calls. \<open>Linux_Rtu\<close>: every function of \<open>linux/rtu_impl.c\<close>. \<open>Linux_Invariant\<close>
    interprets \<open>rtu_platform\<close> for it; \<open>Linux_Slave\<close> (requests and replies, the run loop,
    what happens after a damaged frame), \<open>Linux_Faults\<close> (which faults a run can end in, interrupted
    calls) and \<open>Linux_Properties\<close>. \<open>Linux_Rounds\<close>: the rounds of its loop with the readings of
    the clock and the system calls they make, vain attempts and sleeps of \<open>tty_read_ll\<close> included.
    \<open>Linux_Session\<close>: the process from its start through any sequence of requests, whose writes stay in
    its memory, and frames for other slaves, in any pieces.
    \<open>Linux_Slow_Line\<close>: below 19200 bps its 1.5t is less than a byte takes, and a frame that comes
    byte by byte is lost.
  \<^item> \<open>Linux_Text\<close>: \<open>hexdump\<close>, the debug dump of a tty, names. \<open>Linux_Device\<close>: the life of a
    tty device and \<open>tty_configure_term\<close>. \<open>Linux_Main\<close>: \<open>linux/rtu_main.c\<close>, its options and
    its run. \<open>Linux_Utils\<close>: pipes, pseudo terminals, buffers, signal handlers, the log level, dumps, times,
    and the calls on the queues of a line. \<open>Linux_Log\<close>: \<open>linux/log.h\<close>, \<open>linux/check.h\<close> and
    \<open>linux/rtu_log_impl.h\<close>: what a message prints, and that a failing check never goes on.
  \<^item> \<open>Master\<close>: every function of \<open>master.c\<close>, every struct of \<open>master.h\<close>;
    \<open>Master_Correct\<close> and \<open>Master_Properties\<close>. \<open>Linux_Master\<close>: \<open>linux/master_impl.c\<close>.
    \<open>Linux_Exchange\<close>: a request and its reply through the tty. \<open>Master_Slave\<close>: what a slave
    answers to the frames of a master; the properties of both together are below.
  \<^item> \<open>Linux_Tests\<close>: the tests of \<open>rtu_tests.c\<close> as programs on the Linux master.
    \<open>Tests_Pass\<close>: each passes against the slave, and what is written is read back.
    \<open>Test_Program\<close>: the options of the test program and its fixture. \<open>Tty_Tests\<close>: the tests of
    \<open>tty_dev_tests.c\<close>, which pass on a line that brings what is sent.
  \<^item> \<open>Mcu_Port\<close>: what the three ports share, with the locale \<open>pdu_provider\<close> of the PDU handlers
    and \<open>wraps\<close>: an interrupt of a port that does what an input of the core does makes it a
    \<open>frame_machine\<close>, so each of the three serves any sequence of requests as the abstract server does.
    \<open>Avr_Slave\<close>, \<open>Stm32_Slave\<close>, \<open>Stm8_Slave\<close>: every function of a port, the step relation of
    its interrupts and its main loop, and the proof that the port keeps the contract
    \<open>rtu_platform\<close> with the timer mode read off its registers.

  \<^bold>\<open>How the model corresponds to the code.\<close> A C function that can fault returns \<open>fault + 'a\<close>;
  \<open>Inl\<close> names an access out of range, a null call or a failed \<open>CHECK\<close> or \<open>ASSERT\<close>. Pointers
  into a buffer are offsets. \<open>uint8_t\<close> and \<open>uint16_t\<close> are words and wrap; \<open>int\<close> and
  \<open>int64_t\<close> are unbounded integers (times stay far below their limits, and an option of
  \<open>rtu_main.c\<close> whose number is no \<open>int\<close> is the outcome \<open>Undefined\<close>), and comparisons that C
  makes after integer promotion are made on integers. The loops of the handlers end by a measure on the
  words they count; those of \<open>tty.c\<close> by the script of system calls, whose end is the fault
  \<open>OutOfFuel\<close>; \<open>modbus_rtu_run\<close>, which never returns without a user event, is \<open>n\<close> rounds
  of its loop for any \<open>n\<close>; the recursion of \<open>send_impl\<close> and \<open>modbus_rtu_event\<close> has a
  depth of which 1 is shown to be enough; the loop that empties a receive queue is a \<open>while_option\<close>
  that is shown to end.

  \<^bold>\<open>Conditions.\<close> The handler of \<open>rtu_memory.c\<close> serves a request as the abstract server does when it
  only reads, when its function is unknown, or when what it writes stays in the window of the memory and
  registers hold the values of bytes: \<open>write_in_window\<close>. Every property that compares a slave with the
  server has this condition for its writes, alone or in \<open>traffic_ok\<close>, \<open>exchange_ok\<close> or as a range of
  addresses; three properties of \<open>Memory_Properties\<close> say what happens to other writes, which store
  outside the memory or in part. The slave of the Linux build is followed with any two intervals that differ
  (\<open>intervals_differ\<close>): with equal ones the timer that runs cannot be told from the other in its struct.

  \<^bold>\<open>Two ports are adapted.\<close> The sources of \<open>stm32f103c8/\<close> and \<open>stm8s003f3/\<close> do not compile against
  \<open>rtu.h\<close> and \<open>crc.h\<close>. Their models are the files adapted to the headers in three places: the slave
  address is not passed to \<open>modbus_rtu_init\<close>, the second parameter of \<open>serial_send\<close> is dropped, and the
  \<open>uint16_t\<close> of their \<open>modbus_rtu_calc_crc\<close> is made into the struct of \<open>crc.h\<close> by
  \<open>word_to_modbus_rtu_crc\<close>.

  \<^bold>\<open>Parameters.\<close> The drivers of the microcontrollers are not in the repository: their macros and
  functions are records of functions on a driver state of any type. \<open>avr_drv_ok\<close>, \<open>stm32_drv_ok\<close>
  and \<open>stm8_drv_ok\<close> state which register each of them writes; a driver that keeps these laws is
  given for each. \<open>_crc16_update\<close> of avr-libc, what \<open>malloc\<close>, \<open>open\<close>, the lock and
  the flush of the line, \<open>tcsetattr\<close>, \<open>tcgetattr\<close> and \<open>getopt\<close> answer, and the size and place of the
  memory are arguments; \<open>strdup\<close> succeeds.

  \<^bold>\<open>Not modelled.\<close> The calls to the log in the functions of the other theories (output only, except
  that on the ATmega they write the log part of the memory, which its step relation allows at any time); \<open>gnu.c\<close>, which passes calls to
  the C library; the framework \<open>utest.h\<close> of the tests, which is not in the repository. The layout of C
  structs is that of their byte lists (\<open>..._bytes\<close>), as the code packs them.
\<close>

section \<open>Master and slave\<close>

text \<open>A master with nothing on its line, whose next exchange delivers \<open>reply\<close>.\<close>

definition demo_master :: "u8 list \<Rightarrow> rtu_master_impl" where
  "demo_master reply = \<lparr>m_dev = demo_os (sconst 0)
      [Poll_ret 1 True False, Write_ret 256, Poll_ret 1 True False, Read_ret reply],
    m_rate = B19200, timeout_exec_ms = 100\<rparr>"

lemma demo_exchange: "exchange (demo_master reply) reply []"
  by (simp add: exchange_def demo_master_def demo_os_def)

lemma demo_serving: "serving 7 (impl_memory demo_memory) demo_idle"
  by (simp add: serving_def demo_idle_idle demo_memory_wf)

text \<open>
  C4: \<open>rtu_master_rd_bytes\<close> sends the frame of its request, and when what it then receives is
  what a slave answers to that frame, it delivers the bytes of the slave's memory.
\<close>

theorem master_reads_slave_bytes:
  assumes "serving a m s" and "replies s (adu a (request_pdu (Rd_bytes y n))) reply s'"
    and "addr_begin m \<le> y" and "unat y + unat n \<le> unat (addr_end m)" and "0 < n" and "n \<le> 249"
    and "exchange i reply cs" and "unat n \<le> length buf"
  shows "\<exists>w. rtu_master_rd_bytes i a (word_to_modbus_rtu_data16 y) n buf
      = Inr (i\<lparr>m_dev := w\<rparr>, overwrite buf 0 (read_run (mem_abs m) y (unat n)), Some (unat n)) \<and>
    wire w = wire (m_dev i) @ adu a (request_pdu (Rd_bytes y n)) \<and> calls w = cs"
proof -
  have "mem_wf m" using assms(1) by (simp add: serving_def)
  then have "snd (serve (mem_abs m) (Rd_bytes y n)) = Bytes_read y (read_run (mem_abs m) y (unat n))"
    using assms(3-6) by (rule serve_rd_bytes)
  then have "reply = adu a (reply_pdu (Bytes_read y (read_run (mem_abs m) y (unat n))))"
    using serving_replies [OF assms(1,2)] by (simp add: request_pdu_def)
  moreover have "length (read_run (mem_abs m) y (unat n)) = unat n" by (simp add: read_run_def)
  ultimately show ?thesis
    using rd_bytes_exchange [of i a y "read_run (mem_abs m) y (unat n)" cs buf n y] assms(6-8)
    by (simp add: word_le_nat_alt)
qed

theorem master_reads_slave_bytes_witness:
  "\<exists>w reply. rtu_master_rd_bytes (demo_master reply) 7 (word_to_modbus_rtu_data16 0x1001) 2 [0, 0]
      = Inr ((demo_master reply)\<lparr>m_dev := w\<rparr>, [2, 3], Some 2)"
proof -
  have "request_wf (Rd_bytes 0x1001 2)" "write_in_window (impl_memory demo_memory) (Rd_bytes 0x1001 2)"
      "length (request_pdu (Rd_bytes 0x1001 2)) \<le> 253"
    by (simp_all add: request_pdu_def)
  from serving_answers [OF demo_serving this] obtain reply s' where
    r: "replies demo_idle (adu 7 (request_pdu (Rd_bytes 0x1001 2))) reply s'" by blast
  have "overwrite [0, 0] 0 (read_run (mem_abs (impl_memory demo_memory)) 0x1001 2) = [2, 3]"
    by (simp add: read_run_def mem_abs_def demo_memory_def overwrite_0 upt_rec)
  then show ?thesis
    using master_reads_slave_bytes [OF demo_serving r _ _ _ _ demo_exchange, of "[0, 0]"]
    by (auto simp: demo_memory_def)
qed

text \<open>
  C5: \<open>rtu_master_wr_bytes\<close> and a slave: the bytes end up in the slave's memory, and the
  master is told so.
\<close>

theorem master_writes_slave_bytes:
  assumes "serving a m s" and "replies s (adu a (request_pdu (Wr_bytes y bs))) reply s'"
    and "addr_begin m \<le> y" and "unat y + length bs \<le> unat (addr_end m)" and "bs \<noteq> []" and "length bs \<le> 249"
    and "exchange i reply cs"
  shows "\<exists>w. rtu_master_wr_bytes i a (word_to_modbus_rtu_data16 y) (word_of_nat (length bs)) (Some bs)
      = Inr (i\<lparr>m_dev := w\<rparr>, Some (length bs)) \<and>
    wire w = wire (m_dev i) @ adu a (request_pdu (Wr_bytes y bs)) \<and>
    mem_abs (impl_memory (memory_impl (user_data s'))) = write_run (mem_abs m) (unat y) bs"
proof -
  have "mem_wf m" using assms(1) by (simp add: serving_def)
  then have srv: "serve (mem_abs m) (Wr_bytes y bs) =
      (write_run (mem_abs m) (unat y) bs, Bytes_written y (length bs))"
    using assms(3-6) by (rule serve_wr_bytes)
  have "request_wf (Wr_bytes y bs)" "write_in_window m (Wr_bytes y bs)" "length (request_pdu (Wr_bytes y bs)) \<le> 253"
    using assms(3,4,6) by (simp_all add: request_pdu_def)
  note answer = serving_replies [OF assms(1,2) this, unfolded srv fst_conv snd_conv]
  then show ?thesis
    using wr_bytes_exchange [OF _ assms(6), of i a y "length bs" cs y] assms(7) by auto
qed

theorem master_writes_slave_bytes_witness:
  "\<exists>w reply. rtu_master_wr_bytes (demo_master reply) 7 (word_to_modbus_rtu_data16 0x1002) 2 (Some [8, 9])
      = Inr ((demo_master reply)\<lparr>m_dev := w\<rparr>, Some 2)"
proof -
  have "request_wf (Wr_bytes 0x1002 [8, 9])" "write_in_window (impl_memory demo_memory) (Wr_bytes 0x1002 [8, 9])"
      "length (request_pdu (Wr_bytes 0x1002 [8, 9])) \<le> 253"
    by (simp_all add: request_pdu_def demo_memory_def)
  from serving_answers [OF demo_serving this] obtain reply s' where
    r: "replies demo_idle (adu 7 (request_pdu (Wr_bytes 0x1002 [8, 9]))) reply s'" by blast
  show ?thesis
    using master_writes_slave_bytes [OF demo_serving r _ _ _ _ demo_exchange]
    by (auto simp: demo_memory_def simp flip: numeral_2_eq_2)
qed

text \<open>
  C21: the same for runs of registers: each register that is read holds one byte of the slave's
  memory in its low half.
\<close>

theorem master_reads_slave_registers:
  assumes "serving a m s" and "replies s (adu a (request_pdu (Rd_registers y n))) reply s'"
    and "addr_begin m \<le> y" and "unat y + unat n \<le> unat (addr_end m)" and "0 < n" and "n \<le> 125"
    and "exchange i reply cs" and "2 * unat n \<le> length buf"
  shows "\<exists>w. rtu_master_rd_holding_registers i a (word_to_modbus_rtu_data16 y) (word_to_modbus_rtu_data16 n) buf
      = Inr (i\<lparr>m_dev := w\<rparr>, overwrite buf 0 (concat (map (\<lambda>v. [0, v]) (read_run (mem_abs m) y (unat n)))),
             Some (2 * unat n)) \<and>
    wire w = wire (m_dev i) @ adu a (request_pdu (Rd_registers y n)) \<and> calls w = cs"
proof -
  have "mem_wf m" using assms(1) by (simp add: serving_def)
  then have "snd (serve (mem_abs m) (Rd_registers y n)) = Registers (read_run (mem_abs m) y (unat n))"
    using assms(3-6) by (rule serve_rd_registers)
  then have "reply = adu a (reply_pdu (Registers (read_run (mem_abs m) y (unat n))))"
    using serving_replies [OF assms(1,2)] by (simp add: request_pdu_def)
  moreover have "length (read_run (mem_abs m) y (unat n)) = unat n" by (simp add: read_run_def)
  ultimately show ?thesis
    using rd_registers_exchange [of i a "read_run (mem_abs m) y (unat n)" cs buf n y] assms(6-8)
    by (simp add: word_le_nat_alt)
qed

theorem master_reads_slave_registers_witness:
  "\<exists>w reply. rtu_master_rd_holding_registers (demo_master reply) 7 (word_to_modbus_rtu_data16 0x1001)
      (word_to_modbus_rtu_data16 2) [9, 9, 9, 9]
    = Inr ((demo_master reply)\<lparr>m_dev := w\<rparr>, [0, 2, 0, 3], Some 4)"
proof -
  have "request_wf (Rd_registers 0x1001 2)" "write_in_window (impl_memory demo_memory) (Rd_registers 0x1001 2)"
      "length (request_pdu (Rd_registers 0x1001 2)) \<le> 253"
    by (simp_all add: request_pdu_def)
  from serving_answers [OF demo_serving this] obtain reply s' where
    r: "replies demo_idle (adu 7 (request_pdu (Rd_registers 0x1001 2))) reply s'" by blast
  have "overwrite [9, 9, 9, 9] 0 (concat (map (\<lambda>v. [0, v]) (read_run (mem_abs (impl_memory demo_memory)) 0x1001 2)))
      = [0, 2, 0, 3]"
    by (simp add: read_run_def mem_abs_def demo_memory_def overwrite_0 upt_rec)
  then show ?thesis
    using master_reads_slave_registers [OF demo_serving r _ _ _ _ demo_exchange, of "[9, 9, 9, 9]"]
    by (auto simp: demo_memory_def)
qed

text \<open>
  C22: and for writing a run of registers that lies in the slave's memory and whose values fit a byte:
  one byte of memory holds one register, and any other value is refused (\<open>write_registers_partial\<close>).
\<close>

theorem master_writes_slave_registers:
  assumes "serving a m s" and "replies s (adu a (request_pdu (Wr_registers y ws))) reply s'"
    and "addr_begin m \<le> y" and "unat y + length ws \<le> unat (addr_end m)" and "ws \<noteq> []" and "length ws \<le> 123"
    and "list_all (\<lambda>w. HIGH_BYTE w = 0) ws" and "exchange i reply cs"
  shows "\<exists>w. rtu_master_wr_registers i a (word_to_modbus_rtu_data16 y)
        (word_to_modbus_rtu_data16 (word_of_nat (length ws))) (Some (map word_to_modbus_rtu_data16 ws))
      = Inr (i\<lparr>m_dev := w\<rparr>, Some (length ws)) \<and>
    wire w = wire (m_dev i) @ adu a (request_pdu (Wr_registers y ws)) \<and>
    mem_abs (impl_memory (memory_impl (user_data s'))) = write_run (mem_abs m) (unat y) (map LOW_BYTE ws)"
proof -
  have "mem_wf m" using assms(1) by (simp add: serving_def)
  then have srv: "serve (mem_abs m) (Wr_registers y ws) =
      (write_run (mem_abs m) (unat y) (map LOW_BYTE ws), Registers_written y (length ws))"
    using assms(3-7) by (rule serve_wr_registers)
  have "request_wf (Wr_registers y ws)" "write_in_window m (Wr_registers y ws)"
      "length (request_pdu (Wr_registers y ws)) \<le> 253"
    using assms(3,4,6,7) by (simp_all add: request_pdu_def length_concat_be16)
  note answer = serving_replies [OF assms(1,2) this, unfolded srv fst_conv snd_conv]
  then show ?thesis
    using wr_registers_exchange [OF _ assms(6), of i a y "length ws" cs y] assms(8) by auto
qed

theorem master_writes_slave_registers_witness:
  "\<exists>w reply. rtu_master_wr_registers (demo_master reply) 7 (word_to_modbus_rtu_data16 0x1002)
      (word_to_modbus_rtu_data16 2) (Some [word_to_modbus_rtu_data16 8, word_to_modbus_rtu_data16 9])
    = Inr ((demo_master reply)\<lparr>m_dev := w\<rparr>, Some 2)"
proof -
  have "request_wf (Wr_registers 0x1002 [8, 9])" "write_in_window (impl_memory demo_memory) (Wr_registers 0x1002 [8, 9])"
      "length (request_pdu (Wr_registers 0x1002 [8, 9])) \<le> 253"
    by (simp_all add: request_pdu_def demo_memory_def HIGH_BYTE_def)
  from serving_answers [OF demo_serving this] obtain reply s' where
    r: "replies demo_idle (adu 7 (request_pdu (Wr_registers 0x1002 [8, 9]))) reply s'" by blast
  show ?thesis
    using master_writes_slave_registers [OF demo_serving r _ _ _ _ _ demo_exchange]
    by (auto simp: demo_memory_def HIGH_BYTE_def simp flip: numeral_2_eq_2)
qed

text \<open>
  C34: the two functions that read do not limit the count: the reply to a count that is too large
  does not fit their local buffer of 256 bytes and is received past its end.
\<close>

theorem master_read_overflow:
  assumes "exchange i r cs" and "125 < n" and "length r = 5 + 2 * unat n"
    and "exchange j r' cs" and "249 < k" and "length r' = 7 + unat k"
  shows "rtu_master_rd_holding_registers i a (word_to_modbus_rtu_data16 y) (word_to_modbus_rtu_data16 n) buf
      = Inl (BadWrite Dst 256) \<and>
    rtu_master_rd_bytes j a (word_to_modbus_rtu_data16 y) k buf = Inl (BadWrite Dst 256)"
proof
  let ?req = "a # FCODE_RD_HOLDING_REGISTERS # be16 y @ be16 n" and ?rx = "replicate ADU_CAPACITY (0 :: u8)"
  have cap: "length ?rx = 256" by (simp add: ADU_CAPACITY_def)
  have "?req @ crc_bytes ?req \<noteq> []" "length (?req @ crc_bytes ?req) \<le> 256" "length r = 3 + unat n * 2 + 2"
      "length ?rx < 3 + unat n * 2 + 2"
    using assms(2,3) by (simp_all add: ADU_CAPACITY_def word_less_nat_alt)
  from exchange_overflow [OF assms(1) this, unfolded cap] obtain v where
    v: "write_impl i (?req @ crc_bytes ?req) = Inr (i\<lparr>m_dev := v\<rparr>, True)"
      "read_impl (i\<lparr>m_dev := v\<rparr>) ?rx (3 + unat n * 2 + 2) = Inl (BadWrite Dst 256)"
    by auto
  have "implace_crc (?req @ [0, 0]) (length (?req @ [0, 0])) = Inr (?req @ crc_bytes ?req, Some (length ?req + 2))"
    using implace_struct [of ?req] by simp
  then show "rtu_master_rd_holding_registers i a (word_to_modbus_rtu_data16 y) (word_to_modbus_rtu_data16 n) buf
      = Inl (BadWrite Dst 256)"
    by (simp only: rtu_master_rd_holding_registers_def Let_def struct_bytes bind_res.simps prod.case
        DATA16_TO_WORD_of_word v option.distinct if_False not_True_eq_False)
next
  let ?req = "a # FCODE_RD_BYTES # be16 y @ [k]" and ?rx = "replicate ADU_CAPACITY (0 :: u8)"
  have cap: "length ?rx = 256" by (simp add: ADU_CAPACITY_def)
  have "?req @ crc_bytes ?req \<noteq> []" "length (?req @ crc_bytes ?req) \<le> 256" "length r' = 5 + unat k + 2"
      "length ?rx < 5 + unat k + 2"
    using assms(5,6) by (simp_all add: ADU_CAPACITY_def word_less_nat_alt)
  from exchange_overflow [OF assms(4) this, unfolded cap] obtain v where
    v: "write_impl j (?req @ crc_bytes ?req) = Inr (j\<lparr>m_dev := v\<rparr>, True)"
      "read_impl (j\<lparr>m_dev := v\<rparr>) ?rx (5 + unat k + 2) = Inl (BadWrite Dst 256)"
    by auto
  have "implace_crc (?req @ [0, 0]) (length (?req @ [0, 0])) = Inr (?req @ crc_bytes ?req, Some (length ?req + 2))"
    using implace_struct [of ?req] by simp
  then show "rtu_master_rd_bytes j a (word_to_modbus_rtu_data16 y) k buf = Inl (BadWrite Dst 256)"
    by (simp only: rtu_master_rd_bytes_def Let_def struct_bytes bind_res.simps prod.case
        v option.distinct if_False not_True_eq_False)
qed

theorem master_read_overflow_witness:
  "rtu_master_rd_bytes (demo_master (replicate 257 1)) 7 (word_to_modbus_rtu_data16 0) 250 [] = Inl (BadWrite Dst 256)"
  using master_read_overflow [OF demo_exchange [of "replicate 257 1"] _ _ demo_exchange [of "replicate 257 1"],
      of 126 250 7 0 "[]"]
  by simp

text \<open>
  C20: when nothing arrives until the time for the reply and for the execution has passed on the
  master's clock, a read returns NULL and leaves the caller's buffer alone.
\<close>

theorem master_gives_up:
  assumes "m_rate i \<noteq> B0" and "calc_tmax_ms (m_rate i) (7 + unat n) = Inr t" and "0 \<le> t + timeout_exec_ms i"
    and "calls (m_dev i) = [Poll_ret 1 True False, Write_ret 256, Poll_ret 0 r1 r2] @ cs"
    and "clock (m_dev i) = c0 ## c1 ## c2 ## c3 ## c" and "t + timeout_exec_ms i < (c3 - c2) sdiv 1000"
    and "n \<le> 249"
  shows "\<exists>w. rtu_master_rd_bytes i a (word_to_modbus_rtu_data16 y) n buf = Inr (i\<lparr>m_dev := w\<rparr>, buf, None) \<and>
    wire w = wire (m_dev i) @ adu a (request_pdu (Rd_bytes y n))"
proof -
  let ?req = "a # FCODE_RD_BYTES # be16 y @ [n]" and ?rx = "replicate ADU_CAPACITY (0 :: u8)"
  have "length (?req @ crc_bytes ?req) \<le> 256" by simp
  moreover have "calls (m_dev i) = Poll_ret 1 True False # Write_ret 256 # Poll_ret 0 r1 r2 # cs" "?req @ crc_bytes ?req \<noteq> []"
    using assms(4) by simp_all
  ultimately obtain v where
    v: "write_impl i (?req @ crc_bytes ?req) = Inr (i\<lparr>m_dev := v\<rparr>, True)"
      "wire v = wire (m_dev i) @ (?req @ crc_bytes ?req)" "calls v = Poll_ret 0 r1 r2 # cs"
      "clock v = stl (stl (clock (m_dev i)))"
    using write_impl_at_once [OF assms(1)] by blast
  have sz: "5 + unat n + 2 = 7 + unat n" "7 + unat n \<le> length ?rx"
    using assms(7) by (simp_all add: ADU_CAPACITY_def word_le_nat_alt)
  have "\<exists>w. read_impl (i\<lparr>m_dev := v\<rparr>) ?rx (7 + unat n) = Inr (i\<lparr>m_dev := w\<rparr>, ?rx, False) \<and> wire w = wire v"
    using read_impl_silence [of "i\<lparr>m_dev := v\<rparr>" "7 + unat n" t r1 r2 cs c2 c3 c ?rx] assms(2,3,5,6) v(3,4) sz(2)
    by simp
  then obtain w where w: "read_impl (i\<lparr>m_dev := v\<rparr>) ?rx (7 + unat n) = Inr (i\<lparr>m_dev := w\<rparr>, ?rx, False)"
      "wire w = wire v" by blast
  have "implace_crc (?req @ [0, 0]) (length (?req @ [0, 0])) = Inr (?req @ crc_bytes ?req, Some (length ?req + 2))"
    using implace_struct [of ?req] by simp
  then have "rtu_master_rd_bytes i a (word_to_modbus_rtu_data16 y) n buf = Inr (i\<lparr>m_dev := w\<rparr>, buf, None)"
    by (simp only: rtu_master_rd_bytes_def Let_def struct_bytes bind_res.simps prod.case
        v(1) w(1) sz(1) option.distinct if_False if_True not_False_eq_True not_True_eq_False)
  moreover have "?req @ crc_bytes ?req = adu a (request_pdu (Rd_bytes y n))"
    by (simp add: adu_def request_pdu_def)
  ultimately show ?thesis using v(2) w(2) by metis
qed

theorem master_gives_up_witness:
  "\<exists>w. rtu_master_rd_bytes ((demo_master [])\<lparr>m_dev := demo_os (0 ## 0 ## 0 ## 200000 ## sconst 0)
        [Poll_ret 1 True False, Write_ret 256, Poll_ret 0 False False]\<rparr>) 7 (word_to_modbus_rtu_data16 0) 2 [5, 5]
     = Inr ((demo_master [])\<lparr>m_dev := w\<rparr>, [5, 5], None)"
  using master_gives_up [of "(demo_master [])\<lparr>m_dev := demo_os (0 ## 0 ## 0 ## 200000 ## sconst 0)
        [Poll_ret 1 True False, Write_ret 256, Poll_ret 0 False False]\<rparr>" 2 15 False False "[]"
      0 0 0 200000 "sconst 0" 7 0 "[5, 5]"]
  by (auto simp: demo_master_def demo_os_def calc_tmax_ms_def calc_tmin_ms_def)

end
